(* ===== verification/Prelude.thy ===== *)
theory Prelude
  imports Main "HOL-Library.Word" "HOL-Library.State_Monad"
begin

text \<open>
  Shared vocabulary of the development.  It holds the machine types of the C
  sources, wolfCrypt's return codes, the little-endian byte view of 32-bit words
  (the build configuration is little endian), the C memory primitives on byte
  lists, the heap with its allocator, and a weakest-precondition calculus for the
  state monad in which the functions that allocate are written.

  The heap is abstract.  What the program can observe of the allocator is whether
  the next request is granted, so the environment carries an arbitrary oracle
  \<open>hp_ok\<close> that says whether the n-th request succeeds, the number of live blocks,
  and a log of the contents every block had when it was given back.  The log is
  what the wiping theorems speak about.  The field \<open>world\<close> is the state of
  everything outside the library (the Java virtual machine, an enclave).
\<close>

unbundle bit_operations_syntax

section \<open>Machine types and return codes\<close>

type_synonym byte = "8 word"
type_synonym word16 = "16 word"
type_synonym word32 = "32 word"
type_synonym word64 = "64 word"

named_theorems rc_defs "return codes of wolfCrypt"
named_theorems frame_rules "how library calls act on the environment"

definition MP_MEM :: int where [rc_defs]: "MP_MEM = -97"
definition MP_VAL :: int where [rc_defs]: "MP_VAL = -98"
definition MEMORY_E :: int where [rc_defs]: "MEMORY_E = -125"
definition BUFFER_E :: int where [rc_defs]: "BUFFER_E = -132"
definition ASN_PARSE_E :: int where [rc_defs]: "ASN_PARSE_E = -140"
definition ECC_BAD_ARG_E :: int where [rc_defs]: "ECC_BAD_ARG_E = -170"
definition ECC_CURVE_OID_E :: int where [rc_defs]: "ECC_CURVE_OID_E = -172"
definition BAD_FUNC_ARG :: int where [rc_defs]: "BAD_FUNC_ARG = -173"
definition NOT_COMPILED_IN :: int where [rc_defs]: "NOT_COMPILED_IN = -174"
definition AES_GCM_AUTH_E :: int where [rc_defs]: "AES_GCM_AUTH_E = -180"
definition BAD_STATE_E :: int where [rc_defs]: "BAD_STATE_E = -192"
definition RNG_FAILURE_E :: int where [rc_defs]: "RNG_FAILURE_E = -199"
definition HMAC_MIN_KEYLEN_E :: int where [rc_defs]: "HMAC_MIN_KEYLEN_E = -200"
definition LENGTH_ONLY_E :: int where [rc_defs]: "LENGTH_ONLY_E = -202"
definition ECC_PRIV_KEY_E :: int where [rc_defs]: "ECC_PRIV_KEY_E = -216"
definition KEYUSAGE_E :: int where [rc_defs]: "KEYUSAGE_E = -226"
definition ECC_PRIVATEONLY_E :: int where [rc_defs]: "ECC_PRIVATEONLY_E = -246"
definition AES_GCM_OVERFLOW_E :: int where [rc_defs]: "AES_GCM_OVERFLOW_E = -260"
definition CRYPTOCB_UNAVAILABLE :: int where [rc_defs]: "CRYPTOCB_UNAVAILABLE = -271"
definition MISSING_KEY :: int where [rc_defs]: "MISSING_KEY = -278"
definition NO_VALID_DEVID :: int where [rc_defs]: "NO_VALID_DEVID = -290"
definition ALREADY_E :: int where [rc_defs]: "ALREADY_E = -1007"
definition SEQ_OVERFLOW_E :: int where [rc_defs]: "SEQ_OVERFLOW_E = -1008"

lemma rc_nonzero [simp]: "MEMORY_E \<noteq> 0" "BUFFER_E \<noteq> 0" "BAD_FUNC_ARG \<noteq> 0" "BAD_STATE_E \<noteq> 0"
  by (simp_all add: rc_defs)

section \<open>C memory primitives on byte lists\<close>

text \<open>
  \<open>blit dst off src\<close> is \<open>XMEMCPY(&dst[off], src, len)\<close> with \<open>len\<close> the length of
  \<open>src\<close>; \<open>zeros n\<close> is the block \<open>XMEMSET(p, 0, n)\<close> leaves.
\<close>

definition blit :: "'a list \<Rightarrow> nat \<Rightarrow> 'a list \<Rightarrow> 'a list" where
  "blit dst off src = take off dst @ src @ drop (off + length src) dst"

definition zeros :: "nat \<Rightarrow> byte list" where
  "zeros n = replicate n 0"

lemma length_blit [simp]:
  "off + length src \<le> length dst \<Longrightarrow> length (blit dst off src) = length dst"
  by (simp add: blit_def)

lemma blit_0_full [simp]: "length src = length dst \<Longrightarrow> blit dst 0 src = src"
  by (simp add: blit_def)

lemma blit_Nil [simp]: "blit dst off [] = dst"
  by (simp add: blit_def)

lemma take_blit:
  "off + length src \<le> length dst \<Longrightarrow>
   take (off + length src) (blit dst off src) = take off dst @ src"
  by (simp add: blit_def)

lemma blit_to_end:
  "off + length src = length dst \<Longrightarrow> blit dst off src = take off dst @ src"
  by (simp add: blit_def)

lemma length_zeros [simp]: "length (zeros n) = n"
  by (simp add: zeros_def)

lemma set_zeros_subset: "set (zeros n) \<subseteq> {0}"
  by (auto simp: zeros_def)

lemma zeros_0 [simp]: "zeros 0 = []"
  by (simp add: zeros_def)

lemma zeros_add: "zeros (m + n) = zeros m @ zeros n"
  by (simp add: zeros_def replicate_add)

section \<open>Bytes and words\<close>

text \<open>The little-endian memory view of a 32-bit word, and the big-endian octet
  string the standards use.\<close>

definition bytes_of_word32 :: "word32 \<Rightarrow> byte list" where
  "bytes_of_word32 w =
     [ucast w, ucast (drop_bit 8 w), ucast (drop_bit 16 w), ucast (drop_bit 24 w)]"

definition word32_of_bytes :: "byte list \<Rightarrow> word32" where
  "word32_of_bytes bs =
     ucast (bs ! 0) OR push_bit 8 (ucast (bs ! 1)) OR
     push_bit 16 (ucast (bs ! 2)) OR push_bit 24 (ucast (bs ! 3))"

definition be32 :: "word32 \<Rightarrow> byte list" where
  "be32 w = rev (bytes_of_word32 w)"

fun words_of_bytes :: "byte list \<Rightarrow> word32 list" where
  "words_of_bytes (a # b # c # d # bs) = word32_of_bytes [a, b, c, d] # words_of_bytes bs"
| "words_of_bytes _ = []"

definition bytes_of_words :: "word32 list \<Rightarrow> byte list" where
  "bytes_of_words ws = concat (map bytes_of_word32 ws)"

lemma length_bytes_of_word32 [simp]: "length (bytes_of_word32 w) = 4"
  by (simp add: bytes_of_word32_def)

lemma length_be32 [simp]: "length (be32 w) = 4"
  by (simp add: be32_def)

lemma bytes_of_words_Nil [simp]: "bytes_of_words [] = []"
  by (simp add: bytes_of_words_def)

lemma bytes_of_words_Cons [simp]:
  "bytes_of_words (w # ws) = bytes_of_word32 w @ bytes_of_words ws"
  by (simp add: bytes_of_words_def)

lemma bytes_of_words_append [simp]:
  "bytes_of_words (xs @ ys) = bytes_of_words xs @ bytes_of_words ys"
  by (simp add: bytes_of_words_def)

lemma length_bytes_of_words [simp]: "length (bytes_of_words ws) = 4 * length ws"
  by (induction ws) simp_all

lemma word32_of_bytes_of_word32 [simp]: "word32_of_bytes (bytes_of_word32 w) = w"
proof (rule bit_word_eqI)
  fix n assume "n < LENGTH(32)"
  then have "n < 8 \<or> (\<exists>k<8. n = 8 + k) \<or> (\<exists>k<8. n = 16 + k) \<or> (\<exists>k<8. n = 24 + k)"
    by simp presburger
  then show "bit (word32_of_bytes (bytes_of_word32 w)) n = bit w n"
    by (elim disjE exE conjE) (simp_all add: word32_of_bytes_def bytes_of_word32_def bit_simps)
qed

lemma bytes_of_word32_of_bytes [simp]:
  assumes "length bs = 4"
  shows "bytes_of_word32 (word32_of_bytes bs) = bs"
proof -
  obtain a b c d where bs: "bs = [a, b, c, d]"
    using assms by (auto simp: numeral_eq_Suc length_Suc_conv)
  have "ucast (word32_of_bytes bs) = a \<and> ucast (drop_bit 8 (word32_of_bytes bs)) = b \<and>
    ucast (drop_bit 16 (word32_of_bytes bs)) = c \<and> ucast (drop_bit 24 (word32_of_bytes bs)) = d"
    by (intro conjI bit_word_eqI) (auto simp: bs word32_of_bytes_def bit_simps dest: bit_imp_le_length)
  then show ?thesis
    by (simp add: bs bytes_of_word32_def)
qed

lemma words_of_bytes_append4:
  assumes "length as = 4"
  shows "words_of_bytes (as @ bs) = word32_of_bytes as # words_of_bytes bs"
proof -
  obtain a b c d where "as = [a, b, c, d]"
    using assms by (auto simp: numeral_eq_Suc length_Suc_conv)
  then show ?thesis by simp
qed

lemma words_of_bytes_of_words [simp]: "words_of_bytes (bytes_of_words ws) = ws"
  by (induction ws) (simp_all add: words_of_bytes_append4)

lemma length_words_of_bytes [simp]: "length (words_of_bytes bs) = length bs div 4"
  by (induction bs rule: words_of_bytes.induct) simp_all

lemma bytes_of_words_of_bytes [simp]:
  "4 dvd length bs \<Longrightarrow> bytes_of_words (words_of_bytes bs) = bs"
proof (induction bs rule: words_of_bytes.induct)
  case (1 a b c d bs)
  then have "4 dvd length bs" by simp presburger
  with 1 show ?case
    using bytes_of_word32_of_bytes [of "[a, b, c, d]"] by simp
qed (simp_all, presburger+)

lemma nth_words_of_bytes:
  "i < length bs div 4 \<Longrightarrow>
   words_of_bytes bs ! i = word32_of_bytes (take 4 (drop (4 * i) bs))"
proof (induction bs arbitrary: i rule: words_of_bytes.induct)
  case (1 a b c d bs)
  then show ?case by (cases i) (auto simp: drop_Cons')
qed auto

lemma drop_bytes_of_words: "drop (4 * n) (bytes_of_words ws) = bytes_of_words (drop n ws)"
proof (induction ws arbitrary: n)
  case (Cons w ws)
  then show ?case by (cases n) simp_all
qed simp

text \<open>The number written by big-endian bytes.\<close>

primrec be_val :: "byte list \<Rightarrow> nat" where
  "be_val [] = 0"
| "be_val (b # bs) = unat b * 256 ^ length bs + be_val bs"

lemma be_val_snoc: "be_val (bs @ [b]) = be_val bs * 256 + unat b"
  by (induction bs) (simp_all add: algebra_simps)

lemma be_val_less: "be_val bs < 256 ^ length bs"
proof (induction bs)
  case (Cons b bs)
  have "unat b * 256 ^ length bs + be_val bs < (unat b + 1) * 256 ^ length bs"
    using Cons by (simp add: algebra_simps)
  also have "\<dots> \<le> 256 * 256 ^ length bs"
    using unsigned_less [of b, where ?'a = nat] by (intro mult_right_mono) simp_all
  finally show ?case by simp
qed simp

lemma words_of_bytes_append:
  "4 dvd length as \<Longrightarrow> words_of_bytes (as @ bs) = words_of_bytes as @ words_of_bytes bs"
proof (induction as rule: words_of_bytes.induct)
  case (1 a b c d as)
  then have "4 dvd length as" by simp presburger
  with 1 show ?case by simp
qed (simp_all, presburger+)

section \<open>The heap\<close>

text \<open>A freed block is logged with its final contents: raw bytes, an array of
  32-bit words, or a named structure with whether it was wiped.  The flag of a structure is
  computed where the code clears it member by member; it is \<open>True\<close> where the code
  calls \<open>ForceZero\<close> on the whole structure just before it is released.\<close>

datatype freed =
    Freed_bytes "byte list"
  | Freed_words "word32 list"
  | Freed_obj string bool

primrec wiped :: "freed \<Rightarrow> bool" where
  "wiped (Freed_bytes bs) = (\<forall>b \<in> set bs. b = 0)"
| "wiped (Freed_words ws) = (\<forall>w \<in> set ws. w = 0)"
| "wiped (Freed_obj _ z) = z"

record 'w env =
  hp_ok :: "nat \<Rightarrow> bool"
  hp_next :: nat
  hp_live :: int
  hp_freed :: "freed list"
  world :: 'w

abbreviation ret :: "'a \<Rightarrow> ('s, 'a) state" where
  "ret \<equiv> State_Monad.return"

type_synonym ('w, 'a) cmd = "('w env, 'a) state"

text \<open>\<open>XMALLOC\<close> returns whether the block was granted (a non-NULL pointer).\<close>

definition XMALLOC :: "('w, bool) cmd" where
  "XMALLOC = State (\<lambda>h. if hp_ok h (hp_next h)
     then (True, h\<lparr>hp_next := Suc (hp_next h), hp_live := hp_live h + 1\<rparr>)
     else (False, h\<lparr>hp_next := Suc (hp_next h)\<rparr>))"

definition XFREE :: "freed \<Rightarrow> ('w, unit) cmd" where
  "XFREE b = State (\<lambda>h. ((), h\<lparr>hp_live := hp_live h - 1, hp_freed := hp_freed h @ [b]\<rparr>))"

section \<open>Weakest preconditions\<close>

definition wp :: "('s, 'a) state \<Rightarrow> ('a \<Rightarrow> 's \<Rightarrow> bool) \<Rightarrow> 's \<Rightarrow> bool" where
  "wp m Q s = (case run_state m s of (x, s') \<Rightarrow> Q x s')"

lemma wp_return [simp]: "wp (ret x) Q s = Q x s"
  by (simp add: wp_def)

lemma wp_bind [simp]: "wp (State_Monad.bind m f) Q s = wp m (\<lambda>x. wp (f x) Q) s"
  by (simp add: wp_def State_Monad.bind_def split: prod.splits)

lemma wp_if: "wp (if b then m else n) Q s = (if b then wp m Q s else wp n Q s)"
  by simp

lemma wp_case_prod: "wp (case p of (x, y) \<Rightarrow> f x y) Q s = (case p of (x, y) \<Rightarrow> wp (f x y) Q s)"
  by (simp split: prod.splits)

lemma wp_conseq: "wp m Q s \<Longrightarrow> (\<And>x s'. Q x s' \<Longrightarrow> R x s') \<Longrightarrow> wp m R s"
  by (auto simp: wp_def split: prod.splits)

lemma wp_conj: "wp m Q s \<Longrightarrow> wp m R s \<Longrightarrow> wp m (\<lambda>x s'. Q x s' \<and> R x s') s"
  by (auto simp: wp_def split: prod.splits)

lemma wpD: "wp m Q s \<Longrightarrow> run_state m s = (x, s') \<Longrightarrow> Q x s'"
  by (simp add: wp_def)

lemma wpI: "(\<And>x s'. run_state m s = (x, s') \<Longrightarrow> Q x s') \<Longrightarrow> wp m Q s"
  by (auto simp: wp_def split: prod.splits)

lemma wp_run: "run_state m s = (x, s') \<Longrightarrow> wp m Q s = Q x s'"
  by (simp add: wp_def)

lemma wp_XFREE [simp]:
  "wp (XFREE b) Q h = Q () (h\<lparr>hp_live := hp_live h - 1, hp_freed := hp_freed h @ [b]\<rparr>)"
  by (simp add: wp_def XFREE_def)

lemma wp_XMALLOC [simp]:
  "wp XMALLOC Q h =
     (if hp_ok h (hp_next h)
      then Q True (h\<lparr>hp_next := Suc (hp_next h), hp_live := hp_live h + 1\<rparr>)
      else Q False (h\<lparr>hp_next := Suc (hp_next h)\<rparr>))"
  by (simp add: wp_def XMALLOC_def)

section \<open>Frames\<close>

text \<open>
  \<open>frame P d h h'\<close>: from \<open>h\<close> to \<open>h'\<close> the world is untouched, \<open>d\<close> more blocks are live,
  and every block given back satisfies \<open>P\<close>.  A call that cleans up after itself has
  \<open>frame P 0\<close>; \<open>frame wiped 0\<close> says in addition that it wiped what it freed.
\<close>

definition frame :: "(freed \<Rightarrow> bool) \<Rightarrow> int \<Rightarrow> 'w env \<Rightarrow> 'w env \<Rightarrow> bool" where
  "frame P d h h' \<longleftrightarrow>
     hp_ok h' = hp_ok h \<and> hp_next h \<le> hp_next h' \<and> hp_live h' = hp_live h + d \<and>
     world h' = world h \<and> (\<exists>zs. hp_freed h' = hp_freed h @ zs \<and> list_all P zs)"

definition alloc_ok :: "'w env \<Rightarrow> bool" where
  "alloc_ok h \<longleftrightarrow> (\<forall>n. hp_ok h n)"

lemma frame_refl [simp, intro]: "frame P 0 h h"
  by (simp add: frame_def)

lemma frame_trans:
  "frame P d h h' \<Longrightarrow> frame P e h' h'' \<Longrightarrow> frame P (d + e) h h''"
  by (fastforce simp: frame_def)

lemma frame_trans0: "frame P 0 h h' \<Longrightarrow> frame P 0 h' h'' \<Longrightarrow> frame P 0 h h''"
  using frame_trans [of P 0 h h' 0 h''] by simp

lemma frame_mono: "frame P d h h' \<Longrightarrow> (\<And>b. P b \<Longrightarrow> Q b) \<Longrightarrow> frame Q d h h'"
  by (fastforce simp: frame_def list_all_iff)

lemma frame_alloc_ok: "frame P d h h' \<Longrightarrow> alloc_ok h' = alloc_ok h"
  by (simp add: frame_def alloc_ok_def)

lemma frame_world: "frame P d h h' \<Longrightarrow> world h' = world h"
  by (simp add: frame_def)

lemma frame_live: "frame P d h h' \<Longrightarrow> hp_live h' = hp_live h + d"
  by (simp add: frame_def)

lemma frame_malloc:
  "hp_ok h (hp_next h) \<Longrightarrow> frame P 1 h (h\<lparr>hp_next := Suc (hp_next h), hp_live := hp_live h + 1\<rparr>)"
  by (simp add: frame_def)

lemma frame_malloc_fail: "frame P 0 h (h\<lparr>hp_next := Suc (hp_next h)\<rparr>)"
  by (simp add: frame_def)

lemma frame_free:
  "frame P (d + 1) h h' \<Longrightarrow> P b \<Longrightarrow>
   frame P d h (h'\<lparr>hp_live := hp_live h' - 1, hp_freed := hp_freed h' @ [b]\<rparr>)"
  by (fastforce simp: frame_def)

lemma alloc_ok_malloc: "\<not> hp_ok h (hp_next h) \<Longrightarrow> \<not> alloc_ok h"
  by (auto simp: alloc_ok_def)

text \<open>
  \<open>clean Z d h m Q\<close>: run from \<open>h\<close>, the command \<open>m\<close> leaves \<open>d\<close> more blocks live, gives back
  only blocks that satisfy \<open>Z\<close>, does not touch the world, and either ends with a
  return code and result in \<open>Q\<close> or reports \<open>MEMORY_E\<close> because a request was refused.
  When the allocator never refuses, the outcome is in \<open>Q\<close>.
\<close>

definition clean ::
  "(freed \<Rightarrow> bool) \<Rightarrow> int \<Rightarrow> 'w env \<Rightarrow> ('w, int \<times> 'a) cmd \<Rightarrow> (int \<Rightarrow> 'a \<Rightarrow> bool) \<Rightarrow> bool" where
  "clean Z d h m Q \<longleftrightarrow>
     wp m (\<lambda>(r, x) h'. frame Z d h h' \<and> (Q r x \<or> r = MEMORY_E \<and> \<not> alloc_ok h)) h"

abbreviation succeeds :: "('a \<Rightarrow> bool) \<Rightarrow> int \<Rightarrow> 'a \<Rightarrow> bool" where
  "succeeds P \<equiv> (\<lambda>r x. r = 0 \<and> P x)"

lemma clean_run:
  assumes "clean Z d h m Q" "run_state m h = ((r, x), h')"
  shows "frame Z d h h'" "Q r x \<or> r = MEMORY_E \<and> \<not> alloc_ok h"
  using assms by (auto simp: clean_def wp_def)

lemma clean_ret: "Q r x \<Longrightarrow> clean Z 0 h (ret (r, x)) Q"
  by (simp add: clean_def)

lemma clean_fail: "\<not> alloc_ok h \<Longrightarrow> clean Z 0 h (ret (MEMORY_E, x)) Q"
  by (simp add: clean_def)

lemma clean_conseq: "clean Z d h m P \<Longrightarrow> (\<And>r x. P r x \<Longrightarrow> Q r x) \<Longrightarrow> clean Z d h m Q"
  by (auto simp: clean_def elim!: wp_conseq)

lemma clean_mono:
  "clean Z d h m Q \<Longrightarrow> (\<And>b. Z b \<Longrightarrow> Y b) \<Longrightarrow> clean Y d h m Q"
  by (auto simp: clean_def elim!: wp_conseq intro: frame_mono)

lemma clean_step:
  assumes "frame Z e h h'" "clean Z d h' m Q"
  shows "wp m (\<lambda>(r, x) h''. frame Z (e + d) h h'' \<and> (Q r x \<or> r = MEMORY_E \<and> \<not> alloc_ok h)) h'"
  using assms(2) unfolding clean_def
  by (rule wp_conseq) (use assms(1) in \<open>auto simp: frame_alloc_ok intro: frame_trans\<close>)

lemma clean_malloc:
  assumes "\<And>h'. alloc_ok h' = alloc_ok h \<Longrightarrow> clean Z (d - 1) h' (f True) Q"
    and "\<And>h'. \<not> alloc_ok h' \<Longrightarrow> clean Z d h' (f False) Q"
  shows "clean Z d h (State_Monad.bind XMALLOC f) Q"
proof (cases "hp_ok h (hp_next h)")
  case True
  let ?h = "h\<lparr>hp_next := Suc (hp_next h), hp_live := hp_live h + 1\<rparr>"
  have "frame Z 1 h ?h" by (simp add: True frame_malloc)
  moreover have "clean Z (d - 1) ?h (f True) Q"
    by (rule assms(1)) (simp add: alloc_ok_def)
  ultimately show ?thesis
    using clean_step [of Z 1 h ?h "d - 1" "f True" Q] by (simp add: clean_def True)
next
  case False
  let ?h = "h\<lparr>hp_next := Suc (hp_next h)\<rparr>"
  have "frame Z 0 h ?h" by (rule frame_malloc_fail)
  moreover have "clean Z d ?h (f False) Q"
    by (rule assms(2)) (use False in \<open>auto simp: alloc_ok_def\<close>)
  ultimately show ?thesis
    using clean_step [of Z 0 h ?h d "f False" Q] by (simp add: clean_def False)
qed

lemma clean_free:
  assumes "Z b" "\<And>h'. alloc_ok h' = alloc_ok h \<Longrightarrow> clean Z (d + 1) h' (f ()) Q"
  shows "clean Z d h (State_Monad.bind (XFREE b) f) Q"
proof -
  let ?h = "h\<lparr>hp_live := hp_live h - 1, hp_freed := hp_freed h @ [b]\<rparr>"
  have "frame Z (- 1) h ?h"
    using assms(1) by (simp add: frame_def)
  moreover have "clean Z (d + 1) ?h (f ()) Q"
    by (rule assms(2)) (simp add: alloc_ok_def)
  ultimately show ?thesis
    using clean_step [of Z "- 1" h ?h "d + 1" "f ()" Q] by (simp add: clean_def)
qed

lemma clean_bind:
  assumes m: "clean Z 0 h m P"
    and ok: "\<And>r x h'. P r x \<Longrightarrow> alloc_ok h' = alloc_ok h \<Longrightarrow> clean Z d h' (f (r, x)) Q"
    and fail: "\<And>x h'. \<not> alloc_ok h' \<Longrightarrow> clean Z d h' (f (MEMORY_E, x)) Q"
  shows "clean Z d h (State_Monad.bind m f) Q"
  unfolding clean_def wp_bind
  using m [unfolded clean_def]
proof (rule wp_conseq)
  fix rx h'
  assume *: "(case rx of (r, x) \<Rightarrow> \<lambda>h'. frame Z 0 h h' \<and> (P r x \<or> r = MEMORY_E \<and> \<not> alloc_ok h)) h'"
  then have fr: "frame Z 0 h h'" by (simp split: prod.splits)
  have "clean Z d h' (f rx) Q"
    using * ok fail by (auto simp: frame_alloc_ok split: prod.splits)
  from clean_step [OF fr this]
  show "wp (f rx) (\<lambda>(r, x) h''. frame Z d h h'' \<and> (Q r x \<or> r = MEMORY_E \<and> \<not> alloc_ok h)) h'"
    by simp
qed

text \<open>The two shapes of a call whose failure the caller passes on at once.\<close>

lemma clean_then:
  assumes "clean Z 0 h m (succeeds P)"
    and "\<And>x h'. P x \<Longrightarrow> alloc_ok h' = alloc_ok h \<Longrightarrow> clean Z 0 h' (k x) Q"
  shows "clean Z 0 h (State_Monad.bind m (\<lambda>(r, x). if r \<noteq> 0 then ret (r, g x) else k x)) Q"
  by (rule clean_bind [OF assms(1)]) (auto intro: assms(2) clean_fail)

lemma clean_then2:
  assumes "clean Z 0 h m (succeeds (\<lambda>(x, y). P x y))"
    and "\<And>x y h'. P x y \<Longrightarrow> alloc_ok h' = alloc_ok h \<Longrightarrow> clean Z 0 h' (k x y) Q"
  shows "clean Z 0 h (State_Monad.bind m (\<lambda>(r, x, y). if r \<noteq> 0 then ret (r, g x y) else k x y)) Q"
  by (rule clean_bind [OF assms(1)]) (auto intro: assms(2) clean_fail)

lemma clean_map:
  assumes "clean Z 0 h m (succeeds P)" "\<And>x. P x \<Longrightarrow> Q 0 (g 0 x)"
  shows "clean Z 0 h (State_Monad.bind m (\<lambda>(r, x). ret (r, g r x))) Q"
  by (rule clean_bind [OF assms(1)]) (auto intro: assms(2) clean_ret clean_fail)

lemma clean_map2:
  assumes "clean Z 0 h m (succeeds (\<lambda>(x, y). P x y))" "\<And>x y. P x y \<Longrightarrow> Q 0 (g 0 x y)"
  shows "clean Z 0 h (State_Monad.bind m (\<lambda>(r, x, y). ret (r, g r x y))) Q"
  by (rule clean_bind [OF assms(1)]) (auto intro: assms(2) clean_ret clean_fail)

text \<open>An environment whose allocator grants everything, for concrete runs.\<close>

definition env0 :: "'w \<Rightarrow> 'w env" where
  "env0 w = \<lparr>hp_ok = (\<lambda>_. True), hp_next = 0, hp_live = 0, hp_freed = [], world = w\<rparr>"

lemma alloc_ok_env0 [simp]: "alloc_ok (env0 w)"
  by (simp add: env0_def alloc_ok_def)

lemma clean_env0:
  assumes "clean Z d (env0 w) m Q"
  shows "\<exists>r x h'. run_state m (env0 w) = ((r, x), h') \<and> Q r x \<and> hp_live h' = d \<and> list_all Z (hp_freed h')"
proof -
  obtain r x h' where run: "run_state m (env0 w) = ((r, x), h')"
    by (cases "run_state m (env0 w)") auto
  have "hp_live (env0 w) = 0" "hp_freed (env0 w) = []"
    by (simp_all add: env0_def)
  with clean_run [OF assms run] run show ?thesis
    by (auto simp: frame_def)
qed

section \<open>Buffers that may be NULL\<close>

text \<open>
  A \<open>(const byte*, word32)\<close> argument pair: a NULL pointer with the length passed
  beside it, or a buffer whose length is the length passed.
\<close>

datatype cbuf = Null nat | Buf "byte list"

primrec csize :: "cbuf \<Rightarrow> nat" where
  "csize (Null n) = n"
| "csize (Buf bs) = length bs"

primrec is_null :: "cbuf \<Rightarrow> bool" where
  "is_null (Null n) = True"
| "is_null (Buf bs) = False"

primrec cbytes :: "cbuf \<Rightarrow> byte list" where
  "cbytes (Null n) = []"
| "cbytes (Buf bs) = bs"

end
