(* ===== verification/Misc.thy ===== *)
theory Misc
  imports Prelude
begin

text \<open>
  \<open>wolfcrypt/src/misc.c\<close>, the inlined helpers: rotates, byte reversal, unaligned
  access, XOR and wiping of buffers in machine words, constant-time comparison and
  selection, big-endian packing, hexadecimal digits.

  A routine whose path depends on pointer alignment takes the addresses as
  arguments (\<open>nat\<close>); a buffer is the list of its bytes.  A C \<open>int\<close> is its 32-bit
  pattern, read as a signed number with \<open>sint\<close>.
\<close>

section \<open>Rotates and byte reversal\<close>

definition rotlFixed :: "word32 \<Rightarrow> nat \<Rightarrow> word32" where
  "rotlFixed x y = push_bit y x OR drop_bit (32 - y) x"

definition rotrFixed :: "word32 \<Rightarrow> nat \<Rightarrow> word32" where
  "rotrFixed x y = drop_bit y x OR push_bit (32 - y) x"

definition rotlFixed16 :: "word16 \<Rightarrow> nat \<Rightarrow> word16" where
  "rotlFixed16 x y = push_bit y x OR drop_bit (16 - y) x"

definition rotrFixed16 :: "word16 \<Rightarrow> nat \<Rightarrow> word16" where
  "rotrFixed16 x y = drop_bit y x OR push_bit (16 - y) x"

definition ByteReverseWord32 :: "word32 \<Rightarrow> word32" where
  "ByteReverseWord32 value =
     rotlFixed (drop_bit 8 (value AND 0xFF00FF00) OR push_bit 8 (value AND 0x00FF00FF)) 16"

text \<open>\<open>ByteReverseWords out in byteCount\<close>: the first \<open>byteCount / 4\<close> words of \<open>out\<close> are
  overwritten, the rest is kept.\<close>

definition ByteReverseWords :: "word32 list \<Rightarrow> word32 list \<Rightarrow> nat \<Rightarrow> word32 list" where
  "ByteReverseWords out inp byteCount =
     (let count = byteCount div 4 in map ByteReverseWord32 (take count inp) @ drop count out)"

definition rotlFixed64 :: "word64 \<Rightarrow> nat \<Rightarrow> word64" where
  "rotlFixed64 x y = push_bit y x OR drop_bit (64 - y) x"

definition rotrFixed64 :: "word64 \<Rightarrow> nat \<Rightarrow> word64" where
  "rotrFixed64 x y = drop_bit y x OR push_bit (64 - y) x"

definition ByteReverseWord64 :: "word64 \<Rightarrow> word64" where
  "ByteReverseWord64 value =
     (let v1 = drop_bit 8 (value AND 0xFF00FF00FF00FF00) OR
               push_bit 8 (value AND 0x00FF00FF00FF00FF);
          v2 = drop_bit 16 (v1 AND 0xFFFF0000FFFF0000) OR
               push_bit 16 (v1 AND 0x0000FFFF0000FFFF)
      in rotlFixed64 v2 32)"

definition ByteReverseWords64 :: "word64 list \<Rightarrow> word64 list \<Rightarrow> nat \<Rightarrow> word64 list" where
  "ByteReverseWords64 out inp byteCount =
     (let count = byteCount div 8 in map ByteReverseWord64 (take count inp) @ drop count out)"

section \<open>Unaligned access\<close>

text \<open>Aligned or not, the word read is the little-endian value of the bytes: the
  direct load and the \<open>XMEMCPY\<close> branch coincide on a byte-addressed memory.\<close>

definition readUnalignedWord32 :: "byte list \<Rightarrow> word32" where
  "readUnalignedWord32 inp = word32_of_bytes (take 4 inp)"

definition writeUnalignedWord32 :: "byte list \<Rightarrow> word32 \<Rightarrow> byte list" where
  "writeUnalignedWord32 out inp = blit out 0 (bytes_of_word32 inp)"

definition readUnalignedWords32 :: "byte list \<Rightarrow> nat \<Rightarrow> word32 list" where
  "readUnalignedWords32 inp count = map (\<lambda>i. readUnalignedWord32 (drop (4 * i) inp)) [0..<count]"

definition writeUnalignedWords32 :: "byte list \<Rightarrow> word32 list \<Rightarrow> nat \<Rightarrow> byte list" where
  "writeUnalignedWords32 out inp count =
     fold (\<lambda>i out. blit out (4 * i) (bytes_of_word32 (inp ! i))) [0..<count] out"

definition bytes_of_word64 :: "word64 \<Rightarrow> byte list" where
  "bytes_of_word64 w = map (\<lambda>i. ucast (drop_bit (8 * i) w)) [0..<8]"

definition word64_of_bytes :: "byte list \<Rightarrow> word64" where
  "word64_of_bytes bs = foldr (\<lambda>i w. w OR push_bit (8 * i) (ucast (bs ! i))) [0..<8] 0"

definition readUnalignedWord64 :: "byte list \<Rightarrow> word64" where
  "readUnalignedWord64 inp = word64_of_bytes (take 8 inp)"

definition writeUnalignedWord64 :: "byte list \<Rightarrow> word64 \<Rightarrow> byte list" where
  "writeUnalignedWord64 out inp = blit out 0 (bytes_of_word64 inp)"

section \<open>XOR and wiping in machine words\<close>

text \<open>\<open>wolfssl_word\<close> is 64 bits wide (\<open>WOLFSSL_WORD_SIZE\<close> 8), as on the 64-bit targets of the build; on the 32-bit
  targets it is 4 bytes and the same bytes are written.\<close>

fun XorWordsOut :: "byte list \<Rightarrow> byte list \<Rightarrow> nat \<Rightarrow> byte list" where
  "XorWordsOut a b 0 = []"
| "XorWordsOut a b (Suc n) =
     bytes_of_word64 (readUnalignedWord64 a XOR readUnalignedWord64 b) @
     XorWordsOut (drop 8 a) (drop 8 b) n"

fun xor_bytes_loop :: "byte list \<Rightarrow> byte list \<Rightarrow> nat \<Rightarrow> byte list" where
  "xor_bytes_loop b m 0 = []"
| "xor_bytes_loop b m (Suc count) = (hd b XOR hd m) # xor_bytes_loop (tl b) (tl m) count"

text \<open>The loop that runs bytewise until the pointer is aligned: the bytes written and
  the count left over.\<close>

fun xor_align_loop :: "nat \<Rightarrow> byte list \<Rightarrow> byte list \<Rightarrow> nat \<Rightarrow> byte list \<times> nat" where
  "xor_align_loop addr b m 0 = ([], 0)"
| "xor_align_loop addr b m (Suc count) =
     (if addr mod 8 \<noteq> 0
      then (let (o', n) = xor_align_loop (Suc addr) (tl b) (tl m) count
            in ((hd b XOR hd m) # o', n))
      else ([], Suc count))"

definition xor_words_then_bytes :: "byte list \<Rightarrow> byte list \<Rightarrow> nat \<Rightarrow> byte list" where
  "xor_words_then_bytes b m count =
     (let n = count div 8 in
      XorWordsOut b m n @ xor_bytes_loop (drop (8 * n) b) (drop (8 * n) m) (count mod 8))"

definition xorbufout :: "nat \<Rightarrow> nat \<Rightarrow> nat \<Rightarrow> byte list \<Rightarrow> byte list \<Rightarrow> byte list \<Rightarrow> nat \<Rightarrow> byte list" where
  "xorbufout o_addr b_addr m_addr out buf msk count =
     (let res =
        (if o_addr mod 8 = 0 \<and> b_addr mod 8 = 0 \<and> m_addr mod 8 = 0
         then xor_words_then_bytes buf msk count
         else if o_addr mod 8 = b_addr mod 8 \<and> b_addr mod 8 = m_addr mod 8
         then (let (pre, left) = xor_align_loop b_addr buf msk count;
                   k = length pre
               in pre @ xor_words_then_bytes (drop k buf) (drop k msk) left)
         else xor_bytes_loop buf msk count)
      in res @ drop count out)"

definition xorbuf :: "nat \<Rightarrow> nat \<Rightarrow> byte list \<Rightarrow> byte list \<Rightarrow> nat \<Rightarrow> byte list" where
  "xorbuf b_addr m_addr buf msk count =
     (let res =
        (if b_addr mod 8 = 0 \<and> m_addr mod 8 = 0
         then xor_words_then_bytes buf msk count
         else if b_addr mod 8 = m_addr mod 8
         then (let (pre, left) = xor_align_loop b_addr buf msk count;
                   k = length pre
               in pre @ xor_words_then_bytes (drop k buf) (drop k msk) left)
         else xor_bytes_loop buf msk count)
      in res @ drop count buf)"

fun ForceZero_align :: "nat \<Rightarrow> byte list \<Rightarrow> nat \<Rightarrow> byte list \<times> nat" where
  "ForceZero_align addr mem 0 = ([], 0)"
| "ForceZero_align addr mem (Suc len) =
     (if addr mod 8 \<noteq> 0
      then (let (z, n) = ForceZero_align (Suc addr) (tl mem) len in (0 # z, n))
      else ([], Suc len))"

definition ForceZero :: "nat \<Rightarrow> byte list \<Rightarrow> nat \<Rightarrow> byte list" where
  "ForceZero addr mem len =
     (let (pre, left) = ForceZero_align addr mem len;
          words = concat (replicate (left div 8) (bytes_of_word64 0));
          tail = replicate (left mod 8) 0
      in pre @ words @ tail @ drop len mem)"

section \<open>Constant time comparison and selection\<close>

fun compare_loop :: "int \<Rightarrow> byte list \<Rightarrow> byte list \<Rightarrow> nat \<Rightarrow> int" where
  "compare_loop acc a b 0 = acc"
| "compare_loop acc a b (Suc n) = compare_loop (acc OR uint (hd a XOR hd b)) (tl a) (tl b) n"

definition ConstantCompare :: "byte list \<Rightarrow> byte list \<Rightarrow> int \<Rightarrow> int" where
  "ConstantCompare a b len = compare_loop 0 a b (nat len)"

definition ctMaskGT :: "word32 \<Rightarrow> word32 \<Rightarrow> byte" where
  "ctMaskGT a b = ucast (drop_bit 31 (a - b - 1) - 1)"

definition ctMaskGTE :: "word32 \<Rightarrow> word32 \<Rightarrow> byte" where
  "ctMaskGTE a b = ucast (drop_bit 31 (a - b) - 1)"

definition ctMaskIntGTE :: "word32 \<Rightarrow> word32 \<Rightarrow> word32" where
  "ctMaskIntGTE a b = drop_bit 31 (a - b) - 1"

definition ctMaskWord32GTE :: "word32 \<Rightarrow> word32 \<Rightarrow> word32" where
  "ctMaskWord32GTE a b = ucast (drop_bit 63 ((ucast a :: word64) - ucast b) - 1)"

definition ctMaskLT :: "word32 \<Rightarrow> word32 \<Rightarrow> byte" where
  "ctMaskLT a b = ucast (drop_bit 31 (b - a - 1) - 1)"

definition ctMaskLTE :: "word32 \<Rightarrow> word32 \<Rightarrow> byte" where
  "ctMaskLTE a b = ucast (drop_bit 31 (b - a) - 1)"

definition ctMaskEq :: "word32 \<Rightarrow> word32 \<Rightarrow> byte" where
  "ctMaskEq a b = NOT (ctMaskGT a b) AND NOT (ctMaskLT a b)"

definition ctMask16GT :: "word32 \<Rightarrow> word32 \<Rightarrow> word16" where
  "ctMask16GT a b = ucast (drop_bit 31 (a - b - 1) - 1)"

definition ctMask16GTE :: "word32 \<Rightarrow> word32 \<Rightarrow> word16" where
  "ctMask16GTE a b = ucast (drop_bit 31 (a - b) - 1)"

definition ctMask16LT :: "word32 \<Rightarrow> word32 \<Rightarrow> word16" where
  "ctMask16LT a b = ucast (drop_bit 31 (b - a - 1) - 1)"

definition ctMask16LTE :: "word32 \<Rightarrow> word32 \<Rightarrow> word16" where
  "ctMask16LTE a b = ucast (drop_bit 31 (b - a) - 1)"

definition ctMask16Eq :: "word32 \<Rightarrow> word32 \<Rightarrow> word16" where
  "ctMask16Eq a b = NOT (ctMask16GT a b) AND NOT (ctMask16LT a b)"

definition ctMaskNotEq :: "word32 \<Rightarrow> word32 \<Rightarrow> byte" where
  "ctMaskNotEq a b = ctMaskGT a b OR ctMaskLT a b"

definition ctMaskSel :: "byte \<Rightarrow> byte \<Rightarrow> byte \<Rightarrow> byte" where
  "ctMaskSel m a b = (b AND ucast (NOT (ucast m :: word32))) OR (a AND m)"

definition ctMaskSelInt :: "byte \<Rightarrow> word32 \<Rightarrow> word32 \<Rightarrow> word32" where
  "ctMaskSelInt m a b = (b AND NOT (signed_take_bit 7 (ucast m))) OR (a AND signed_take_bit 7 (ucast m))"

definition ctMaskSelWord32 :: "byte \<Rightarrow> word32 \<Rightarrow> word32 \<Rightarrow> word32" where
  "ctMaskSelWord32 m a b = (b AND NOT (scast m)) OR (a AND scast m)"

definition ctSetLTE :: "word32 \<Rightarrow> word32 \<Rightarrow> byte" where
  "ctSetLTE a b = ucast (drop_bit 31 (a - b - 1))"

definition ctMaskCopy :: "byte \<Rightarrow> byte list \<Rightarrow> byte list \<Rightarrow> nat \<Rightarrow> byte list" where
  "ctMaskCopy msk dst src sz =
     map (\<lambda>i. dst ! i XOR ((dst ! i XOR src ! i) AND msk)) [0..<sz] @ drop sz dst"

section \<open>Packing of integers\<close>

definition c32to24 :: "word32 \<Rightarrow> byte list" where
  "c32to24 n = [ucast (drop_bit 16 n AND 0xff), ucast (drop_bit 8 n AND 0xff), ucast (n AND 0xff)]"

definition c16toa :: "word16 \<Rightarrow> byte list" where
  "c16toa u = [ucast (drop_bit 8 u AND 0xff), ucast (u AND 0xff)]"

definition c32toa :: "word32 \<Rightarrow> byte list" where
  "c32toa u = bytes_of_word32 (ByteReverseWord32 u)"

definition c24to32 :: "byte list \<Rightarrow> word32" where
  "c24to32 u = push_bit 16 (ucast (u ! 0)) OR push_bit 8 (ucast (u ! 1)) OR ucast (u ! 2)"

definition ato24 :: "byte list \<Rightarrow> word32" where
  "ato24 c = push_bit 16 (ucast (c ! 0)) OR push_bit 8 (ucast (c ! 1)) OR ucast (c ! 2)"

definition ato16 :: "byte list \<Rightarrow> word16" where
  "ato16 c = ucast (push_bit 8 (ucast (c ! 0) :: word32) OR ucast (c ! 1))"

definition ato32 :: "byte list \<Rightarrow> word32" where
  "ato32 c = ByteReverseWord32 (word32_of_bytes (take 4 c))"

definition ato32le :: "byte list \<Rightarrow> word32" where
  "ato32le c = ucast (c ! 0) OR push_bit 8 (ucast (c ! 1)) OR
               push_bit 16 (ucast (c ! 2)) OR push_bit 24 (ucast (c ! 3))"

definition btoi :: "byte \<Rightarrow> word32" where
  "btoi b = ucast b - 0x30"

definition HexCharToByte :: "int \<Rightarrow> int" where
  "HexCharToByte ch =
     (if 48 \<le> ch \<and> ch \<le> 57 then ch - 48
      else if 65 \<le> ch \<and> ch \<le> 70 then ch - (65 - 10)
      else if 97 \<le> ch \<and> ch \<le> 102 then ch - (97 - 10)
      else -1)"

definition ByteToHex :: "byte \<Rightarrow> int" where
  "ByteToHex inp = [48, 49, 50, 51, 52, 53, 54, 55, 56, 57, 65, 66, 67, 68, 69, 70] ! unat (inp AND 0xF)"

definition ByteToHexStr :: "byte \<Rightarrow> int list" where
  "ByteToHexStr inp = [ByteToHex (drop_bit 4 inp), ByteToHex (inp AND 0xf)]"

definition MakeWordFromHash :: "byte list \<Rightarrow> word32" where
  "MakeWordFromHash h = push_bit 24 (ucast (h ! 0)) OR push_bit 16 (ucast (h ! 1)) OR
                        push_bit 8 (ucast (h ! 2)) OR ucast (h ! 3)"

section \<open>Byte order\<close>

lemma bits32_cases:
  assumes "n < 32" "\<And>k. k < 8 \<Longrightarrow> P k" "\<And>k. k < 8 \<Longrightarrow> P (8 + k)"
    "\<And>k. k < 8 \<Longrightarrow> P (16 + k)" "\<And>k. k < 8 \<Longrightarrow> P (24 + k)"
  shows "P (n::nat)"
proof -
  have "n < 8 \<or> (\<exists>k<8. n = 8 + k) \<or> (\<exists>k<8. n = 16 + k) \<or> (\<exists>k<8. n = 24 + k)"
    using assms(1) by presburger
  with assms(2-) show ?thesis by blast
qed

lemma less_8_cases: "(n::nat) < 8 \<longleftrightarrow> n \<in> {0, 1, 2, 3, 4, 5, 6, 7}"
  by auto

lemma upt_8: "[0..<8] = [0, 1, 2, 3, 4, 5, 6, 7]"
  by (simp add: upt_rec)

lemma ByteReverseWord32_bytes:
  "bytes_of_word32 (ByteReverseWord32 w) = rev (bytes_of_word32 w)"
proof -
  have "ByteReverseWord32 w = word32_of_bytes (rev (bytes_of_word32 w))"
  proof (rule bit_word_eqI)
    fix n assume "n < LENGTH(32)"
    moreover have "\<forall>n \<in> {..<32}.
      bit (ByteReverseWord32 w) n = bit (word32_of_bytes (rev (bytes_of_word32 w))) n"
      by (simp add: lessThan_nat_numeral lessThan_Suc ByteReverseWord32_def rotlFixed_def word32_of_bytes_def bytes_of_word32_def
          bit_simps)
    ultimately show "bit (ByteReverseWord32 w) n = bit (word32_of_bytes (rev (bytes_of_word32 w))) n"
      by simp
  qed
  then show ?thesis by simp
qed

lemma ByteReverseWord32_invol [simp]: "ByteReverseWord32 (ByteReverseWord32 w) = w"
proof -
  have "bytes_of_word32 (ByteReverseWord32 (ByteReverseWord32 w)) = bytes_of_word32 w"
    by (simp add: ByteReverseWord32_bytes)
  then show ?thesis by (metis word32_of_bytes_of_word32)
qed

lemma bytes_of_ByteReverse_map:
  "bytes_of_words (map ByteReverseWord32 ws) = concat (map be32 ws)"
  by (induction ws) (simp_all add: be32_def ByteReverseWord32_bytes)

lemma ByteReverseWords_in_place:
  "length ws = n \<Longrightarrow> ByteReverseWords ws ws (4 * n) = map ByteReverseWord32 ws"
  by (simp add: ByteReverseWords_def)

lemma c32toa_be32: "c32toa u = be32 u"
  by (simp add: c32toa_def be32_def ByteReverseWord32_bytes)

lemma ato32_c32toa: "ato32 (c32toa u) = u"
  by (simp add: ato32_def c32toa_def)

lemma c32toa_ato32: "length c = 4 \<Longrightarrow> c32toa (ato32 c) = c"
  by (simp add: ato32_def c32toa_def)

lemma c16toa_simp: "c16toa u = [ucast (drop_bit 8 u), ucast u]"
  unfolding c16toa_def
  by (intro arg_cong2 [where f = Cons] refl bit_word_eqI) (auto simp: bit_simps less_8_cases)

lemma ato16_c16toa: "ato16 (c16toa u) = u"
proof (rule bit_word_eqI)
  fix n assume "n < LENGTH(16)"
  then have "n < 8 \<or> (\<exists>k<8. n = 8 + k)" by simp presburger
  then show "bit (ato16 (c16toa u)) n = bit u n"
    by (auto simp: ato16_def c16toa_simp bit_simps)
qed

section \<open>Machine-word XOR and wiping\<close>

lemma length_bytes_of_word64 [simp]: "length (bytes_of_word64 w) = 8"
  by (simp add: bytes_of_word64_def)

lemma bit_byte_ge: "8 \<le> n \<Longrightarrow> \<not> bit (b :: byte) n"
  by (simp add: bit_word.rep_eq)

lemma bit_word64_of_bytes:
  assumes "n < 64"
  shows "bit (word64_of_bytes bs) n = bit (bs ! (n div 8)) (n mod 8)"
proof -
  define q r where "q = n div 8" and "r = n mod 8"
  then have n: "n = 8 * q + r" and r: "r < 8" and q: "q < 8"
    using assms by auto
  from q consider "q = 0" | "q = 1" | "q = 2" | "q = 3" | "q = 4" | "q = 5" | "q = 6" | "q = 7"
    by linarith
  then have "bit (word64_of_bytes bs) (8 * q + r) = bit (bs ! q) r"
    using r by cases (simp_all add: word64_of_bytes_def upt_8 bit_or_iff bit_push_bit_iff
        bit_unsigned_iff bit_byte_ge)
  then show ?thesis by (simp add: n r)
qed

lemma bytes_of_word64_of_bytes [simp]:
  assumes "length bs = 8"
  shows "bytes_of_word64 (word64_of_bytes bs) = bs"
proof (rule nth_equalityI)
  fix i assume "i < length (bytes_of_word64 (word64_of_bytes bs))"
  then have i: "i < 8" by simp
  show "bytes_of_word64 (word64_of_bytes bs) ! i = bs ! i"
  proof (rule bit_word_eqI)
    fix n assume "n < LENGTH(8)"
    with i show "bit (bytes_of_word64 (word64_of_bytes bs) ! i) n = bit (bs ! i) n"
      by (simp add: bytes_of_word64_def bit_simps bit_word64_of_bytes)
  qed
qed (use assms in simp)

lemma bytes_of_word64_xor:
  "bytes_of_word64 (a XOR b) = map2 (XOR) (bytes_of_word64 a) (bytes_of_word64 b)"
  by (simp add: bytes_of_word64_def list_eq_iff_nth_eq unsigned_xor_eq)

lemma bytes_of_word64_0: "bytes_of_word64 0 = replicate 8 0"
  by (simp add: bytes_of_word64_def list_eq_iff_nth_eq)

definition xor_bytes :: "byte list \<Rightarrow> byte list \<Rightarrow> byte list" where
  "xor_bytes a b = map2 (XOR) a b"

lemma length_xor_bytes [simp]: "length (xor_bytes a b) = min (length a) (length b)"
  by (simp add: xor_bytes_def)

lemma xor_bytes_append:
  "length a = length b \<Longrightarrow> xor_bytes (a @ c) (b @ d) = xor_bytes a b @ xor_bytes c d"
  by (simp add: xor_bytes_def)

lemma xor_bytes_Cons [simp]: "xor_bytes (x # a) (y # b) = (x XOR y) # xor_bytes a b"
  by (simp add: xor_bytes_def)

lemma xor_bytes_Nil [simp]: "xor_bytes [] b = []" "xor_bytes a [] = []"
  by (simp_all add: xor_bytes_def)

lemma xor_bytes_comm: "xor_bytes a b = xor_bytes b a"
  by (simp add: xor_bytes_def zip_commute [of a b] xor.commute split_def)

lemma xor_bytes_cancel:
  "length a \<le> length b \<Longrightarrow> xor_bytes (xor_bytes a b) b = a"
  by (induction a b rule: list_induct2') (simp_all add: xor.assoc)

lemma take_xor_bytes: "take n (xor_bytes a b) = xor_bytes (take n a) (take n b)"
  by (simp add: xor_bytes_def take_map take_zip)

lemma drop_xor_bytes: "drop n (xor_bytes a b) = xor_bytes (drop n a) (drop n b)"
  by (simp add: xor_bytes_def drop_map drop_zip)

lemma xor_bytes_split:
  assumes "k \<le> n"
  shows "xor_bytes (take n a) (take n b) =
    xor_bytes (take k a) (take k b) @ xor_bytes (take (n - k) (drop k a)) (take (n - k) (drop k b))"
  using append_take_drop_id [of k "xor_bytes (take n a) (take n b)"] assms
  by (simp add: take_xor_bytes drop_xor_bytes drop_take min_absorb1)

lemma XorWordsOut_bytes:
  "8 * n \<le> length a \<Longrightarrow> 8 * n \<le> length b \<Longrightarrow>
   XorWordsOut a b n = xor_bytes (take (8 * n) a) (take (8 * n) b)"
proof (induction n arbitrary: a b)
  case (Suc n)
  then show ?case
    using xor_bytes_split [of 8 "8 * Suc n" a b]
    by (simp add: readUnalignedWord64_def bytes_of_word64_xor flip: xor_bytes_def)
qed simp

lemma xor_bytes_loop_bytes:
  "n \<le> length a \<Longrightarrow> n \<le> length b \<Longrightarrow>
   xor_bytes_loop a b n = xor_bytes (take n a) (take n b)"
proof (induction n arbitrary: a b)
  case (Suc n)
  then show ?case by (cases a; cases b) simp_all
qed simp

lemma xor_words_then_bytes_bytes:
  assumes "n \<le> length a" "n \<le> length b"
  shows "xor_words_then_bytes a b n = xor_bytes (take n a) (take n b)"
proof -
  have "8 * (n div 8) \<le> n" "n - 8 * (n div 8) = n mod 8"
    by (simp_all add: minus_mult_div_eq_mod)
  then show ?thesis
    using assms xor_bytes_split [of "8 * (n div 8)" n a b]
    by (simp add: xor_words_then_bytes_def Let_def XorWordsOut_bytes xor_bytes_loop_bytes)
qed

lemma xor_align_loop_bytes:
  "n \<le> length a \<Longrightarrow> n \<le> length b \<Longrightarrow>
   \<exists>k \<le> n. xor_align_loop addr a b n = (xor_bytes (take k a) (take k b), n - k)"
proof (induction addr a b n rule: xor_align_loop.induct)
  case (2 addr a b n)
  show ?case
  proof (cases "addr mod 8 = 0")
    case False
    then obtain k where "k \<le> n"
      "xor_align_loop (Suc addr) (tl a) (tl b) n = (xor_bytes (take k (tl a)) (take k (tl b)), n - k)"
      using 2 by fastforce
    then show ?thesis
      using 2 False by (intro exI [of _ "Suc k"]) (cases a; cases b; simp)
  qed (auto intro: exI [of _ 0])
qed simp

lemma xor_fixup_bytes:
  assumes "n \<le> length a" "n \<le> length b"
  shows "(let (pre, left) = xor_align_loop addr a b n; k = length pre
          in pre @ xor_words_then_bytes (drop k a) (drop k b) left) =
         xor_bytes (take n a) (take n b)"
proof -
  obtain k where "k \<le> n" "xor_align_loop addr a b n = (xor_bytes (take k a) (take k b), n - k)"
    using xor_align_loop_bytes assms by blast
  then show ?thesis
    using assms by (simp add: xor_words_then_bytes_bytes flip: xor_bytes_split)
qed

lemma xorbuf_bytes:
  assumes "n \<le> length buf" "n \<le> length msk"
  shows "xorbuf ba ma buf msk n = xor_bytes (take n buf) (take n msk) @ drop n buf"
  using assms
  by (simp add: xorbuf_def xor_fixup_bytes xor_words_then_bytes_bytes xor_bytes_loop_bytes Let_def [of _ "\<lambda>x. x @ _"])

lemma xorbufout_bytes:
  assumes "n \<le> length buf" "n \<le> length msk"
  shows "xorbufout oa ba ma out buf msk n = xor_bytes (take n buf) (take n msk) @ drop n out"
  using assms
  by (simp add: xorbufout_def xor_fixup_bytes xor_words_then_bytes_bytes xor_bytes_loop_bytes Let_def [of _ "\<lambda>x. x @ _"])

lemma ForceZero_align_zeros:
  "\<exists>k \<le> n. ForceZero_align addr mem n = (replicate k 0, n - k)"
proof (induction addr mem n rule: ForceZero_align.induct)
  case (2 addr mem n)
  show ?case
  proof (cases "addr mod 8 = 0")
    case False
    then obtain k where "k \<le> n" "ForceZero_align (Suc addr) (tl mem) n = (replicate k 0, n - k)"
      using 2 by fastforce
    then show ?thesis
      using False by (intro exI [of _ "Suc k"]) simp
  qed (auto intro: exI [of _ 0])
qed simp

lemma concat_replicate_zeros:
  "concat (replicate m (replicate n x)) = replicate (m * n) x"
  by (induction m) (simp_all add: replicate_add)

lemma ForceZero_zeros: "ForceZero addr mem n = zeros n @ drop n mem"
proof -
  obtain k where k: "k \<le> n" "ForceZero_align addr mem n = (replicate k 0, n - k)"
    using ForceZero_align_zeros by blast
  have "k + ((n - k) div 8 * 8 + (n - k) mod 8) = n"
    using k(1) by simp
  then show ?thesis
    by (simp add: ForceZero_def k bytes_of_word64_0 concat_replicate_zeros zeros_def
        flip: replicate_add append_assoc)
qed

lemma ForceZero_full: "length mem = n \<Longrightarrow> ForceZero addr mem n = zeros n"
  by (simp add: ForceZero_zeros)

section \<open>Constant-time masks\<close>

lemma drop_bit_31_sign: "drop_bit 31 (w :: word32) = of_bool (sint w < 0)"
proof (rule bit_word_eqI)
  fix n assume "n < LENGTH(32)"
  then show "bit (drop_bit 31 w) n = bit (of_bool (sint w < 0) :: word32) n"
    by (cases n) (auto simp: bit_simps bit_1_iff not_less sint_uint
        signed_take_bit_negative_iff bit_uint_iff dest: bit_imp_le_length)
qed

lemma sint_of_int_range:
  "- (2 ^ 31) \<le> k \<Longrightarrow> k < 2 ^ 31 \<Longrightarrow> sint (word_of_int k :: word32) = k"
  by transfer (simp add: signed_take_bit_int_eq_self)

lemma ucast_minus_1_byte [simp]: "(ucast (- 1 :: word32) :: byte) = 0xFF"
  by (rule bit_word_eqI) (auto simp: bit_simps less_8_cases)

lemma ucast_minus_1_16 [simp]: "(ucast (- 1 :: word32) :: word16) = 0xFFFF"
proof (rule bit_word_eqI)
  fix n assume "n < LENGTH(16)"
  moreover have "\<forall>n \<in> {..<16}. bit (0xFFFF :: word16) n"
    by (simp add: lessThan_nat_numeral lessThan_Suc)
  ultimately show "bit (ucast (- 1 :: word32) :: word16) n = bit (0xFFFF :: word16) n"
    by (simp add: bit_simps)
qed

lemma sint_diff_range:
  fixes a b :: word32
  assumes "- (2 ^ 31) \<le> sint a - sint b - k" "sint a - sint b - k < 2 ^ 31"
  shows "sint (a - b - word_of_int k) = sint a - sint b - k"
proof -
  have "a - b - word_of_int k = word_of_int (sint a - sint b - k)" by simp
  with assms show ?thesis by (metis sint_of_int_range)
qed

lemma mask_of_sign:
  "drop_bit 31 w - 1 = (if sint (w :: word32) < 0 then 0 else - 1)"
  by (simp add: drop_bit_31_sign)

text \<open>The signed comparisons hold whenever the difference does not leave the range of
  \<open>int\<close>; both operands non-negative is the case the callers have.\<close>

lemma ctMask_signs:
  assumes "- (2 ^ 31) < sint a - sint b" "sint a - sint b \<le> 2 ^ 31"
  shows "drop_bit 31 (a - b - 1 :: word32) - 1 = (if sint a > sint b then - 1 else 0)"
  using sint_diff_range [of a b 1] assms by (simp add: mask_of_sign)

lemma ctMask_signs_eq:
  assumes "- (2 ^ 31) \<le> sint a - sint b" "sint a - sint b < 2 ^ 31"
  shows "drop_bit 31 (a - b :: word32) - 1 = (if sint a \<ge> sint b then - 1 else 0)"
  using sint_diff_range [of a b 0] assms by (simp add: mask_of_sign)

lemma ctMaskSel_mask:
  "ctMaskSel 0xFF a b = a" "ctMaskSel 0 a b = b"
  by (rule bit_word_eqI, auto simp: ctMaskSel_def bit_simps less_8_cases)+

lemma ctMaskCopy_mask:
  assumes "n \<le> length dst" "n \<le> length src"
  shows "ctMaskCopy 0xFF dst src n = take n src @ drop n dst" "ctMaskCopy 0 dst src n = dst"
proof -
  have FF: "x XOR ((x XOR y) AND 0xFF) = y" for x y :: byte
    by (rule bit_word_eqI) (auto simp: bit_simps less_8_cases)
  show "ctMaskCopy 0xFF dst src n = take n src @ drop n dst" "ctMaskCopy 0 dst src n = dst"
    using assms by (simp_all add: ctMaskCopy_def FF take_map map_nth flip: take_upt) 
      (auto simp: list_eq_iff_nth_eq nth_append)
qed

section \<open>Comparison of secrets\<close>

lemma compare_loop_or: "compare_loop acc a b n = acc OR compare_loop 0 a b n"
proof (induction n arbitrary: acc a b)
  case (Suc n)
  show ?case
    by (simp add: Suc [of "acc OR _"] Suc [of "uint _"] or.assoc)
qed simp

lemma or_int_0_iff: "(x OR y = 0) = (x = 0 \<and> y = 0)" for x y :: int
  by (simp add: or_eq_0_iff)

lemma xor_word_0_iff: "(x XOR y = 0) = (x = y)" for x y :: "'a::len word"
  by (auto simp: bit_eq_iff bit_simps)

lemma compare_loop_0_iff:
  "n \<le> length a \<Longrightarrow> n \<le> length b \<Longrightarrow> compare_loop 0 a b n = 0 \<longleftrightarrow> take n a = take n b"
proof (induction n arbitrary: a b)
  case (Suc n)
  then obtain x a' y b' where "a = x # a'" "b = y # b'"
    by (metis Suc_le_length_iff)
  with Suc show ?case
    by (simp add: compare_loop_or [of "uint _"] or_int_0_iff uint_0_iff xor_word_0_iff)
qed simp

lemma compare_loop_range:
  "0 \<le> compare_loop 0 a b n \<and> compare_loop 0 a b n < 256"
proof (induction n arbitrary: a b)
  case (Suc n)
  then show ?case
    using uint_lt2p [of "hd a XOR hd b"] Suc [of "tl a" "tl b"] OR_upper [of "uint (hd a XOR hd b)" 8 "compare_loop 0 (tl a) (tl b) n"]
    by (simp add: compare_loop_or [of "uint _"])
qed simp

section \<open>Properties\<close>

text \<open>\<open>xorbuf\<close> (in place) and \<open>xorbufout\<close> (to a third buffer) compute the bytewise
  XOR of the first \<open>count\<close> bytes and leave the rest of the destination alone, for every
  alignment of the pointers: whichever of the word-wise, fixed-up or bytewise paths
  the addresses select, the result is the same.\<close>

theorem xorbuf_alignment_independent:
  assumes "count \<le> length buf" "count \<le> length msk" "count \<le> length out"
  shows "xorbuf b_addr m_addr buf msk count = map2 (XOR) (take count buf) (take count msk) @ drop count buf \<and>
         xorbufout o_addr b_addr m_addr out buf msk count =
           map2 (XOR) (take count buf) (take count msk) @ drop count out"
  using assms by (simp_all add: xorbuf_bytes xorbufout_bytes xor_bytes_def)

theorem xorbuf_alignment_independent_witness:
  "xorbuf 3 11 [1, 2, 3] [4, 5, 6] 2 = map2 (XOR) [1, 2] [4, 5] @ [3] \<and>
   xorbufout 0 8 16 [9, 9, 9] [1, 2, 3] [4, 5, 6] 2 = map2 (XOR) [1, 2] [4, 5] @ [9]"
  using xorbuf_alignment_independent [of 2 "[1, 2, 3]" "[4, 5, 6]" "[9, 9, 9]" 3 11]
    xorbuf_alignment_independent [of 2 "[1, 2, 3]" "[4, 5, 6]" "[9, 9, 9]" 8 16 0]
  by simp

text \<open>C39: \<open>ForceZero\<close> clears exactly the \<open>len\<close> bytes it is given, for every alignment of
  the pointer and every length: the leading bytes, the word stores and the trailing
  bytes together cover the range and nothing behind it changes.\<close>

theorem ForceZero_clears_exactly:
  "ForceZero addr mem len = replicate len 0 @ drop len mem"
  by (simp add: ForceZero_zeros zeros_def)

text \<open>C40: \<open>ConstantCompare\<close> returns 0 exactly when the first \<open>length\<close> bytes of the two
  buffers are equal, and otherwise a positive value below 256, so no sign or
  truncation can turn a difference into 0.\<close>

theorem ConstantCompare_decides_equality:
  assumes "nat len \<le> length a" "nat len \<le> length b"
  shows "(ConstantCompare a b len = 0 \<longleftrightarrow> take (nat len) a = take (nat len) b)
         \<and> 0 \<le> ConstantCompare a b len \<and> ConstantCompare a b len < 256"
  using assms by (simp_all add: ConstantCompare_def compare_loop_0_iff compare_loop_range)

theorem ConstantCompare_decides_equality_witness:
  "(ConstantCompare [1, 2, 3] [1, 2, 4] 2 = 0) \<and> ConstantCompare [1, 2, 3] [1, 2, 4] 3 \<noteq> 0 \<and>
   ConstantCompare [1, 2, 3] [1, 2, 4] 3 < 256"
  using ConstantCompare_decides_equality [of 2 "[1, 2, 3]" "[1, 2, 4]"]
    ConstantCompare_decides_equality [of 3 "[1, 2, 3]" "[1, 2, 4]"]
  by simp

text \<open>the constant-time comparison masks agree with the signed comparisons they
  replace, for every pair of \<open>int\<close> values whose difference stays inside the range of
  \<open>int\<close> (the masks are built from the sign bit of the difference): all ones when the
  comparison holds and zero otherwise, for both the 8-bit and the 16-bit masks.\<close>

theorem ctMask_signed_comparison:
  assumes "\<bar>sint a - sint b\<bar> < 2 ^ 31"
  shows "ctMaskGT a b = (if sint a > sint b then 0xFF else 0) \<and>
         ctMaskGTE a b = (if sint a \<ge> sint b then 0xFF else 0) \<and>
         ctMaskLT a b = (if sint a < sint b then 0xFF else 0) \<and>
         ctMaskLTE a b = (if sint a \<le> sint b then 0xFF else 0) \<and>
         ctMaskEq a b = (if sint a = sint b then 0xFF else 0) \<and>
         ctMaskNotEq a b = (if sint a \<noteq> sint b then 0xFF else 0) \<and>
         ctMaskIntGTE a b = (if sint a \<ge> sint b then - 1 else 0) \<and>
         ctMask16GT a b = (if sint a > sint b then 0xFFFF else 0) \<and>
         ctMask16LTE a b = (if sint a \<le> sint b then 0xFFFF else 0)"
  using assms ctMask_signs [of a b] ctMask_signs [of b a] ctMask_signs_eq [of a b]
    ctMask_signs_eq [of b a]
  by (simp add: ctMaskGT_def ctMaskGTE_def ctMaskLT_def ctMaskLTE_def ctMaskEq_def ctMaskNotEq_def
      ctMaskIntGTE_def ctMask16GT_def ctMask16LTE_def)

theorem ctMask_signed_comparison_witness:
  "ctMaskGT 5 3 = 0xFF \<and> ctMaskLT 5 3 = 0 \<and> ctMaskEq 5 3 = 0 \<and> ctMaskNotEq 5 3 = 0xFF"
  using ctMask_signed_comparison [of 5 3] by simp

end
