(* ===== verification/Sha256.thy ===== *)
theory Sha256
  imports Misc
begin

text \<open>
  \<open>wolfcrypt/src/sha256.c\<close>: the software SHA-256 of the build.  The first half
  translates the code; the second half states SHA-256 the way FIPS 180-4 does and
  proves that the buffered, byte-swapping, loop-unrolled code computes it.

  The context keeps its block buffer as 16 words, as the C structure does, and the
  code's accesses through \<open>byte*\<close> go through the little-endian byte view.  The device
  identifier of the context is \<open>INVALID_DEVID\<close> on every path of this program, so the
  crypto-callback branches are not taken and the field is left out; the context
  pointer is a value, so its NULL test has no counterpart.
\<close>

section \<open>The code\<close>

definition WC_SHA256_DIGEST_SIZE :: nat where [simp]: "WC_SHA256_DIGEST_SIZE = 32"
definition WC_SHA256_BLOCK_SIZE :: nat where [simp]: "WC_SHA256_BLOCK_SIZE = 64"
definition WC_SHA256_PAD_SIZE :: nat where [simp]: "WC_SHA256_PAD_SIZE = 56"
definition WC_HASH_FLAG_ISCOPY :: word32 where "WC_HASH_FLAG_ISCOPY = 2"

record wc_Sha256 =
  digest :: "word32 list"
  buffer :: "word32 list"
  buffLen :: nat
  loLen :: word32
  hiLen :: word32
  sha_flags :: word32

definition InitSha256 :: "wc_Sha256 \<Rightarrow> wc_Sha256" where
  "InitSha256 sha =
     \<lparr>digest = [0x6A09E667, 0xBB67AE85, 0x3C6EF372, 0xA54FF53A,
               0x510E527F, 0x9B05688C, 0x1F83D9AB, 0x5BE0CD19],
      buffer = replicate 16 0, buffLen = 0, loLen = 0, hiLen = 0, sha_flags = 0\<rparr>"

definition wc_Sha256Reset :: "wc_Sha256 \<Rightarrow> int \<times> wc_Sha256" where
  "wc_Sha256Reset sha = (0, InitSha256 sha)"

definition wc_InitSha256_ex :: "wc_Sha256 \<Rightarrow> int \<times> wc_Sha256" where
  "wc_InitSha256_ex sha = (0, InitSha256 sha)"

definition wc_InitSha256 :: "wc_Sha256 \<Rightarrow> int \<times> wc_Sha256" where
  "wc_InitSha256 sha = wc_InitSha256_ex sha"

text \<open>The round constants, in decimal.\<close>

definition K :: "word32 list" where
  "K = [1116352408, 1899447441, 3049323471, 3921009573, 961987163, 1508970993,
    2453635748, 2870763221, 3624381080, 310598401, 607225278, 1426881987,
    1925078388, 2162078206, 2614888103, 3248222580, 3835390401, 4022224774,
    264347078, 604807628, 770255983, 1249150122, 1555081692, 1996064986,
    2554220882, 2821834349, 2952996808, 3210313671, 3336571891, 3584528711,
    113926993, 338241895, 666307205, 773529912, 1294757372, 1396182291,
    1695183700, 1986661051, 2177026350, 2456956037, 2730485921, 2820302411,
    3259730800, 3345764771, 3516065817, 3600352804, 4094571909, 275423344,
    430227734, 506948616, 659060556, 883997877, 958139571, 1322822218,
    1537002063, 1747873779, 1955562222, 2024104815, 2227730452, 2361852424,
    2428436474, 2756734187, 3204031479, 3329325298]"

definition Ch :: "word32 \<Rightarrow> word32 \<Rightarrow> word32 \<Rightarrow> word32" where
  "Ch x y z = z XOR (x AND (y XOR z))"

definition Maj :: "word32 \<Rightarrow> word32 \<Rightarrow> word32 \<Rightarrow> word32" where
  "Maj x y z = ((x OR y) AND z) OR (x AND y)"

definition R_shift :: "word32 \<Rightarrow> nat \<Rightarrow> word32" where
  "R_shift x n = drop_bit n (x AND 0xFFFFFFFF)"

definition Sigma0 :: "word32 \<Rightarrow> word32" where
  "Sigma0 x = rotrFixed x 2 XOR rotrFixed x 13 XOR rotrFixed x 22"

definition Sigma1 :: "word32 \<Rightarrow> word32" where
  "Sigma1 x = rotrFixed x 6 XOR rotrFixed x 11 XOR rotrFixed x 25"

definition Gamma0 :: "word32 \<Rightarrow> word32" where
  "Gamma0 x = rotrFixed x 7 XOR rotrFixed x 18 XOR R_shift x 3"

definition Gamma1 :: "word32 \<Rightarrow> word32" where
  "Gamma1 x = rotrFixed x 17 XOR rotrFixed x 19 XOR R_shift x 10"

text \<open>\<open>S[(k-(j)) & 7]\<close>: the working variables rotate by index instead of by copying.\<close>

definition sidx :: "int \<Rightarrow> nat \<Rightarrow> nat" where
  "sidx k j = nat ((k - int j) mod 8)"

definition RND :: "word32 list \<Rightarrow> nat \<Rightarrow> nat \<Rightarrow> word32 list \<Rightarrow> word32 list" where
  "RND W i j S =
     (let a = S ! sidx 0 j; b = S ! sidx 1 j; c = S ! sidx 2 j;
          e = S ! sidx 4 j; f = S ! sidx 5 j; g = S ! sidx 6 j; h = S ! sidx 7 j;
          t0 = h + Sigma1 e + Ch e f g + K ! (i + j) + W ! (i + j);
          t1 = Sigma0 a + Maj a b c;
          S1 = S[sidx 3 j := S ! sidx 3 j + t0]
      in S1[sidx 7 j := t0 + t1])"

definition W_extend :: "nat \<Rightarrow> word32 list \<Rightarrow> word32 list" where
  "W_extend i W = W @ [Gamma1 (W ! (i - 2)) + W ! (i - 7) + Gamma0 (W ! (i - 15)) + W ! (i - 16)]"

definition message_schedule :: "byte list \<Rightarrow> word32 list" where
  "message_schedule data =
     fold W_extend [16..<64] (map (\<lambda>i. readUnalignedWord32 (drop (i * 4) data)) [0..<16])"

definition unrolled_rounds :: "word32 list \<Rightarrow> word32 list \<Rightarrow> word32 list" where
  "unrolled_rounds W S =
     fold (\<lambda>i S. fold (RND W i) [0, 1, 2, 3, 4, 5, 6, 7] S) [0, 8, 16, 24, 32, 40, 48, 56] S"

definition wipe_words :: "word32 list \<Rightarrow> word32 list" where
  "wipe_words ws = words_of_bytes (ForceZero 0 (bytes_of_words ws) (4 * length ws))"

definition Transform_Sha256 :: "wc_Sha256 \<Rightarrow> byte list \<Rightarrow> ('w, int \<times> wc_Sha256) cmd" where
  "Transform_Sha256 sha data = do {
     ok \<leftarrow> XMALLOC;
     if \<not> ok then ret (MEMORY_E, sha)
     else do {
       let W = message_schedule data;
       let S = unrolled_rounds W (digest sha);
       let sha' = sha\<lparr>digest := map2 (+) (digest sha) S\<rparr>;
       XFREE (Freed_words (wipe_words W));
       ret (0, sha')
     }
   }"

definition AddLength :: "wc_Sha256 \<Rightarrow> nat \<Rightarrow> wc_Sha256" where
  "AddLength sha len =
     (let tmp = loLen sha;
          sha1 = sha\<lparr>loLen := loLen sha + of_nat len\<rparr>
      in if loLen sha1 < tmp then sha1\<lparr>hiLen := hiLen sha1 + 1\<rparr> else sha1)"

text \<open>\<open>sha256->buffer\<close> seen through \<open>byte* local\<close>, and a write through it.\<close>

abbreviation local_bytes :: "wc_Sha256 \<Rightarrow> byte list" where
  "local_bytes sha \<equiv> bytes_of_words (buffer sha)"

abbreviation put_local :: "wc_Sha256 \<Rightarrow> nat \<Rightarrow> byte list \<Rightarrow> wc_Sha256" where
  "put_local sha off bs \<equiv> sha\<lparr>buffer := words_of_bytes (blit (local_bytes sha) off bs)\<rparr>"

definition reverse_buffer :: "wc_Sha256 \<Rightarrow> nat \<Rightarrow> wc_Sha256" where
  "reverse_buffer sha n = sha\<lparr>buffer := ByteReverseWords (buffer sha) (buffer sha) n\<rparr>"

text \<open>Process whole blocks: the loop of \<open>Sha256Update\<close>, returning the unread data.\<close>

function Sha256Update_blocks ::
  "wc_Sha256 \<Rightarrow> byte list \<Rightarrow> ('w, int \<times> wc_Sha256 \<times> byte list) cmd" where
  "Sha256Update_blocks sha data =
     (if WC_SHA256_BLOCK_SIZE \<le> length data then do {
        let sha1 = reverse_buffer (put_local sha 0 (take 64 data)) WC_SHA256_BLOCK_SIZE;
        (r, sha2) \<leftarrow> Transform_Sha256 sha1 (local_bytes sha1);
        if r \<noteq> 0 then ret (r, sha2, drop 64 data)
        else Sha256Update_blocks sha2 (drop 64 data)
      }
      else ret (0, sha, data))"
  by pat_completeness auto
termination by (relation "measure (\<lambda>(_, data). length data)") auto

declare Sha256Update_blocks.simps [simp del]

text \<open>Process any remainder from the previous operation: the part of \<open>Sha256Update\<close> that
  tops up a partly filled buffer, returning the unread data (none after an error).\<close>

definition Sha256Update_partial ::
  "wc_Sha256 \<Rightarrow> byte list \<Rightarrow> ('w, int \<times> wc_Sha256 \<times> byte list) cmd" where
  "Sha256Update_partial sha data =
     (if 0 < buffLen sha then do {
        let blocksLen = min (length data) (WC_SHA256_BLOCK_SIZE - buffLen sha);
        let s1 = put_local sha (buffLen sha) (take blocksLen data);
        let s2 = s1\<lparr>buffLen := buffLen sha + blocksLen\<rparr>;
        let rest = drop blocksLen data;
        if buffLen s2 = WC_SHA256_BLOCK_SIZE then do {
          let s3 = reverse_buffer s2 WC_SHA256_BLOCK_SIZE;
          (r, s4) \<leftarrow> Transform_Sha256 s3 (local_bytes s3);
          if r = 0 then ret (0, s4\<lparr>buffLen := 0\<rparr>, rest) else ret (r, s4, [])
        }
        else ret (0, s2, rest)
      }
      else ret (0, sha, data))"

definition Sha256Update :: "wc_Sha256 \<Rightarrow> byte list \<Rightarrow> ('w, int \<times> wc_Sha256) cmd" where
  "Sha256Update sha data =
     (if WC_SHA256_BLOCK_SIZE \<le> buffLen sha then ret (BUFFER_E, sha)
      else do {
        (r, sha1, data1) \<leftarrow> Sha256Update_partial (AddLength sha (length data)) data;
        (r2, sha2, data2) \<leftarrow>
          (if r = 0 then Sha256Update_blocks sha1 data1 else ret (r, sha1, data1));
        if r2 = 0 \<and> 0 < length data2
        then ret (r2, (put_local sha2 0 data2)\<lparr>buffLen := length data2\<rparr>)
        else ret (r2, sha2)
      })"

definition wc_Sha256Update :: "wc_Sha256 \<Rightarrow> cbuf \<Rightarrow> ('w, int \<times> wc_Sha256) cmd" where
  "wc_Sha256Update sha data =
     (if csize data = 0 then ret (0, sha)
      else if is_null data then ret (BAD_FUNC_ARG, sha)
      else Sha256Update sha (cbytes data))"

text \<open>The padding that spills into an extra block, and the last block with the length.\<close>

definition Sha256Final_spill :: "wc_Sha256 \<Rightarrow> ('w, int \<times> wc_Sha256) cmd" where
  "Sha256Final_spill sha =
     (if WC_SHA256_PAD_SIZE < buffLen sha then do {
        let t1 = (if buffLen sha < WC_SHA256_BLOCK_SIZE
                  then put_local sha (buffLen sha) (zeros (WC_SHA256_BLOCK_SIZE - buffLen sha))
                  else sha);
        let t2 = reverse_buffer t1 WC_SHA256_BLOCK_SIZE;
        (r, t3) \<leftarrow> Transform_Sha256 t2 (local_bytes t2);
        if r \<noteq> 0 then ret (r, t3) else ret (0, t3\<lparr>buffLen := 0\<rparr>)
      }
      else ret (0, sha))"

definition Sha256Final_length :: "wc_Sha256 \<Rightarrow> wc_Sha256" where
  "Sha256Final_length sha =
     (let s3 = put_local sha (buffLen sha) (zeros (WC_SHA256_PAD_SIZE - buffLen sha));
          s4 = s3\<lparr>hiLen := drop_bit 29 (loLen s3) + push_bit 3 (hiLen s3)\<rparr>;
          s5 = s4\<lparr>loLen := push_bit 3 (loLen s4)\<rparr>;
          s6 = reverse_buffer s5 WC_SHA256_PAD_SIZE;
          s7 = put_local s6 WC_SHA256_PAD_SIZE (bytes_of_word32 (hiLen s6))
      in put_local s7 (WC_SHA256_PAD_SIZE + 4) (bytes_of_word32 (loLen s7)))"

definition Sha256Final :: "wc_Sha256 \<Rightarrow> ('w, int \<times> wc_Sha256) cmd" where
  "Sha256Final sha =
     (if WC_SHA256_BLOCK_SIZE - 1 < buffLen sha then ret (BAD_STATE_E, sha)
      else do {
        let s1 = (put_local sha (buffLen sha) [0x80])\<lparr>buffLen := buffLen sha + 1\<rparr>;
        (r, s2) \<leftarrow> Sha256Final_spill s1;
        if r \<noteq> 0 then ret (r, s2)
        else do {
          let s8 = Sha256Final_length s2;
          Transform_Sha256 s8 (local_bytes s8)
        }
      })"

definition wc_Sha256FinalRaw :: "wc_Sha256 \<Rightarrow> byte list \<Rightarrow> int \<times> byte list" where
  "wc_Sha256FinalRaw sha hash =
     (0, blit hash 0 (bytes_of_words (ByteReverseWords (replicate 8 0) (digest sha) WC_SHA256_DIGEST_SIZE)))"

text \<open>The outcome is the return code, the context and the caller's \<open>hash\<close> buffer.\<close>

definition wc_Sha256Final :: "wc_Sha256 \<Rightarrow> byte list \<Rightarrow> ('w, int \<times> wc_Sha256 \<times> byte list) cmd" where
  "wc_Sha256Final sha hash = do {
     (r, s1) \<leftarrow> Sha256Final sha;
     if r \<noteq> 0 then ret (r, s1, hash)
     else do {
       let s2 = s1\<lparr>digest := ByteReverseWords (digest s1) (digest s1) WC_SHA256_DIGEST_SIZE\<rparr>;
       let hash' = blit hash 0 (bytes_of_words (digest s2));
       ret (0, InitSha256 s2, hash')
     }
   }"

text \<open>\<open>ForceZero(sha256, sizeof(*sha256))\<close>.\<close>

definition sha256_zeroed :: wc_Sha256 where
  "sha256_zeroed = \<lparr>digest = replicate 8 0, buffer = replicate 16 0, buffLen = 0,
     loLen = 0, hiLen = 0, sha_flags = 0\<rparr>"

definition wc_Sha256Free :: "wc_Sha256 \<Rightarrow> wc_Sha256" where
  "wc_Sha256Free sha = sha256_zeroed"

definition wc_Sha256Copy :: "wc_Sha256 \<Rightarrow> wc_Sha256 \<Rightarrow> int \<times> wc_Sha256" where
  "wc_Sha256Copy src dst = (0, src\<lparr>sha_flags := sha_flags src OR WC_HASH_FLAG_ISCOPY\<rparr>)"

text \<open>The temporary context is given back wiped exactly when it equals the zeroed one.\<close>

definition wc_Sha256GetHash :: "wc_Sha256 \<Rightarrow> byte list \<Rightarrow> ('w, int \<times> byte list) cmd" where
  "wc_Sha256GetHash sha hash = do {
     ok \<leftarrow> XMALLOC;
     if \<not> ok then ret (MEMORY_E, hash)
     else do {
       let (r, tmp) = wc_Sha256Copy sha sha256_zeroed;
       (r2, tmp2, hash2) \<leftarrow>
         (if r = 0 then do {
            (r', t', hash') \<leftarrow> wc_Sha256Final tmp hash;
            ret (r', wc_Sha256Free t', hash')
          } else ret (r, tmp, hash));
       XFREE (Freed_obj ''wc_Sha256'' (tmp2 = sha256_zeroed));
       ret (r2, hash2)
     }
   }"

definition wc_Sha256SetFlags :: "wc_Sha256 \<Rightarrow> word32 \<Rightarrow> int \<times> wc_Sha256" where
  "wc_Sha256SetFlags sha flags = (0, sha\<lparr>sha_flags := flags\<rparr>)"

definition wc_Sha256GetFlags :: "wc_Sha256 \<Rightarrow> int \<times> word32" where
  "wc_Sha256GetFlags sha = (0, sha_flags sha)"

section \<open>SHA-256 as FIPS 180-4 states it\<close>

definition fips_Ch :: "word32 \<Rightarrow> word32 \<Rightarrow> word32 \<Rightarrow> word32" where
  "fips_Ch x y z = (x AND y) XOR (NOT x AND z)"

definition fips_Maj :: "word32 \<Rightarrow> word32 \<Rightarrow> word32 \<Rightarrow> word32" where
  "fips_Maj x y z = (x AND y) XOR (x AND z) XOR (y AND z)"

definition fips_S0 :: "word32 \<Rightarrow> word32" where
  "fips_S0 x = word_rotr 2 x XOR word_rotr 13 x XOR word_rotr 22 x"

definition fips_S1 :: "word32 \<Rightarrow> word32" where
  "fips_S1 x = word_rotr 6 x XOR word_rotr 11 x XOR word_rotr 25 x"

definition fips_s0 :: "word32 \<Rightarrow> word32" where
  "fips_s0 x = word_rotr 7 x XOR word_rotr 18 x XOR drop_bit 3 x"

definition fips_s1 :: "word32 \<Rightarrow> word32" where
  "fips_s1 x = word_rotr 17 x XOR word_rotr 19 x XOR drop_bit 10 x"

type_synonym sha_vars = "word32 \<times> word32 \<times> word32 \<times> word32 \<times> word32 \<times> word32 \<times> word32 \<times> word32"

fun fips_round :: "word32 list \<Rightarrow> nat \<Rightarrow> sha_vars \<Rightarrow> sha_vars" where
  "fips_round W t (a, b, c, d, e, f, g, h) =
     (let T1 = h + fips_S1 e + fips_Ch e f g + K ! t + W ! t;
          T2 = fips_S0 a + fips_Maj a b c
      in (T1 + T2, a, b, c, d + T1, e, f, g))"

fun fips_W :: "word32 list \<Rightarrow> nat \<Rightarrow> word32" where
  "fips_W M t =
     (if t < 16 then M ! t
      else fips_s1 (fips_W M (t - 2)) + fips_W M (t - 7) + fips_s0 (fips_W M (t - 15)) + fips_W M (t - 16))"

declare fips_W.simps [simp del]

definition vars_of :: "word32 list \<Rightarrow> sha_vars" where
  "vars_of H = (H ! 0, H ! 1, H ! 2, H ! 3, H ! 4, H ! 5, H ! 6, H ! 7)"

fun list_of_vars :: "sha_vars \<Rightarrow> word32 list" where
  "list_of_vars (a, b, c, d, e, f, g, h) = [a, b, c, d, e, f, g, h]"

definition be_words :: "byte list \<Rightarrow> word32 list" where
  "be_words block = map ByteReverseWord32 (words_of_bytes block)"

text \<open>The compression function on a block given as 16 words, and on 64 bytes.\<close>

definition compress_words :: "word32 list \<Rightarrow> word32 list \<Rightarrow> word32 list" where
  "compress_words H M =
     (let W = map (fips_W M) [0..<64];
          v = fold (fips_round W) [0..<64] (vars_of H)
      in map2 (+) H (list_of_vars v))"

definition compress :: "word32 list \<Rightarrow> byte list \<Rightarrow> word32 list" where
  "compress H block = compress_words H (be_words block)"

text \<open>Hash the whole blocks of a message; what is left is shorter than a block.\<close>

function absorb :: "word32 list \<Rightarrow> byte list \<Rightarrow> word32 list \<times> byte list" where
  "absorb H m = (if 64 \<le> length m then absorb (compress H (take 64 m)) (drop 64 m) else (H, m))"
  by pat_completeness auto
termination by (relation "measure (\<lambda>(_, m). length m)") auto

declare absorb.simps [simp del]

definition be64 :: "word64 \<Rightarrow> byte list" where
  "be64 n = be32 (ucast (drop_bit 32 n)) @ be32 (ucast n)"

definition sha_pad :: "byte list \<Rightarrow> byte list" where
  "sha_pad m = m @ [0x80] @ zeros ((119 - length m mod 64) mod 64) @ be64 (8 * of_nat (length m))"

definition sha_H0 :: "word32 list" where
  "sha_H0 = [1779033703, 3144134277, 1013904242, 2773480762, 1359893119, 2600822924, 528734635, 1541459225]"

definition sha256 :: "byte list \<Rightarrow> byte list" where
  "sha256 m = concat (map be32 (fst (absorb sha_H0 (sha_pad m))))"

section \<open>The compression function\<close>

lemma rotrFixed_rotr:
  assumes "0 < n" "n < 32"
  shows "rotrFixed x n = word_rotr n x"
proof (rule bit_word_eqI)
  fix m assume m: "m < LENGTH(32)"
  show "bit (rotrFixed x n) m = bit (word_rotr n x) m"
  proof (cases "m + n < 32")
    case True
    with m assms show ?thesis
      by (auto simp: rotrFixed_def bit_simps bit_word_rotr_iff add.commute)
  next
    case False
    then have "(m + n) mod 32 = m - (32 - n)"
      using m assms by (simp add: mod_if)
    with m assms False show ?thesis
      by (auto simp: rotrFixed_def bit_simps bit_word_rotr_iff add.commute dest: bit_imp_le_length)
  qed
qed

lemma Ch_fips: "Ch x y z = fips_Ch x y z"
  by (rule bit_word_eqI) (auto simp: Ch_def fips_Ch_def bit_simps)

lemma Maj_fips: "Maj x y z = fips_Maj x y z"
  by (rule bit_word_eqI) (auto simp: Maj_def fips_Maj_def bit_simps)

lemma and_full32 [simp]: "x AND 0xFFFFFFFF = (x :: word32)"
proof -
  have "(0xFFFFFFFF :: word32) = - 1" by simp
  then show ?thesis by (simp only: and.right_neutral)
qed

lemma Sigma_fips:
  "Sigma0 x = fips_S0 x" "Sigma1 x = fips_S1 x" "Gamma0 x = fips_s0 x" "Gamma1 x = fips_s1 x"
  by (simp_all add: Sigma0_def Sigma1_def Gamma0_def Gamma1_def R_shift_def rotrFixed_rotr
      fips_S0_def fips_S1_def fips_s0_def fips_s1_def)

lemmas fips_forms = Ch_fips Maj_fips Sigma_fips

lemma fold_W_extend:
  assumes "length M = 16" "k \<le> 48"
  shows "fold W_extend [16..<16 + k] M = map (fips_W M) [0..<16 + k]"
  using assms(2)
proof (induction k)
  case 0
  then show ?case
    using assms(1) by (simp add: list_eq_iff_nth_eq fips_W.simps)
next
  case (Suc k)
  have "fips_W M (16 + k) = fips_s1 (fips_W M (14 + k)) + fips_W M (9 + k) + fips_s0 (fips_W M (Suc k)) + fips_W M k"
    by (subst fips_W.simps) simp
  moreover have "[16..<16 + Suc k] = [16..<16 + k] @ [16 + k]" "[0..<16 + Suc k] = [0..<16 + k] @ [16 + k]"
    unfolding add_Suc_right by (simp_all only: upt_Suc) simp_all
  ultimately show ?case
    unfolding \<open>[16..<16 + Suc k] = _\<close> \<open>[0..<16 + Suc k] = _\<close>
    using Suc by (simp add: W_extend_def fips_forms nth_append)
qed

lemma message_schedule_fips:
  assumes "length data = 64"
  shows "message_schedule data = map (fips_W (words_of_bytes data)) [0..<64]"
proof -
  have "map (\<lambda>i. readUnalignedWord32 (drop (i * 4) data)) [0..<16] = words_of_bytes data"
    using assms by (simp add: list_eq_iff_nth_eq nth_words_of_bytes readUnalignedWord32_def mult.commute)
  then show ?thesis
    using fold_W_extend [of "words_of_bytes data" 48] assms by (simp add: message_schedule_def)
qed

text \<open>The rotating-index rounds simulate the copying ones: \<open>rot_view j\<close> reads the
  variables where round \<open>j\<close> of a group of eight expects them.\<close>

definition rot_view :: "nat \<Rightarrow> word32 list \<Rightarrow> sha_vars" where
  "rot_view j S = (S ! sidx 0 j, S ! sidx 1 j, S ! sidx 2 j, S ! sidx 3 j,
                   S ! sidx 4 j, S ! sidx 5 j, S ! sidx 6 j, S ! sidx 7 j)"

lemma length_RND [simp]: "length (RND W i j S) = length S"
  by (simp add: RND_def Let_def)

lemma rot_view_RND:
  assumes "j < 8" "length S = 8"
  shows "rot_view (Suc j) (RND W i j S) = fips_round W (i + j) (rot_view j S)"
proof -
  from assms(1) consider "j = 0" | "j = 1" | "j = 2" | "j = 3" | "j = 4" | "j = 5" | "j = 6" | "j = 7"
    by linarith
  then show ?thesis
    using assms(2)
    by cases (simp_all add: rot_view_def RND_def sidx_def fips_forms Let_def)
qed

lemma rot_view_0: "length S = 8 \<Longrightarrow> rot_view 0 S = vars_of S"
  by (simp add: rot_view_def sidx_def vars_of_def)

lemma rot_view_8: "rot_view 8 S = rot_view 0 S"
  by (simp add: rot_view_def sidx_def)

lemma eight_rounds:
  assumes "length S = 8"
  shows "vars_of (fold (RND W i) [0..<8] S) = fold (fips_round W) [i..<i + 8] (vars_of S)"
    and "length (fold (RND W i) [0..<8] S) = 8"
proof -
  have "rot_view k (fold (RND W i) [0..<k] S) = fold (fips_round W) [i..<i + k] (vars_of S) \<and>
        length (fold (RND W i) [0..<k] S) = 8" if "k \<le> 8" for k
    using that assms
    by (induction k) (simp_all add: rot_view_0 rot_view_RND)
  then have "rot_view 8 (fold (RND W i) [0..<8] S) = fold (fips_round W) [i..<i + 8] (vars_of S)"
    and l: "length (fold (RND W i) [0..<8] S) = 8"
    by blast+
  then show "vars_of (fold (RND W i) [0..<8] S) = fold (fips_round W) [i..<i + 8] (vars_of S)"
    "length (fold (RND W i) [0..<8] S) = 8"
    using rot_view_0 [OF l] by (simp_all add: rot_view_8)
qed

lemma list_of_vars_of: "length S = 8 \<Longrightarrow> list_of_vars (vars_of S) = S"
  by (auto simp: vars_of_def numeral_eq_Suc length_Suc_conv)

lemma group_rounds:
  assumes "length S = 8"
  shows "vars_of (fold (\<lambda>i S. fold (RND W i) [0..<8] S) (map ((*) 8) [0..<n]) S) =
           fold (fips_round W) [0..<8 * n] (vars_of S) \<and>
         length (fold (\<lambda>i S. fold (RND W i) [0..<8] S) (map ((*) 8) [0..<n]) S) = 8"
proof (induction n)
  case (Suc n)
  have "[0..<8 * Suc n] = [0..<8 * n] @ [8 * n..<8 * n + 8]"
    using upt_add_eq_append [of 0 "8 * n" 8] by (simp add: add.commute)
  with Suc show ?case by (simp add: eight_rounds)
qed (use assms in simp)

lemma unrolled_rounds_fips:
  assumes "length S = 8"
  shows "unrolled_rounds W S = list_of_vars (fold (fips_round W) [0..<64] (vars_of S))"
proof -
  define F where "F = fold (\<lambda>i S. fold (RND W i) [0..<8] S) (map ((*) 8) [0..<8]) S"
  have "unrolled_rounds W S = F"
    by (simp add: F_def unrolled_rounds_def upt_8)
  moreover have "vars_of F = fold (fips_round W) [0..<8 * 8] (vars_of S)" "length F = 8"
    using group_rounds [OF assms, of W 8] unfolding F_def by blast+
  ultimately show ?thesis
    using list_of_vars_of [of F] by (simp del: upt_rec_numeral)
qed

lemma length_list_of_vars [simp]: "length (list_of_vars v) = 8"
  by (cases v rule: list_of_vars.cases) simp

lemma length_compress_words [simp]: "length H = 8 \<Longrightarrow> length (compress_words H M) = 8"
  by (simp add: compress_words_def Let_def)

lemma length_compress [simp]: "length H = 8 \<Longrightarrow> length (compress H b) = 8"
  by (simp add: compress_def)

lemma wipe_words_zero: "\<forall>w \<in> set (wipe_words ws). w = 0"
proof -
  have "words_of_bytes (zeros (4 * n)) = replicate n 0" for n
    by (induction n) (simp_all add: zeros_def numeral_eq_Suc word32_of_bytes_def)
  then show ?thesis
    by (auto simp: wipe_words_def ForceZero_full)
qed

section \<open>Streaming\<close>

lemma clean_Transform:
  assumes "length (digest sha) = 8" "length data = 64"
  shows "clean wiped 0 h (Transform_Sha256 sha data)
    (succeeds (\<lambda>sha'. sha' = sha\<lparr>digest := compress_words (digest sha) (words_of_bytes data)\<rparr>))"
  unfolding Transform_Sha256_def
  by (rule clean_malloc)
    (use assms in \<open>auto simp: Let_def message_schedule_fips unrolled_rounds_fips compress_words_def
       wipe_words_zero intro!: clean_free clean_ret clean_fail\<close>)

lemma absorb_append:
  "absorb H (m @ d) = (case absorb H m of (H', r) \<Rightarrow> absorb H' (r @ d))"
proof (induction H m rule: absorb.induct)
  case (1 H m)
  then show ?case
    by (cases "64 \<le> length m") (simp_all add: absorb.simps [of H "m @ d"] absorb.simps [of H m])
qed

lemma absorb_short [simp]: "length m < 64 \<Longrightarrow> absorb H m = (H, m)"
  by (subst absorb.simps) simp

lemma absorb_block:
  "64 \<le> length m \<Longrightarrow> absorb H m = absorb (compress H (take 64 m)) (drop 64 m)"
  by (subst absorb.simps) simp

lemma length_absorb:
  "length H = 8 \<Longrightarrow> absorb H m = (H', r) \<Longrightarrow> length H' = 8 \<and> length r = length m mod 64"
proof (induction H m rule: absorb.induct)
  case (1 H m)
  then show ?case
    by (cases "64 \<le> length m") (simp_all add: absorb_block le_mod_geq)
qed

text \<open>A context with room for its arrays.\<close>

definition sha_wf :: "wc_Sha256 \<Rightarrow> bool" where
  "sha_wf sha \<longleftrightarrow> length (digest sha) = 8 \<and> length (buffer sha) = 16 \<and> buffLen sha < 64"

text \<open>A context that has taken in the message \<open>m\<close>.\<close>

definition sha_rep :: "wc_Sha256 \<Rightarrow> byte list \<Rightarrow> bool" where
  "sha_rep sha m \<longleftrightarrow> sha_wf sha \<and>
     absorb sha_H0 m = (digest sha, take (buffLen sha) (local_bytes sha)) \<and>
     loLen sha = of_nat (length m) \<and> hiLen sha = of_nat (length m div 2 ^ 32)"

lemma sha_rep_wf: "sha_rep sha m \<Longrightarrow> sha_wf sha"
  by (simp add: sha_rep_def)

lemma sha_rep_Init: "sha_rep (InitSha256 sha) []"
  by (simp add: sha_rep_def sha_wf_def InitSha256_def sha_H0_def)

lemma loaded_block:
  assumes "length (buffer sha) = 16" "length b = 64"
  shows "words_of_bytes (local_bytes (reverse_buffer (sha\<lparr>buffer := words_of_bytes b\<rparr>) 64)) = be_words b"
    and "length (buffer (reverse_buffer (sha\<lparr>buffer := words_of_bytes b\<rparr>) 64)) = 16"
  using assms ByteReverseWords_in_place [of "words_of_bytes b" 16]
  by (simp_all add: reverse_buffer_def be_words_def)

lemma clean_load_Transform:
  assumes "length (digest sha) = 8" "length (buffer sha) = 16" "length b = 64"
  defines "sha1 \<equiv> reverse_buffer (sha\<lparr>buffer := words_of_bytes b\<rparr>) 64"
  shows "clean wiped 0 h (Transform_Sha256 sha1 (local_bytes sha1))
    (succeeds (\<lambda>sha'. sha' = sha1\<lparr>digest := compress (digest sha) b\<rparr>))"
proof -
  have "digest sha1 = digest sha" "length (local_bytes sha1) = 64"
    using assms loaded_block [of sha b] by (simp_all add: sha1_def reverse_buffer_def)
  then show ?thesis
    using clean_Transform [of sha1 "local_bytes sha1" h] assms loaded_block [of sha b]
    by (simp add: compress_def)
qed

lemma Sha256Update_blocks_short [simp]: "length data < 64 \<Longrightarrow> Sha256Update_blocks sha data = ret (0, sha, data)"
  by (subst Sha256Update_blocks.simps) simp

lemma clean_Update_blocks:
  fixes h :: "'w env"
  assumes "length (digest sha) = 8" "length (buffer sha) = 16"
  shows "clean wiped 0 h (Sha256Update_blocks sha data)
    (succeeds (\<lambda>(sha', rest). absorb (digest sha) data = (digest sha', rest) \<and>
       length (digest sha') = 8 \<and> length (buffer sha') = 16 \<and> buffLen sha' = buffLen sha \<and>
       loLen sha' = loLen sha \<and> hiLen sha' = hiLen sha \<and> (length data < 64 \<longrightarrow> sha' = sha)))"
  using assms
proof (induction sha data arbitrary: h rule: Sha256Update_blocks.induct)
  case (1 sha data)
  show ?case
  proof (cases "64 \<le> length data")
    case False
    then show ?thesis
      using 1 by (subst Sha256Update_blocks.simps) (simp add: clean_ret)
  next
    case True
    let ?b = "take 64 data"
    define s1 where "s1 = reverse_buffer (sha\<lparr>buffer := words_of_bytes ?b\<rparr>) 64"
    let ?s2 = "s1\<lparr>digest := compress (digest sha) ?b\<rparr>"
    have s1: "length (buffer s1) = 16" "buffLen s1 = buffLen sha" "loLen s1 = loLen sha" "hiLen s1 = hiLen sha"
      using loaded_block [of sha ?b] True 1 by (simp_all add: s1_def reverse_buffer_def)
    have tr: "clean wiped 0 h (Transform_Sha256 s1 (local_bytes s1)) (succeeds (\<lambda>s. s = ?s2))"
      unfolding s1_def by (rule clean_load_Transform) (use True 1 in simp_all)
    have IH: "clean wiped 0 h (Sha256Update_blocks ?s2 (drop 64 data)) (succeeds (\<lambda>(sha', rest).
       absorb (digest ?s2) (drop 64 data) = (digest sha', rest) \<and>
       length (digest sha') = 8 \<and> length (buffer sha') = 16 \<and> buffLen sha' = buffLen ?s2 \<and>
       loLen sha' = loLen ?s2 \<and> hiLen sha' = hiLen ?s2 \<and> (length (drop 64 data) < 64 \<longrightarrow> sha' = ?s2)))"
      for h :: "'w env"
      by (rule 1(1) [of s1 0 ?s2]) (use True 1(2,3) s1 in \<open>simp_all add: s1_def\<close>)
    have step: "Sha256Update_blocks sha data =
        State_Monad.bind (Transform_Sha256 s1 (local_bytes s1)) (\<lambda>(r, sha2).
          if r \<noteq> 0 then ret (r, sha2, drop 64 data) else Sha256Update_blocks sha2 (drop 64 data))"
      using True 1(2,3) by (simp add: Sha256Update_blocks.simps [of sha data] s1_def Let_def)
    show ?thesis
      unfolding step using True s1
      by (auto simp: absorb_block [OF True]
          intro!: clean_bind [OF tr] clean_conseq [OF IH] clean_fail)
  qed
qed

text \<open>The 64-bit byte count in two halves.\<close>

lemma div_add_carry:
  fixes k M n :: nat
  assumes "k < M"
  shows "(n + k) div M = n div M + of_bool (M \<le> n mod M + k)"
    and "(n + k) mod M < n mod M \<longleftrightarrow> M \<le> n mod M + k"
proof -
  define x where "x = n mod M"
  have r: "x < M" using assms by (simp add: x_def)
  have "(x + k) div M = of_bool (M \<le> x + k)"
    using r assms by (cases "M \<le> x + k") (simp_all add: div_if [of "x + k"])
  then show "(n + k) div M = n div M + of_bool (M \<le> n mod M + k)"
    using assms div_add1_eq [of n k M] by (simp add: x_def)
  have "(n + k) mod M = (x + k) mod M" by (simp add: mod_add_left_eq x_def)
  then show "(n + k) mod M < n mod M \<longleftrightarrow> M \<le> n mod M + k"
    using r assms by (cases "M \<le> x + k") (simp_all add: mod_if [of "x + k"] flip: x_def)
qed

lemma AddLength_counts:
  assumes "loLen sha = of_nat n" "hiLen sha = of_nat (n div 2 ^ 32)" "k < 2 ^ 32"
  shows "AddLength sha k = sha\<lparr>loLen := of_nat (n + k), hiLen := of_nat ((n + k) div 2 ^ 32)\<rparr>"
proof -
  have "(of_nat n + of_nat k :: word32) < of_nat n \<longleftrightarrow> (n + k) mod 2 ^ 32 < n mod 2 ^ 32"
    by (simp add: word_less_nat_alt unat_of_nat flip: of_nat_add)
  with assms div_add_carry [OF assms(3), of n] show ?thesis
    unfolding AddLength_def Let_def by (cases sha) simp
qed

lemma clean_Update_finish:
  fixes h :: "'w env"
  assumes "length (digest sha) = 8" "length (buffer sha) = 16" "buffLen sha = 0"
    and abs: "absorb sha_H0 M = absorb (digest sha) data"
    and "loLen sha = of_nat (length M)" "hiLen sha = of_nat (length M div 2 ^ 32)"
  shows "clean wiped 0 h
    (State_Monad.bind (Sha256Update_blocks sha data) (\<lambda>(r2, sha2, data2).
       if r2 = 0 \<and> 0 < length data2
       then ret (r2, (put_local sha2 0 data2)\<lparr>buffLen := length data2\<rparr>)
       else ret (r2, sha2)))
    (succeeds (\<lambda>sha'. sha_rep sha' M))"
proof (rule clean_bind [OF clean_Update_blocks [OF assms(1,2)]], goal_cases)
  case (1 r x h')
  then obtain sha2 rest where x: "x = (sha2, rest)" and r: "r = 0"
    and ab: "absorb (digest sha) data = (digest sha2, rest)"
    and wf: "length (digest sha2) = 8" "length (buffer sha2) = 16" "buffLen sha2 = 0"
      "loLen sha2 = loLen sha" "hiLen sha2 = hiLen sha"
    using assms(3) by (cases x) auto
  have "length rest < 64"
    using length_absorb [OF assms(1) ab] by simp
  then have "length (blit (local_bytes sha2) 0 rest) = 64" "take (length rest) (blit (local_bytes sha2) 0 rest) = rest"
    using wf take_blit [of 0 rest "local_bytes sha2"] by simp_all
  then show ?case
    using assms(5,6) abs ab wf \<open>length rest < 64\<close>
    by (auto simp: x r sha_rep_def sha_wf_def intro!: clean_ret)
qed (auto intro: clean_fail)

lemma clean_Update_partial:
  fixes h :: "'w env"
  assumes wf: "sha_wf sha" and bl: "0 < buffLen sha"
  defines "r0 \<equiv> take (buffLen sha) (local_bytes sha)"
  shows "clean wiped 0 h (Sha256Update_partial sha data) (succeeds (\<lambda>(sha', rest).
     length (digest sha') = 8 \<and> length (buffer sha') = 16 \<and>
     loLen sha' = loLen sha \<and> hiLen sha' = hiLen sha \<and>
     (if buffLen sha + length data < 64
      then rest = [] \<and> digest sha' = digest sha \<and> buffLen sha' = buffLen sha + length data \<and>
           take (buffLen sha') (local_bytes sha') = r0 @ data
      else buffLen sha' = 0 \<and> absorb (digest sha') rest = absorb (digest sha) (r0 @ data))))"
proof (cases "buffLen sha + length data < 64")
  case True
  then show ?thesis
    using assms take_blit [of "buffLen sha" data "local_bytes sha"]
    by (auto simp: Sha256Update_partial_def sha_wf_def Let_def intro!: clean_ret)
next
  case False
  let ?n = "64 - buffLen sha"
  define b where "b = r0 @ take ?n data"
  define s3 where "s3 = reverse_buffer (sha\<lparr>buffer := words_of_bytes b, buffLen := 64\<rparr>) 64"
  have s3': "s3 = reverse_buffer (sha\<lparr>buffLen := 64, buffer := words_of_bytes b\<rparr>) 64"
    by (cases sha) (simp add: s3_def)
  have b: "length b = 64" "blit (local_bytes sha) (buffLen sha) (take ?n data) = b"
    using False wf by (simp_all add: b_def r0_def sha_wf_def blit_to_end)
  have s3: "length (buffer s3) = 16" "loLen s3 = loLen sha" "hiLen s3 = hiLen sha"
    using loaded_block [of "sha\<lparr>buffLen := 64\<rparr>" b] wf b by (simp_all add: s3' sha_wf_def reverse_buffer_def)
  have tr: "clean wiped 0 h (Transform_Sha256 s3 (local_bytes s3))
      (succeeds (\<lambda>s. s = s3\<lparr>digest := compress (digest sha) b\<rparr>))"
    using clean_load_Transform [of "sha\<lparr>buffLen := 64\<rparr>" b h] wf b by (simp add: s3' sha_wf_def)
  have step: "Sha256Update_partial sha data =
      State_Monad.bind (Transform_Sha256 s3 (local_bytes s3))
        (\<lambda>(r, s4). if r = 0 then ret (0, s4\<lparr>buffLen := 0\<rparr>, drop ?n data) else ret (r, s4, []))"
    using False bl wf b by (simp add: Sha256Update_partial_def Let_def sha_wf_def s3_def min_absorb2)
  have "absorb (digest sha) (r0 @ data) = absorb (compress (digest sha) b) (drop ?n data)"
    using b(1) absorb_block [of "r0 @ data" "digest sha"] wf by (simp add: b_def r0_def sha_wf_def)
  with False wf s3 show ?thesis
    unfolding step by (auto simp: sha_wf_def intro!: clean_bind [OF tr] clean_ret clean_fail)
qed

lemma clean_Sha256Update:
  fixes h :: "'w env"
  assumes rep: "sha_rep sha m" and len: "length data < 2 ^ 32"
  shows "clean wiped 0 h (Sha256Update sha data) (succeeds (\<lambda>sha'. sha_rep sha' (m @ data)))"
proof -
  define sha0 where "sha0 = AddLength sha (length data)"
  from rep have wf: "length (digest sha) = 8" "length (buffer sha) = 16" "buffLen sha < 64"
    and ab: "absorb sha_H0 m = (digest sha, take (buffLen sha) (local_bytes sha))"
    by (auto simp: sha_rep_def sha_wf_def)
  have sha0: "digest sha0 = digest sha" "buffer sha0 = buffer sha" "buffLen sha0 = buffLen sha"
    "loLen sha0 = of_nat (length (m @ data))" "hiLen sha0 = of_nat (length (m @ data) div 2 ^ 32)"
    using rep AddLength_counts [of sha "length m" "length data"] len
    by (simp_all add: sha0_def sha_rep_def)
  have wf0: "sha_wf sha0" using wf sha0 by (simp add: sha_wf_def)
  have abd: "absorb sha_H0 (m @ data) = absorb (digest sha) (take (buffLen sha) (local_bytes sha) @ data)"
    by (subst absorb_append) (simp add: ab)
  have step: "Sha256Update sha data = State_Monad.bind (Sha256Update_partial sha0 data)
    (\<lambda>(r, sha1, data1). State_Monad.bind
       (if r = 0 then Sha256Update_blocks sha1 data1 else ret (r, sha1, data1))
       (\<lambda>(r2, sha2, data2). if r2 = 0 \<and> 0 < length data2
          then ret (r2, (put_local sha2 0 data2)\<lparr>buffLen := length data2\<rparr>) else ret (r2, sha2)))"
    using wf by (simp add: Sha256Update_def sha0_def)
  show ?thesis
  proof (cases "buffLen sha = 0")
    case True
    then show ?thesis
      using clean_Update_finish [of sha0 "m @ data" data h] wf sha0 abd
      by (simp add: step Sha256Update_partial_def)
  next
    case False
    then have "0 < buffLen sha0" by (simp add: sha0)
    show ?thesis
      unfolding step
    proof (rule clean_bind [OF clean_Update_partial [OF wf0 \<open>0 < buffLen sha0\<close>]], goal_cases)
      case (1 r x h')
      then obtain sha1 rest where x: "x = (sha1, rest)" "r = 0" by (cases x) auto
      show ?case
      proof (cases "buffLen sha + length data < 64")
        case True
        with 1 sha0 abd show ?thesis
          by (auto simp: x sha_rep_def sha_wf_def intro!: clean_ret)
      next
        case False
        with 1 sha0 abd show ?thesis
          using clean_Update_finish [of sha1 "m @ data" rest h'] by (simp add: x)
      qed
    qed (auto intro!: clean_fail)
  qed
qed

section \<open>Padding\<close>

lemma take_bytes_of_words: "take (4 * n) (bytes_of_words ws) = bytes_of_words (take n ws)"
proof (induction ws arbitrary: n)
  case (Cons w ws)
  then show ?case by (cases n) simp_all
qed simp

lemma blit_word:
  assumes "n < length ws"
  shows "words_of_bytes (blit (bytes_of_words ws) (4 * n) (bytes_of_word32 w)) = ws[n := w]"
proof -
  have "drop (4 * n + 4) (bytes_of_words ws) = bytes_of_words (drop (Suc n) ws)"
    using drop_bytes_of_words [of "Suc n" ws] by (simp add: add.commute)
  then have "blit (bytes_of_words ws) (4 * n) (bytes_of_word32 w) = bytes_of_words (ws[n := w])"
    using assms by (simp add: blit_def take_bytes_of_words upd_conv_take_nth_drop)
  then show ?thesis by simp
qed

lemma be_words_append:
  "4 dvd length a \<Longrightarrow> be_words (a @ b) = be_words a @ be_words b"
  by (simp add: be_words_def words_of_bytes_append)

lemma be_words_be32: "be_words (be32 x @ be32 y) = [x, y]"
proof -
  have "be32 x @ be32 y = bytes_of_words [ByteReverseWord32 x, ByteReverseWord32 y]"
    by (simp add: be32_def ByteReverseWord32_bytes)
  then show ?thesis by (simp add: be_words_def del: bytes_of_words_Cons)
qed

lemma ucast_of_nat_64_32: "(ucast (of_nat k :: word64) :: word32) = of_nat k"
  by (rule bit_word_eqI) (simp add: bit_simps bit_of_nat_iff_bit)

lemma ucast_high_half: "(ucast (drop_bit 32 (of_nat k :: word64)) :: word32) = of_nat (k div 2 ^ 32)"
proof -
  have "(ucast (drop_bit 32 (of_nat k :: word64)) :: word32) = of_nat (drop_bit 32 k)"
    by (rule bit_word_eqI) (simp add: bit_simps bit_of_nat_iff_bit)
  then show ?thesis by (simp add: drop_bit_eq_div)
qed

lemma drop_bit_29_of_nat: "drop_bit 29 (of_nat n :: word32) = of_nat (n mod 2 ^ 32 div 2 ^ 29)"
proof -
  have "drop_bit 29 (of_nat n :: word32) = of_nat (drop_bit 29 (take_bit 32 n))"
    by (rule bit_word_eqI) (auto simp: bit_simps bit_of_nat_iff_bit)
  then show ?thesis by (simp add: drop_bit_eq_div take_bit_eq_mod)
qed

lemma div_split_8:
  fixes M n :: nat
  assumes "0 < M"
  shows "n mod (8 * M) div M + 8 * (n div (8 * M)) = n div M"
proof -
  have "n mod (8 * M) + 8 * (n div (8 * M)) * M = n"
    using mod_mult_div_eq [of n "8 * M"] by (simp add: ac_simps)
  then show ?thesis
    using div_mult_self1 [of M "n mod (8 * M)" "8 * (n div (8 * M))"] assms by simp
qed

lemma length_high_half:
  "drop_bit 29 (of_nat n :: word32) + push_bit 3 (of_nat (n div 2 ^ 32)) =
   ucast (drop_bit 32 (8 * of_nat n :: word64))"
proof -
  have p: "push_bit 3 (of_nat (n div 2 ^ 32) :: word32) = of_nat (8 * (n div 2 ^ 32))"
    by (simp add: push_bit_eq_mult)
  have "n mod 2 ^ 32 div 2 ^ 29 + 8 * (n div 2 ^ 32) = 8 * n div 2 ^ 32"
    using div_split_8 [of "2 ^ 29" n] div_mult_mult1 [of 8 n "2 ^ 29"] by simp
  then have "drop_bit 29 (of_nat n :: word32) + push_bit 3 (of_nat (n div 2 ^ 32)) = of_nat (8 * n div 2 ^ 32)"
    by (simp only: p drop_bit_29_of_nat flip: of_nat_add)
  also have "\<dots> = ucast (drop_bit 32 (of_nat (8 * n) :: word64))"
    by (rule ucast_high_half [symmetric])
  finally show ?thesis by (simp only: of_nat_mult of_nat_numeral)
qed

lemma length_low_half: "push_bit 3 (of_nat n :: word32) = ucast (8 * of_nat n :: word64)"
  using ucast_of_nat_64_32 [of "8 * n"] by (simp add: push_bit_eq_mult mult.commute)

lemma Final_length_block:
  assumes "length (buffer sha) = 16" "buffLen sha \<le> 56"
    "loLen sha = of_nat n" "hiLen sha = of_nat (n div 2 ^ 32)"
  shows "buffer (Sha256Final_length sha) =
     be_words (take (buffLen sha) (local_bytes sha) @ zeros (56 - buffLen sha) @ be64 (8 * of_nat n))"
    and "digest (Sha256Final_length sha) = digest sha"
proof -
  let ?z = "take (buffLen sha) (local_bytes sha) @ zeros (56 - buffLen sha)"
  let ?hi = "ucast (drop_bit 32 (8 * of_nat n :: word64)) :: word32"
  let ?lo = "ucast (8 * of_nat n :: word64) :: word32"
  define B where "B = words_of_bytes (blit (local_bytes sha) (buffLen sha) (zeros (56 - buffLen sha)))"
  have B: "length B = 16" "take 14 B = words_of_bytes ?z"
  proof -
    have bl: "blit (local_bytes sha) (buffLen sha) (zeros (56 - buffLen sha)) = ?z @ drop 56 (local_bytes sha)"
      using assms by (simp add: blit_def)
    have z: "length ?z = 56" using assms by simp
    show "length B = 16" using assms by (simp add: B_def bl)
    show "take 14 B = words_of_bytes ?z"
      unfolding B_def bl using z by (subst words_of_bytes_append) (simp_all del: append_assoc)
  qed
  let ?B' = "ByteReverseWords B B 56"
  have B': "length ?B' = 16" "take 14 ?B' = be_words ?z"
    using B assms by (simp_all add: ByteReverseWords_def be_words_def take_map)
  have hi: "drop_bit 29 (loLen sha) + push_bit 3 (hiLen sha) = ?hi"
    unfolding assms by (rule length_high_half)
  have lo: "push_bit 3 (loLen sha) = ?lo"
    unfolding assms by (rule length_low_half)
  have "buffer (Sha256Final_length sha) = ?B'[14 := ?hi, 15 := ?lo]"
    using B' blit_word [of 14 ?B' ?hi] blit_word [of 15 "?B'[14 := ?hi]" ?lo]
    by (simp add: Sha256Final_length_def reverse_buffer_def Let_def hi lo flip: B_def)
  also have "\<dots> = take 14 ?B' @ [?hi, ?lo]"
    using B'(1) by (simp add: list_eq_iff_nth_eq nth_append nth_list_update nth_Cons')
  also have "\<dots> = be_words (?z @ be64 (8 * of_nat n))"
    using assms by (subst be_words_append) (simp_all add: B' be64_def be_words_be32)
  finally show "buffer (Sha256Final_length sha) =
     be_words (take (buffLen sha) (local_bytes sha) @ zeros (56 - buffLen sha) @ be64 (8 * of_nat n))"
    by simp
  show "digest (Sha256Final_length sha) = digest sha"
    by (simp add: Sha256Final_length_def reverse_buffer_def Let_def)
qed

lemma length_be64 [simp]: "length (be64 n) = 8"
  by (simp add: be64_def)

lemma length_be_words [simp]: "length (be_words b) = length b div 4"
  by (simp add: be_words_def)

lemma clean_Final_last:
  fixes h :: "'w env"
  assumes "length (digest sha) = 8" "length (buffer sha) = 16" "buffLen sha \<le> 56"
    "loLen sha = of_nat n" "hiLen sha = of_nat (n div 2 ^ 32)"
  defines "b \<equiv> take (buffLen sha) (local_bytes sha) @ zeros (56 - buffLen sha) @ be64 (8 * of_nat n)"
  shows "clean wiped 0 h (Transform_Sha256 (Sha256Final_length sha) (local_bytes (Sha256Final_length sha)))
    (succeeds (\<lambda>s. digest s = compress (digest sha) b \<and> length (digest s) = 8))"
proof -
  let ?s = "Sha256Final_length sha"
  have s: "buffer ?s = be_words b" "digest ?s = digest sha"
    unfolding b_def using Final_length_block [OF assms(2-5)] by simp_all
  moreover have "length b = 64" using assms by (simp add: b_def)
  ultimately have "length (local_bytes ?s) = 64" by simp
  then show ?thesis
    using clean_Transform [of ?s "local_bytes ?s" h] assms(1) s
    by (auto simp: compress_def elim!: clean_conseq)
qed

lemma clean_Final_spill:
  fixes h :: "'w env"
  assumes "length (digest sha) = 8" "length (buffer sha) = 16" "56 < buffLen sha" "buffLen sha \<le> 64"
  defines "b \<equiv> take (buffLen sha) (local_bytes sha) @ zeros (64 - buffLen sha)"
  shows "clean wiped 0 h (Sha256Final_spill sha) (succeeds (\<lambda>s. digest s = compress (digest sha) b \<and>
     length (digest s) = 8 \<and> length (buffer s) = 16 \<and> buffLen s = 0 \<and> loLen s = loLen sha \<and> hiLen s = hiLen sha))"
proof -
  have b: "length b = 64" using assms by (simp add: b_def)
  have t1: "(if buffLen sha < 64 then put_local sha (buffLen sha) (zeros (64 - buffLen sha)) else sha) =
      sha\<lparr>buffer := words_of_bytes b\<rparr>"
  proof (cases "buffLen sha < 64")
    case True
    then show ?thesis using assms by (simp add: b_def blit_to_end)
  next
    case False
    then have "b = local_bytes sha" using assms by (simp add: b_def)
    then show ?thesis using False by simp
  qed
  define t2 where "t2 = reverse_buffer (sha\<lparr>buffer := words_of_bytes b\<rparr>) 64"
  have t2: "length (buffer t2) = 16" "loLen t2 = loLen sha" "hiLen t2 = hiLen sha"
    using loaded_block [of sha b] assms b by (simp_all add: t2_def reverse_buffer_def)
  have tr: "clean wiped 0 h (Transform_Sha256 t2 (local_bytes t2))
      (succeeds (\<lambda>s. s = t2\<lparr>digest := compress (digest sha) b\<rparr>))"
    unfolding t2_def by (rule clean_load_Transform) (use assms b in simp_all)
  have step: "Sha256Final_spill sha = State_Monad.bind (Transform_Sha256 t2 (local_bytes t2))
      (\<lambda>(r, t3). if r \<noteq> 0 then ret (r, t3) else ret (0, t3\<lparr>buffLen := 0\<rparr>))"
    unfolding Sha256Final_spill_def WC_SHA256_BLOCK_SIZE_def WC_SHA256_PAD_SIZE_def Let_def t1 t2_def
    using assms(3) by simp
  show ?thesis
    unfolding step using t2 assms(1) by (auto intro!: clean_bind [OF tr] clean_ret clean_fail)
qed

lemma absorb_full: "length b = 64 \<Longrightarrow> absorb H (b @ m) = absorb (compress H b) m"
  by (simp add: absorb_block)

lemma sha_pad_count:
  assumes "l < 64"
  shows "(119 - l) mod 64 = (if 56 \<le> l then (63 - l) + 56 else 55 - (l :: nat))"
  using assms by (simp add: mod_if)

lemma clean_Sha256Final:
  fixes h :: "'w env"
  assumes rep: "sha_rep sha m"
  shows "clean wiped 0 h (Sha256Final sha)
    (succeeds (\<lambda>s. digest s = fst (absorb sha_H0 (sha_pad m)) \<and> length (digest s) = 8))"
proof -
  let ?r = "take (buffLen sha) (local_bytes sha)"
  let ?len = "be64 (8 * of_nat (length m))"
  define s1 where "s1 = (put_local sha (buffLen sha) [0x80])\<lparr>buffLen := buffLen sha + 1\<rparr>"
  from rep have wf: "length (digest sha) = 8" "length (buffer sha) = 16" "buffLen sha < 64"
    and ab: "absorb sha_H0 m = (digest sha, ?r)"
    and cnt: "loLen sha = of_nat (length m)" "hiLen sha = of_nat (length m div 2 ^ 32)"
    by (auto simp: sha_rep_def sha_wf_def)
  have bl: "length m mod 64 = buffLen sha"
    using length_absorb [OF _ ab] wf by (simp add: sha_H0_def)
  have s1: "length (digest s1) = 8" "length (buffer s1) = 16" "buffLen s1 = buffLen sha + 1"
      "loLen s1 = loLen sha" "hiLen s1 = hiLen sha" "digest s1 = digest sha"
    and part: "take (buffLen s1) (local_bytes s1) = ?r @ [0x80]"
    using wf take_blit [of "buffLen sha" "[0x80]" "local_bytes sha"] by (simp_all add: s1_def)
  have padded: "absorb sha_H0 (sha_pad m) = absorb (digest sha)
      (?r @ [0x80] @ zeros ((119 - buffLen sha) mod 64) @ ?len)"
    unfolding sha_pad_def bl by (subst absorb_append) (simp add: ab)
  have step: "Sha256Final sha = State_Monad.bind (Sha256Final_spill s1) (\<lambda>(r, s2).
      if r \<noteq> 0 then ret (r, s2)
      else Transform_Sha256 (Sha256Final_length s2) (local_bytes (Sha256Final_length s2)))"
    unfolding Sha256Final_def s1_def Let_def using wf by simp
  show ?thesis
  proof (cases "56 \<le> buffLen sha")
    case True
    let ?b1 = "?r @ [0x80] @ zeros (63 - buffLen sha)"
    have sp: "clean wiped 0 h (Sha256Final_spill s1) (succeeds (\<lambda>s. digest s = compress (digest sha) ?b1 \<and>
      length (digest s) = 8 \<and> length (buffer s) = 16 \<and> buffLen s = 0 \<and> loLen s = loLen sha \<and> hiLen s = hiLen sha))"
      using clean_Final_spill [of s1 h] True wf s1 part by simp
    have "absorb sha_H0 (sha_pad m) =
        (compress (compress (digest sha) ?b1) (zeros 56 @ ?len), [])"
      using True wf absorb_full [of ?b1 "digest sha" "zeros 56 @ ?len"]
        absorb_full [of "zeros 56 @ ?len" _ "[]"] zeros_add [of "63 - buffLen sha" 56]
      by (simp add: padded sha_pad_count)
    then show ?thesis
      unfolding step
      using cnt by (auto intro!: clean_bind [OF sp] clean_conseq [OF clean_Final_last [where n = "length m"]] clean_fail)
  next
    case False
    let ?b = "?r @ [0x80] @ zeros (55 - buffLen sha) @ ?len"
    have "absorb sha_H0 (sha_pad m) = (compress (digest sha) ?b, [])"
      using False wf by (simp add: padded sha_pad_count absorb_block)
    moreover have "(Sha256Final_spill s1 :: ('w, _) cmd) = ret (0, s1)"
      using False s1 by (simp add: Sha256Final_spill_def)
    ultimately show ?thesis
      unfolding step
      using clean_Final_last [of s1 "length m" h] False wf s1 cnt part by simp
  qed
qed

section \<open>Clients\<close>

text \<open>\<open>Update\<close> and \<open>Final\<close> as their callers see them.\<close>

lemma clean_wc_Sha256Update:
  fixes h :: "'w env"
  assumes "sha_rep sha m" "length data < 2 ^ 32"
  shows "clean wiped 0 h (wc_Sha256Update sha (Buf data)) (succeeds (\<lambda>sha'. sha_rep sha' (m @ data)))"
  using assms clean_Sha256Update [OF assms]
  by (auto simp: wc_Sha256Update_def intro!: clean_ret)

lemma digest_bytes:
  "length D = 8 \<Longrightarrow> bytes_of_words (ByteReverseWords D D 32) = concat (map be32 D)"
  using ByteReverseWords_in_place [of D 8] by (simp add: bytes_of_ByteReverse_map)

lemma length_sha_H0 [simp]: "length sha_H0 = 8"
  by (simp add: sha_H0_def)

lemma length_sha256 [simp]: "length (sha256 m) = 32"
proof -
  obtain H r where "absorb sha_H0 (sha_pad m) = (H, r)" by fastforce
  moreover from this have "length H = 8"
    using length_absorb [OF length_sha_H0] by blast
  ultimately show ?thesis
    by (simp add: sha256_def length_concat comp_def sum_list_triv)
qed

lemma clean_wc_Sha256Final:
  fixes h :: "'w env"
  assumes "sha_rep sha m"
  shows "clean wiped 0 h (wc_Sha256Final sha hash)
    (succeeds (\<lambda>(sha', hash'). sha_rep sha' [] \<and> hash' = blit hash 0 (sha256 m)))"
  unfolding wc_Sha256Final_def
  by (rule clean_bind [OF clean_Sha256Final [OF assms]])
    (auto simp: Let_def sha256_def digest_bytes sha_rep_Init intro!: clean_ret clean_fail)

lemma sha_rep_Copy: "sha_rep src m \<Longrightarrow> sha_rep (snd (wc_Sha256Copy src dst)) m"
  by (simp add: wc_Sha256Copy_def sha_rep_def sha_wf_def)

section \<open>Properties\<close>

text \<open>A client that hashes a message in pieces: initialise, one update per piece, finish.\<close>

fun sha256_feed :: "wc_Sha256 \<Rightarrow> byte list list \<Rightarrow> ('w, int \<times> wc_Sha256) cmd" where
  "sha256_feed sha [] = ret (0, sha)"
| "sha256_feed sha (c # cs) = do {
     (r, sha') \<leftarrow> wc_Sha256Update sha (Buf c);
     if r \<noteq> 0 then ret (r, sha') else sha256_feed sha' cs
   }"

definition sha256_in_pieces :: "wc_Sha256 \<Rightarrow> byte list list \<Rightarrow> byte list \<Rightarrow> ('w, int \<times> byte list) cmd" where
  "sha256_in_pieces sha cs hash = do {
     (r, s) \<leftarrow> sha256_feed (snd (wc_InitSha256 sha)) cs;
     if r \<noteq> 0 then ret (r, hash)
     else do { (r2, s2, hash2) \<leftarrow> wc_Sha256Final s hash; ret (r2, hash2) }
   }"

lemma clean_sha256_feed:
  fixes h :: "'w env"
  assumes "sha_rep sha m" "\<forall>c \<in> set cs. length c < 2 ^ 32"
  shows "clean wiped 0 h (sha256_feed sha cs) (succeeds (\<lambda>sha'. sha_rep sha' (m @ concat cs)))"
  using assms
proof (induction cs arbitrary: sha m h)
  case (Cons c cs)
  then show ?case
    by (auto intro!: clean_bind [OF clean_wc_Sha256Update [of sha m c]] clean_conseq [OF Cons.IH]
        clean_fail simp flip: append_assoc)
qed (simp add: clean_ret)

text \<open>C11: the SHA-256 of the library, fed a message in arbitrary pieces, writes the
  FIPS 180-4 digest of the whole message into the caller's buffer.  It fails only when
  the allocator refuses a request (with \<open>MEMORY_E\<close>), leaks no block, and every message
  schedule it gives back to the heap has been wiped.\<close>

theorem sha256_pieces_correct:
  assumes "\<forall>c \<in> set cs. length c < 2 ^ 32"
  shows "clean wiped 0 h (sha256_in_pieces sha cs hash)
    (succeeds (\<lambda>hash'. hash' = blit hash 0 (sha256 (concat cs))))"
  unfolding sha256_in_pieces_def wc_InitSha256_def wc_InitSha256_ex_def
  using assms
  by (auto intro!: clean_bind [OF clean_sha256_feed [OF sha_rep_Init]]
      clean_bind [OF clean_wc_Sha256Final] clean_ret clean_fail)

theorem sha256_pieces_correct_witness:
  "\<exists>h'. run_state (sha256_in_pieces sha256_zeroed [[0x61], [0x62, 0x63]] (zeros 32)) (env0 ()) =
     ((0, sha256 [0x61, 0x62, 0x63]), h') \<and> hp_live h' = 0 \<and> list_all wiped (hp_freed h')"
  using clean_env0 [OF sha256_pieces_correct [of "[[0x61], [0x62, 0x63]]" "env0 ()" sha256_zeroed "zeros 32"]]
  by auto

text \<open>C12: \<open>wc_Sha256GetHash\<close> returns the digest of the message taken in so far without
  disturbing the running context: it works on a copy, and the copy is wiped before it
  is given back even when the computation fails.\<close>

theorem sha256_get_hash_correct:
  fixes h :: "'w env"
  assumes "sha_rep sha m"
  shows "clean wiped 0 h (wc_Sha256GetHash sha hash) (succeeds (\<lambda>hash'. hash' = blit hash 0 (sha256 m)))"
proof -
  let ?t = "sha\<lparr>sha_flags := sha_flags sha OR WC_HASH_FLAG_ISCOPY\<rparr>"
  have rep: "sha_rep ?t m"
    using sha_rep_Copy [OF assms] by (simp add: wc_Sha256Copy_def)
  show ?thesis
    unfolding wc_Sha256GetHash_def wc_Sha256Copy_def
  proof (rule clean_malloc, goal_cases)
    case (1 h')
    show ?case
      by (auto simp: wc_Sha256Free_def split_def
          intro!: clean_bind [OF clean_wc_Sha256Final [OF rep]] clean_free clean_ret clean_fail)
  qed (auto intro!: clean_fail)
qed

theorem sha256_get_hash_correct_witness:
  "\<exists>h'. run_state (wc_Sha256GetHash (InitSha256 sha256_zeroed) (zeros 32)) (env0 ()) =
     ((0, sha256 []), h') \<and> hp_live h' = 0 \<and> list_all wiped (hp_freed h')"
  using clean_env0 [OF sha256_get_hash_correct [OF sha_rep_Init, of "env0 ()" sha256_zeroed "zeros 32"]]
  by auto

end
