(* ===== verification/Hmac.thy ===== *)
theory Hmac
  imports Sha256
begin

text \<open>
  \<open>wolfcrypt/src/hmac.c\<close>: HMAC and HKDF.  SHA-256 is the only hash the build compiles
  in, so the union of hash contexts is the SHA-256 context and every other type falls
  into the \<open>default\<close> branches.  \<open>ipad\<close>, \<open>opad\<close> and \<open>innerHash\<close> are word arrays that the
  code only touches as bytes, and are kept as bytes.  The fields that only a crypto
  device reads (\<open>keyRaw\<close>, \<open>keyLen\<close>, the device identifier) are left out.

  The second half states HMAC as FIPS 198-1 does and HKDF as RFC 5869 does, and proves
  that the code computes them.
\<close>

section \<open>The code\<close>

definition WC_HASH_TYPE_NONE :: nat where [simp]: "WC_HASH_TYPE_NONE = 0"
definition WC_SHA256 :: nat where "WC_SHA256 = 6"
definition WC_MAX_DIGEST_SIZE :: nat where [simp]: "WC_MAX_DIGEST_SIZE = 32"
definition HMAC_FIPS_MIN_KEY :: nat where "HMAC_FIPS_MIN_KEY = 14"
definition IPAD :: byte where "IPAD = 0x36"
definition OPAD :: byte where "OPAD = 0x5C"

text \<open>MD5, SHA-1, the SHA-2 family, SHA-512/t and SHA-3: the types the guards name.\<close>

definition known_hash_type :: "nat \<Rightarrow> bool" where
  "known_hash_type type \<longleftrightarrow>
     type = 3 \<or> type = 4 \<or> type = 16 \<or> type = 17 \<or> type = 5 \<or> type = WC_SHA256 \<or>
     type = 7 \<or> type = 8 \<or> type = 10 \<or> type = 11 \<or> type = 12 \<or> type = 13"

record Hmac =
  hm_hash :: wc_Sha256
  ipad :: "byte list"
  opad :: "byte list"
  innerHash :: "byte list"
  macType :: nat
  innerHashKeyed :: nat

definition hmac_zeroed :: Hmac where
  "hmac_zeroed = \<lparr>hm_hash = sha256_zeroed, ipad = zeros 64, opad = zeros 64,
     innerHash = zeros 32, macType = 0, innerHashKeyed = 0\<rparr>"

definition wc_HmacSizeByType :: "nat \<Rightarrow> int" where
  "wc_HmacSizeByType type =
     (if \<not> known_hash_type type then BAD_FUNC_ARG
      else if type = WC_SHA256 then int WC_SHA256_DIGEST_SIZE
      else BAD_FUNC_ARG)"

definition HmacKeyInitHash :: "wc_Sha256 \<Rightarrow> nat \<Rightarrow> int \<times> wc_Sha256" where
  "HmacKeyInitHash hash type =
     (if type = WC_SHA256 then wc_InitSha256_ex hash else (BAD_FUNC_ARG, hash))"

definition InitHmac :: "Hmac \<Rightarrow> nat \<Rightarrow> int \<times> Hmac" where
  "InitHmac hmac type =
     (let (r, hash) = HmacKeyInitHash (hm_hash hmac) type in (r, hmac\<lparr>hm_hash := hash\<rparr>))"

definition HmacKeyCopyHash :: "nat \<Rightarrow> wc_Sha256 \<Rightarrow> wc_Sha256 \<Rightarrow> int \<times> wc_Sha256" where
  "HmacKeyCopyHash type src dst =
     (if type = WC_SHA256 then wc_Sha256Copy src dst else (BAD_FUNC_ARG, dst))"

definition HmacKeyFreeHash :: "nat \<Rightarrow> wc_Sha256 \<Rightarrow> wc_Sha256" where
  "HmacKeyFreeHash type hash = (if type = WC_SHA256 then wc_Sha256Free hash else hash)"

definition wc_HmacCopy :: "Hmac \<Rightarrow> Hmac \<Rightarrow> int \<times> Hmac" where
  "wc_HmacCopy src dst =
     (let (r, hash) = HmacKeyCopyHash (macType src) (hm_hash src) sha256_zeroed
      in if r \<noteq> 0 then (r, hmac_zeroed) else (0, src\<lparr>hm_hash := hash\<rparr>))"

definition HmacKeyHashUpdate :: "nat \<Rightarrow> wc_Sha256 \<Rightarrow> byte list \<Rightarrow> ('w, int \<times> wc_Sha256) cmd" where
  "HmacKeyHashUpdate type hash pad =
     (if type = WC_SHA256 then wc_Sha256Update hash (Buf (take WC_SHA256_BLOCK_SIZE pad))
      else ret (BAD_FUNC_ARG, hash))"

definition wc_HmacFree :: "Hmac \<Rightarrow> Hmac" where
  "wc_HmacFree hmac = hmac_zeroed"

text \<open>The key block: the key itself, or its digest when it is longer than a block.
  The outcome is the return code, the context, and the length of what is in \<open>ip\<close>.\<close>

definition HmacSetKey_block :: "Hmac \<Rightarrow> cbuf \<Rightarrow> ('w, int \<times> Hmac \<times> nat) cmd" where
  "HmacSetKey_block hmac key =
     (if csize key \<le> WC_SHA256_BLOCK_SIZE
      then ret (0, if is_null key then hmac else hmac\<lparr>ipad := blit (ipad hmac) 0 (cbytes key)\<rparr>, csize key)
      else do {
        (r, h1) \<leftarrow> wc_Sha256Update (hm_hash hmac) key;
        if r \<noteq> 0 then ret (r, hmac\<lparr>hm_hash := h1\<rparr>, csize key)
        else do {
          (r2, h2, ip) \<leftarrow> wc_Sha256Final h1 (ipad hmac);
          ret (r2, hmac\<lparr>hm_hash := h2, ipad := ip\<rparr>, if r2 \<noteq> 0 then csize key else WC_SHA256_DIGEST_SIZE)
        }
      })"

definition HmacSetKey_pads :: "Hmac \<Rightarrow> nat \<Rightarrow> Hmac" where
  "HmacSetKey_pads hmac len =
     (let ip = (if len < WC_SHA256_BLOCK_SIZE
                then blit (ipad hmac) len (zeros (WC_SHA256_BLOCK_SIZE - len)) else ipad hmac)
      in hmac\<lparr>ipad := map (\<lambda>b. b XOR IPAD) (take WC_SHA256_BLOCK_SIZE ip) @ drop WC_SHA256_BLOCK_SIZE ip,
              opad := map (\<lambda>b. b XOR OPAD) (take WC_SHA256_BLOCK_SIZE ip) @ drop WC_SHA256_BLOCK_SIZE (opad hmac)\<rparr>)"

definition wc_HmacSetKey_ex :: "Hmac \<Rightarrow> nat \<Rightarrow> cbuf \<Rightarrow> bool \<Rightarrow> ('w, int \<times> Hmac) cmd" where
  "wc_HmacSetKey_ex hmac type key allowFlag =
     (if (is_null key \<and> csize key \<noteq> 0) \<or> \<not> known_hash_type type then ret (BAD_FUNC_ARG, hmac)
      else do {
        let h0 = (if macType hmac \<noteq> WC_HASH_TYPE_NONE then wc_HmacFree hmac else hmac);
        let h1 = h0\<lparr>innerHashKeyed := 0, macType := type\<rparr>;
        let (r, h2) = InitHmac h1 type;
        if r \<noteq> 0 then ret (r, h2)
        else if \<not> allowFlag \<and> csize key < HMAC_FIPS_MIN_KEY then ret (HMAC_MIN_KEYLEN_E, h2)
        else do {
          (r2, h3, len) \<leftarrow> HmacSetKey_block h2 key;
          if r2 = 0 then ret (0, HmacSetKey_pads h3 len) else ret (r2, h3)
        }
      })"

definition wc_HmacSetKey :: "Hmac \<Rightarrow> nat \<Rightarrow> cbuf \<Rightarrow> ('w, int \<times> Hmac) cmd" where
  "wc_HmacSetKey hmac type key = wc_HmacSetKey_ex hmac type key True"

text \<open>Key the inner hash once, before the first byte of the message.\<close>

definition HmacKeyInner :: "Hmac \<Rightarrow> ('w, int \<times> Hmac) cmd" where
  "HmacKeyInner hmac =
     (if innerHashKeyed hmac = 0 then do {
        (r, hash) \<leftarrow> HmacKeyHashUpdate (macType hmac) (hm_hash hmac) (ipad hmac);
        if r \<noteq> 0 then ret (r, hmac\<lparr>hm_hash := hash\<rparr>)
        else ret (0, hmac\<lparr>hm_hash := hash, innerHashKeyed := 1\<rparr>)
      }
      else ret (0, hmac))"

definition wc_HmacUpdate :: "Hmac \<Rightarrow> cbuf \<Rightarrow> ('w, int \<times> Hmac) cmd" where
  "wc_HmacUpdate hmac msg =
     (if is_null msg \<and> csize msg > 0 then ret (BAD_FUNC_ARG, hmac)
      else if csize msg = 0 then ret (0, hmac)
      else do {
        (r, h1) \<leftarrow> HmacKeyInner hmac;
        if r \<noteq> 0 then ret (r, h1)
        else if macType h1 = WC_SHA256 then do {
          (r2, hash) \<leftarrow> wc_Sha256Update (hm_hash h1) msg;
          ret (r2, h1\<lparr>hm_hash := hash\<rparr>)
        }
        else ret (BAD_FUNC_ARG, h1)
      })"

text \<open>The \<open>WC_SHA256\<close> case of \<open>wc_HmacFinal\<close>: four calls, each leaving the switch on error.\<close>

definition HmacFinal_sha256 :: "Hmac \<Rightarrow> byte list \<Rightarrow> ('w, int \<times> Hmac \<times> byte list) cmd" where
  "HmacFinal_sha256 hmac hash = do {
     (r1, s1, inner) \<leftarrow> wc_Sha256Final (hm_hash hmac) (innerHash hmac);
     let h1 = hmac\<lparr>hm_hash := s1, innerHash := inner\<rparr>;
     if r1 \<noteq> 0 then ret (r1, h1, hash)
     else do {
       (r2, s2) \<leftarrow> wc_Sha256Update s1 (Buf (take WC_SHA256_BLOCK_SIZE (opad h1)));
       if r2 \<noteq> 0 then ret (r2, h1\<lparr>hm_hash := s2\<rparr>, hash)
       else do {
         (r3, s3) \<leftarrow> wc_Sha256Update s2 (Buf (take WC_SHA256_DIGEST_SIZE (innerHash h1)));
         if r3 \<noteq> 0 then ret (r3, h1\<lparr>hm_hash := s3\<rparr>, hash)
         else do {
           (r4, s4, hash') \<leftarrow> wc_Sha256Final s3 hash;
           ret (r4, h1\<lparr>hm_hash := s4\<rparr>, hash')
         }
       }
     }
   }"

definition wc_HmacFinal :: "Hmac \<Rightarrow> byte list \<Rightarrow> ('w, int \<times> Hmac \<times> byte list) cmd" where
  "wc_HmacFinal hmac hash = do {
     (r, h1) \<leftarrow> HmacKeyInner hmac;
     if r \<noteq> 0 then ret (r, h1, hash)
     else do {
       (r2, h2, hash') \<leftarrow>
         (if macType h1 = WC_SHA256 then HmacFinal_sha256 h1 hash
          else ret (BAD_FUNC_ARG, h1, hash));
       ret (r2, if r2 = 0 then h2\<lparr>innerHashKeyed := 0\<rparr> else h2, hash')
     }
   }"

definition wc_HmacInit :: "Hmac \<Rightarrow> int \<times> Hmac" where
  "wc_HmacInit hmac = (0, hmac_zeroed\<lparr>macType := WC_HASH_TYPE_NONE\<rparr>)"

definition wolfSSL_GetHmacMaxSize :: int where
  "wolfSSL_GetHmacMaxSize = int WC_MAX_DIGEST_SIZE"

section \<open>HKDF\<close>

text \<open>\<open>out\<close> is the caller's buffer; a heap-allocated \<open>Hmac\<close> is logged as wiped when it
  equals the zeroed structure.\<close>

definition free_hmac :: "Hmac \<Rightarrow> ('w, unit) cmd" where
  "free_hmac hmac = XFREE (Freed_obj ''Hmac'' (hmac = hmac_zeroed))"

definition wc_HKDF_Extract_ex :: "nat \<Rightarrow> cbuf \<Rightarrow> cbuf \<Rightarrow> byte list \<Rightarrow> ('w, int \<times> byte list) cmd" where
  "wc_HKDF_Extract_ex type salt inKey out =
     (if is_null inKey \<and> csize inKey > 0 then ret (BAD_FUNC_ARG, out)
      else if wc_HmacSizeByType type < 0 then ret (wc_HmacSizeByType type, out)
      else do {
        let hashSz = nat (wc_HmacSizeByType type);
        ok \<leftarrow> XMALLOC;
        if \<not> ok then ret (MEMORY_E, out)
        else do {
          let localSalt = (if is_null salt then Buf (zeros hashSz) else salt);
          let (r0, hm0) = wc_HmacInit hmac_zeroed;
          (r, hm, out') \<leftarrow>
            (if r0 = 0 then do {
               (r1, hm1) \<leftarrow> wc_HmacSetKey hm0 type localSalt;
               (r2, hm2) \<leftarrow> (if r1 = 0 then wc_HmacUpdate hm1 inKey else ret (r1, hm1));
               (r3, hm3, out3) \<leftarrow> (if r2 = 0 then wc_HmacFinal hm2 out else ret (r2, hm2, out));
               ret (r3, wc_HmacFree hm3, out3)
             }
             else ret (r0, hm0, out));
          free_hmac hm;
          ret (r, out')
        }
      })"

definition wc_HKDF_Extract :: "nat \<Rightarrow> cbuf \<Rightarrow> cbuf \<Rightarrow> byte list \<Rightarrow> ('w, int \<times> byte list) cmd" where
  "wc_HKDF_Extract type salt inKey out = wc_HKDF_Extract_ex type salt inKey out"

text \<open>One block \<open>T(n)\<close>: set the key, hash \<open>tmp | info | n\<close>, finish into \<open>tmp\<close>.\<close>

definition HKDF_Expand_block ::
  "nat \<Rightarrow> cbuf \<Rightarrow> cbuf \<Rightarrow> nat \<Rightarrow> byte \<Rightarrow> Hmac \<Rightarrow> byte list \<Rightarrow> ('w, int \<times> Hmac \<times> byte list) cmd" where
  "HKDF_Expand_block type inKey info hashSz n hm tmp = do {
     let tmpSz = (if n = 1 then 0 else hashSz);
     (r1, hm1) \<leftarrow> wc_HmacSetKey hm type inKey;
     if r1 \<noteq> 0 then ret (r1, hm1, tmp) else do {
     (r2, hm2) \<leftarrow> wc_HmacUpdate hm1 (Buf (take tmpSz tmp));
     if r2 \<noteq> 0 then ret (r2, hm2, tmp) else do {
     (r3, hm3) \<leftarrow> wc_HmacUpdate hm2 info;
     if r3 \<noteq> 0 then ret (r3, hm3, tmp) else do {
     (r4, hm4) \<leftarrow> wc_HmacUpdate hm3 (Buf [n]);
     if r4 \<noteq> 0 then ret (r4, hm4, tmp) else wc_HmacFinal hm4 tmp
     } } }
   }"

function HKDF_Expand_loop ::
  "nat \<Rightarrow> cbuf \<Rightarrow> cbuf \<Rightarrow> nat \<Rightarrow> nat \<Rightarrow> nat \<Rightarrow> byte \<Rightarrow> Hmac \<Rightarrow> byte list \<Rightarrow> byte list \<Rightarrow>
   ('w, int \<times> Hmac \<times> byte list) cmd" where
  "HKDF_Expand_loop type inKey info hashSz outSz outIdx n hm tmp out =
     (if outIdx < outSz \<and> 0 < hashSz then do {
        (r, hm', tmp') \<leftarrow> HKDF_Expand_block type inKey info hashSz n hm tmp;
        if r \<noteq> 0 then ret (r, hm', out)
        else do {
          let left = min (outSz - outIdx) hashSz;
          HKDF_Expand_loop type inKey info hashSz outSz (outIdx + left) (n + 1) hm' tmp'
            (blit out outIdx (take left tmp'))
        }
      }
      else ret (0, hm, out))"
  by pat_completeness auto
termination
  by (relation "measure (\<lambda>(_, _, _, _, outSz, outIdx, _). outSz - outIdx)") auto

declare HKDF_Expand_loop.simps [simp del]

definition wc_HKDF_Expand_ex ::
  "nat \<Rightarrow> cbuf \<Rightarrow> cbuf \<Rightarrow> byte list \<Rightarrow> nat \<Rightarrow> ('w, int \<times> byte list) cmd" where
  "wc_HKDF_Expand_ex type inKey info out outSz =
     (if is_null inKey \<and> csize inKey > 0 then ret (BAD_FUNC_ARG, out)
      else if wc_HmacSizeByType type < 0 then ret (wc_HmacSizeByType type, out)
      else if wc_HmacSizeByType type = 0 then ret (BAD_FUNC_ARG, out)
      else do {
        let hashSz = nat (wc_HmacSizeByType type);
        if outSz div hashSz + of_bool (outSz mod hashSz \<noteq> 0) > 255 then ret (BAD_FUNC_ARG, out)
        else do {
          ok \<leftarrow> XMALLOC;
          if \<not> ok then ret (MEMORY_E, out)
          else do {
            let (r0, hm0) = wc_HmacInit hmac_zeroed;
            if r0 \<noteq> 0 then do { free_hmac hm0; ret (r0, out) }
            else do {
              (r, hm, out') \<leftarrow>
                HKDF_Expand_loop type inKey info hashSz outSz 0 1 hm0 (zeros WC_MAX_DIGEST_SIZE) out;
              free_hmac (wc_HmacFree hm);
              ret (r, out')
            }
          }
        }
      })"

definition wc_HKDF_Expand :: "nat \<Rightarrow> cbuf \<Rightarrow> cbuf \<Rightarrow> byte list \<Rightarrow> nat \<Rightarrow> ('w, int \<times> byte list) cmd" where
  "wc_HKDF_Expand type inKey info out outSz = wc_HKDF_Expand_ex type inKey info out outSz"

definition wc_HKDF_ex ::
  "nat \<Rightarrow> cbuf \<Rightarrow> cbuf \<Rightarrow> cbuf \<Rightarrow> byte list \<Rightarrow> nat \<Rightarrow> byte list \<Rightarrow> ('w, int \<times> byte list) cmd" where
  "wc_HKDF_ex type inKey salt info out outSz prk =
     (if wc_HmacSizeByType type < 0 then ret (wc_HmacSizeByType type, out)
      else do {
        let hashSz = nat (wc_HmacSizeByType type);
        (r, prk') \<leftarrow> wc_HKDF_Extract_ex type salt inKey prk;
        if r = 0 then wc_HKDF_Expand_ex type (Buf (take hashSz prk')) info out outSz
        else ret (r, out)
      })"

definition wc_HKDF ::
  "nat \<Rightarrow> cbuf \<Rightarrow> cbuf \<Rightarrow> cbuf \<Rightarrow> byte list \<Rightarrow> nat \<Rightarrow> byte list \<Rightarrow> ('w, int \<times> byte list) cmd" where
  "wc_HKDF type inKey salt info out outSz prk = wc_HKDF_ex type inKey salt info out outSz prk"

section \<open>HMAC and HKDF as the standards state them\<close>

definition key_block :: "byte list \<Rightarrow> byte list" where
  "key_block key =
     (if length key \<le> 64 then key @ zeros (64 - length key) else sha256 key @ zeros 32)"

definition hmac :: "byte list \<Rightarrow> byte list \<Rightarrow> byte list" where
  "hmac key m =
     (let k0 = key_block key
      in sha256 (map (\<lambda>b. b XOR OPAD) k0 @ sha256 (map (\<lambda>b. b XOR IPAD) k0 @ m)))"

text \<open>RFC 5869: an absent salt is a string of zeros of the hash length.\<close>

definition hkdf_extract :: "byte list option \<Rightarrow> byte list \<Rightarrow> byte list" where
  "hkdf_extract salt ikm = hmac (case salt of None \<Rightarrow> zeros 32 | Some s \<Rightarrow> s) ikm"

fun hkdf_T :: "byte list \<Rightarrow> byte list \<Rightarrow> nat \<Rightarrow> byte list" where
  "hkdf_T prk info 0 = []"
| "hkdf_T prk info (Suc i) = hmac prk (hkdf_T prk info i @ info @ [of_nat (Suc i)])"

definition hkdf_expand :: "byte list \<Rightarrow> byte list \<Rightarrow> nat \<Rightarrow> byte list" where
  "hkdf_expand prk info len =
     take len (concat (map (hkdf_T prk info) [1..<Suc ((len + 31) div 32)]))"

definition csalt :: "cbuf \<Rightarrow> byte list option" where
  "csalt salt = (if is_null salt then None else Some (cbytes salt))"

section \<open>HMAC\<close>

lemma length_key_block [simp]: "length (key_block key) = 64"
  by (simp add: key_block_def)

lemma length_hmac [simp]: "length (hmac key m) = 32"
  by (simp add: hmac_def Let_def)

definition hmac_wf :: "Hmac \<Rightarrow> bool" where
  "hmac_wf hm \<longleftrightarrow> length (ipad hm) = 64 \<and> length (opad hm) = 64 \<and> length (innerHash hm) = 32"

text \<open>A context keyed with the block \<open>k0\<close> that has taken in the message \<open>m\<close>.\<close>

definition hmac_rep :: "Hmac \<Rightarrow> byte list \<Rightarrow> byte list \<Rightarrow> bool" where
  "hmac_rep hm k0 m \<longleftrightarrow> hmac_wf hm \<and> macType hm = WC_SHA256 \<and> length k0 = 64 \<and>
     ipad hm = map (\<lambda>b. b XOR IPAD) k0 \<and> opad hm = map (\<lambda>b. b XOR OPAD) k0 \<and>
     (if innerHashKeyed hm = 0 then m = [] \<and> sha_rep (hm_hash hm) []
      else sha_rep (hm_hash hm) (ipad hm @ m))"

text \<open>A (pointer, length) pair that a caller may pass.\<close>

definition cbuf_ok :: "cbuf \<Rightarrow> bool" where
  "cbuf_ok b \<longleftrightarrow> (is_null b \<longrightarrow> csize b = 0) \<and> csize b < 2 ^ 32"

lemma cbuf_ok_Buf [simp]: "cbuf_ok (Buf bs) \<longleftrightarrow> length bs < 2 ^ 32"
  by (simp add: cbuf_ok_def)

lemma length_cbytes: "cbuf_ok b \<Longrightarrow> length (cbytes b) = csize b"
  by (cases b) (auto simp: cbuf_ok_def)

lemma hmac_wf_zeroed [simp]: "hmac_wf hmac_zeroed"
  by (simp add: hmac_wf_def hmac_zeroed_def)

lemma clean_wc_Update_cbuf:
  fixes h :: "'w env"
  assumes "sha_rep sha m" "cbuf_ok data"
  shows "clean wiped 0 h (wc_Sha256Update sha data) (succeeds (\<lambda>sha'. sha_rep sha' (m @ cbytes data)))"
proof (cases data)
  case (Null n)
  then show ?thesis
    using assms by (auto simp: cbuf_ok_def wc_Sha256Update_def intro!: clean_ret)
next
  case (Buf bs)
  then show ?thesis
    using assms clean_wc_Sha256Update [of sha m bs h] by simp
qed

lemma clean_SetKey_block:
  fixes h :: "'w env"
  assumes "hmac_wf hm" "sha_rep (hm_hash hm) []" "cbuf_ok key"
  shows "clean wiped 0 h (HmacSetKey_block hm key) (succeeds (\<lambda>(hm', len).
     hmac_wf hm' \<and> sha_rep (hm_hash hm') [] \<and> macType hm' = macType hm \<and>
     innerHashKeyed hm' = innerHashKeyed hm \<and> len \<le> 64 \<and>
     take len (ipad hm') @ zeros (64 - len) = key_block (cbytes key)))"
proof (cases "csize key \<le> 64")
  case True
  then have "length (cbytes key) \<le> 64" using assms length_cbytes by simp
  then have "take (csize key) (blit (ipad hm) 0 (cbytes key)) = cbytes key"
    using assms take_blit [of 0 "cbytes key" "ipad hm"] by (simp add: hmac_wf_def length_cbytes)
  with True assms length_cbytes [OF assms(3)] show ?thesis
    by (cases key) (auto simp: HmacSetKey_block_def hmac_wf_def key_block_def cbuf_ok_def intro!: clean_ret)
next
  case False
  then have nn: "\<not> is_null key" using assms(3) by (auto simp: cbuf_ok_def)
  have len: "length (blit (ipad hm) 0 (sha256 (cbytes key))) = 64"
    "take 32 (blit (ipad hm) 0 (sha256 (cbytes key))) = sha256 (cbytes key)"
    using assms(1) take_blit [of 0 "sha256 (cbytes key)" "ipad hm"] by (simp_all add: hmac_wf_def)
  show ?thesis
    using False assms len length_cbytes [OF assms(3)]
    by (auto simp: HmacSetKey_block_def hmac_wf_def key_block_def
        intro!: clean_bind [OF clean_wc_Update_cbuf [OF assms(2,3)]]
          clean_bind [OF clean_wc_Sha256Final] clean_ret clean_fail)
qed

lemma SetKey_pads:
  assumes "hmac_wf hm" "len \<le> 64" "take len (ipad hm) @ zeros (64 - len) = k0"
  shows "HmacSetKey_pads hm len =
     hm\<lparr>ipad := map (\<lambda>b. b XOR IPAD) k0, opad := map (\<lambda>b. b XOR OPAD) k0\<rparr>"
proof -
  have "(if len < 64 then blit (ipad hm) len (zeros (64 - len)) else ipad hm) = k0"
    using assms by (auto simp: hmac_wf_def blit_to_end)
  moreover have "length k0 = 64" using assms by (auto simp: hmac_wf_def)
  ultimately show ?thesis
    using assms(1) by (cases "len < 64") (auto simp: HmacSetKey_pads_def Let_def hmac_wf_def)
qed

lemma clean_SetKey:
  fixes h :: "'w env"
  assumes "hmac_wf hm" "cbuf_ok key"
  shows "clean wiped 0 h (wc_HmacSetKey hm WC_SHA256 key)
     (succeeds (\<lambda>hm'. hmac_rep hm' (key_block (cbytes key)) []))"
proof -
  define h0 where "h0 = (if macType hm \<noteq> 0 then hmac_zeroed else hm)"
  define h2 where "h2 = h0\<lparr>innerHashKeyed := 0, macType := WC_SHA256, hm_hash := InitSha256 (hm_hash h0)\<rparr>"
  have h2: "hmac_wf h2" "sha_rep (hm_hash h2) []" "macType h2 = WC_SHA256" "innerHashKeyed h2 = 0"
    using assms(1) hmac_wf_zeroed by (auto simp: h2_def h0_def hmac_wf_def sha_rep_Init)
  have step: "wc_HmacSetKey hm WC_SHA256 key = State_Monad.bind (HmacSetKey_block h2 key)
      (\<lambda>(r2, h3, len). if r2 = 0 then ret (0, HmacSetKey_pads h3 len) else ret (r2, h3))"
    using assms(2)
    by (auto simp: wc_HmacSetKey_def wc_HmacSetKey_ex_def known_hash_type_def InitHmac_def
        HmacKeyInitHash_def wc_InitSha256_ex_def wc_HmacFree_def h2_def h0_def cbuf_ok_def Let_def)
  show ?thesis
    unfolding step
    using h2 by (auto simp: SetKey_pads hmac_rep_def hmac_wf_def
        intro!: clean_bind [OF clean_SetKey_block [OF h2(1,2) assms(2)]] clean_ret clean_fail)
qed

lemma clean_KeyInner:
  fixes h :: "'w env"
  assumes "hmac_rep hm k0 m"
  shows "clean wiped 0 h (HmacKeyInner hm)
     (succeeds (\<lambda>hm'. hmac_rep hm' k0 m \<and> innerHashKeyed hm' \<noteq> 0))"
proof (cases "innerHashKeyed hm = 0")
  case True
  have "clean wiped 0 h (HmacKeyHashUpdate (macType hm) (hm_hash hm) (ipad hm))
     (succeeds (\<lambda>s. sha_rep s (ipad hm)))"
    using assms True clean_wc_Sha256Update [of "hm_hash hm" "[]" "ipad hm" h]
    by (simp add: HmacKeyHashUpdate_def hmac_rep_def hmac_wf_def)
  with True assms show ?thesis
    unfolding HmacKeyInner_def
    by (auto simp: hmac_rep_def hmac_wf_def intro!: clean_bind clean_ret clean_fail)
next
  case False
  with assms show ?thesis
    by (simp add: HmacKeyInner_def clean_ret)
qed

lemma clean_HmacUpdate:
  fixes h :: "'w env"
  assumes "hmac_rep hm k0 m" "cbuf_ok msg"
  shows "clean wiped 0 h (wc_HmacUpdate hm msg) (succeeds (\<lambda>hm'. hmac_rep hm' k0 (m @ cbytes msg)))"
proof (cases "csize msg = 0")
  case True
  then have "cbytes msg = []" using length_cbytes [OF assms(2)] by simp
  with True assms(1) show ?thesis
    by (auto simp: wc_HmacUpdate_def intro!: clean_ret)
next
  case False
  then have nn: "\<not> is_null msg" using assms(2) by (auto simp: cbuf_ok_def)
  have upd: "clean wiped 0 h' (State_Monad.bind (wc_Sha256Update (hm_hash hm') msg)
        (\<lambda>(r2, hash). ret (r2, hm'\<lparr>hm_hash := hash\<rparr>)))
      (succeeds (\<lambda>hm''. hmac_rep hm'' k0 (m @ cbytes msg)))"
    if "hmac_rep hm' k0 m" "innerHashKeyed hm' \<noteq> 0" for hm' and h' :: "'w env"
  proof -
    have rep: "sha_rep (hm_hash hm') (ipad hm' @ m)"
      using that by (auto simp: hmac_rep_def)
    show ?thesis
      using that
      by (auto simp: hmac_rep_def hmac_wf_def
          intro!: clean_bind [OF clean_wc_Update_cbuf [OF rep assms(2)]] clean_ret clean_fail)
  qed
  show ?thesis
    unfolding wc_HmacUpdate_def
    using False nn upd
    by (auto simp: hmac_rep_def [of _ _ m] intro!: clean_bind [OF clean_KeyInner [OF assms(1)]] clean_fail)
qed

lemma clean_HmacFinal:
  fixes h :: "'w env"
  assumes "hmac_rep hm k0 m"
  shows "clean wiped 0 h (wc_HmacFinal hm hash) (succeeds (\<lambda>(hm', hash').
     hmac_wf hm' \<and> macType hm' = WC_SHA256 \<and>
     hash' = blit hash 0 (sha256 (map (\<lambda>b. b XOR OPAD) k0 @ sha256 (map (\<lambda>b. b XOR IPAD) k0 @ m)))))"
proof -
  have fin: "clean wiped 0 h' (HmacFinal_sha256 hm' hash) (succeeds (\<lambda>(hm'', hash').
     hmac_wf hm'' \<and> macType hm'' = WC_SHA256 \<and>
     hash' = blit hash 0 (sha256 (map (\<lambda>b. b XOR OPAD) k0 @ sha256 (map (\<lambda>b. b XOR IPAD) k0 @ m)))))"
    if "hmac_rep hm' k0 m" "innerHashKeyed hm' \<noteq> 0" for hm' and h' :: "'w env"
  proof -
    have rep: "sha_rep (hm_hash hm') (map (\<lambda>b. b XOR IPAD) k0 @ m)" and wf: "length (innerHash hm') = 32"
      "length (opad hm') = 64" "opad hm' = map (\<lambda>b. b XOR OPAD) k0" "macType hm' = WC_SHA256" "hmac_wf hm'"
      using that by (auto simp: hmac_rep_def hmac_wf_def)
    have t: "take 64 (opad hm') = map (\<lambda>b. b XOR OPAD) k0"
      "take 32 (blit (innerHash hm') 0 x) = x" if "length x = 32" for x :: "byte list"
      using wf that by simp_all
    show ?thesis
      unfolding HmacFinal_sha256_def Let_def
      apply (rule clean_then2 [OF clean_wc_Sha256Final [OF rep]], clarify)
      apply (rule clean_then [OF clean_wc_Sha256Update], assumption, simp)
      apply (rule clean_then [OF clean_wc_Sha256Update], assumption, simp)
      apply (rule clean_map2 [OF clean_wc_Sha256Final], assumption)
      using wf t by (simp add: hmac_wf_def)
  qed
  show ?thesis
    unfolding wc_HmacFinal_def
    by (auto simp: hmac_wf_def hmac_rep_def [of _ k0 m]
        intro!: clean_bind [OF clean_KeyInner [OF assms]] clean_bind [OF fin] clean_ret clean_fail)
qed

section \<open>HKDF\<close>

lemma HmacSize_sha256 [simp]: "wc_HmacSizeByType WC_SHA256 = 32"
  by (simp add: wc_HmacSizeByType_def known_hash_type_def WC_SHA256_def)

lemma HmacInit_zeroed: "wc_HmacInit hm = (0, hmac_zeroed)"
  by (simp add: wc_HmacInit_def hmac_zeroed_def)

lemma clean_Extract:
  fixes h :: "'w env"
  assumes "is_null salt \<or> cbuf_ok salt" "cbuf_ok ikm"
  shows "clean wiped 0 h (wc_HKDF_Extract WC_SHA256 salt ikm out)
     (succeeds (\<lambda>out'. out' = blit out 0 (hkdf_extract (csalt salt) (cbytes ikm))))"
proof -
  let ?s = "if is_null salt then Buf (zeros 32) else salt"
  have s: "cbuf_ok ?s" using assms(1) by auto
  have nn: "\<not> (is_null ikm \<and> 0 < csize ikm)" using assms(2) by (auto simp: cbuf_ok_def)
  have hm: "hkdf_extract (csalt salt) (cbytes ikm) = hmac (cbytes ?s) (cbytes ikm)"
    by (simp add: hkdf_extract_def csalt_def)
  have "clean wiped 0 h (wc_HKDF_Extract WC_SHA256 salt ikm out)
     (succeeds (\<lambda>out'. out' = blit out 0 (hmac (cbytes ?s) (cbytes ikm))))"
    unfolding wc_HKDF_Extract_def wc_HKDF_Extract_ex_def HmacInit_zeroed Let_def HmacSize_sha256 nat_numeral
      hmac_def [of "cbytes ?s"]
    using nn s
    by (auto simp: free_hmac_def wc_HmacFree_def split del: if_split
        intro!: clean_malloc clean_bind [OF clean_SetKey [OF _ s]]
          clean_bind [OF clean_HmacUpdate [where m = "[]", simplified append_Nil, OF _ assms(2)]]
          clean_bind [OF clean_HmacFinal] clean_free clean_ret clean_fail) simp_all
  then show ?thesis by (simp add: hm)
qed

lemma clean_Expand_block:
  fixes h :: "'w env"
  assumes "hmac_wf hm" "cbuf_ok key" "cbuf_ok info" "length tmp = 32"
  shows "clean wiped 0 h (HKDF_Expand_block WC_SHA256 key info 32 n hm tmp) (succeeds (\<lambda>(hm', tmp').
     hmac_wf hm' \<and> tmp' = hmac (cbytes key) ((if n = 1 then [] else tmp) @ cbytes info @ [n])))"
proof -
  have t: "take (if n = 1 then 0 else 32) tmp = (if n = 1 then [] else tmp)"
    using assms(4) by simp
  show ?thesis
    unfolding HKDF_Expand_block_def Let_def t
    apply (rule clean_then [OF clean_SetKey [OF assms(1,2)]])
    apply (rule clean_then [OF clean_HmacUpdate], assumption, simp add: assms(4))
    apply (rule clean_then [OF clean_HmacUpdate], assumption, rule assms(3))
    apply (rule clean_then [OF clean_HmacUpdate], assumption, simp)
    apply (rule clean_conseq [OF clean_HmacFinal], assumption)
    using assms(4) by (auto simp: hmac_def Let_def)
qed

lemma length_hkdf_T: "0 < i \<Longrightarrow> length (hkdf_T prk info i) = 32"
  by (cases i) simp_all

definition okm :: "byte list \<Rightarrow> byte list \<Rightarrow> nat \<Rightarrow> byte list" where
  "okm prk info k = concat (map (hkdf_T prk info) [1..<Suc k])"

lemma okm_Suc: "okm prk info (Suc k) = okm prk info k @ hkdf_T prk info (Suc k)"
  by (simp add: okm_def)

lemma length_okm [simp]: "length (okm prk info k) = 32 * k"
  by (induction k) (simp_all add: okm_Suc, simp add: okm_def)

lemma take_okm: "j \<le> k \<Longrightarrow> take (32 * j) (okm prk info k) = okm prk info j"
proof (induction k)
  case (Suc k)
  then show ?case by (cases "j = Suc k") (simp_all add: okm_Suc)
qed (simp add: okm_def)

lemma blit_blit:
  "length a + length b \<le> length dst \<Longrightarrow> blit (blit dst 0 a) (length a) b = blit dst 0 (a @ b)"
  by (simp add: blit_def add.commute)

lemma hkdf_expand_okm:
  assumes "len \<le> 32 * k" "32 * k < len + 32"
  shows "hkdf_expand prk info len = take len (okm prk info k)"
proof -
  have "(len + 31) div 32 = k" using assms by linarith
  then show ?thesis by (simp add: hkdf_expand_def okm_def)
qed

lemma of_nat_byte_1_iff: "k < 255 \<Longrightarrow> (of_nat (Suc k) :: byte) = 1 \<longleftrightarrow> k = 0"
  by (simp add: word_unat_eq_iff unat_of_nat del: of_nat_Suc)

lemma clean_Expand_loop:
  fixes h :: "'w env"
  assumes key: "cbuf_ok key" "cbuf_ok info" and sz: "outSz \<le> 32 * 255" "outSz \<le> length out0"
    and "hmac_wf hm" "length tmp = 32" "32 * k < outSz + 32" "outSz \<le> 32 * (k + d)"
    and "k = 0 \<or> tmp = hkdf_T (cbytes key) (cbytes info) k"
    and "out = blit out0 0 (take outSz (okm (cbytes key) (cbytes info) k))"
  shows "clean wiped 0 h (HKDF_Expand_loop WC_SHA256 key info 32 outSz (min outSz (32 * k)) (of_nat (Suc k)) hm tmp out)
    (succeeds (\<lambda>(hm', out'). out' = blit out0 0 (hkdf_expand (cbytes key) (cbytes info) outSz)))"
  using assms(5-)
proof (induction d arbitrary: k hm tmp out h)
  case 0
  then show ?case
    by (subst HKDF_Expand_loop.simps) (auto simp: hkdf_expand_okm [of outSz k] intro!: clean_ret)
next
  case (Suc d)
  let ?T = "hkdf_T (cbytes key) (cbytes info)" and ?okm = "okm (cbytes key) (cbytes info)"
  show ?case
  proof (cases "32 * k < outSz")
    case False
    with Suc.prems show ?thesis
      by (subst HKDF_Expand_loop.simps) (auto simp: hkdf_expand_okm [of outSz k] intro!: clean_ret)
  next
    case True
    then have k: "k < 255" using sz by simp
    define n :: byte where "n = of_nat (Suc k)"
    define T where "T = ?T (Suc k)"
    define left where "left = min (outSz - 32 * k) 32"
    have T: "hmac (cbytes key) ((if n = 1 then [] else tmp) @ cbytes info @ [n]) = T" "length T = 32"
      using Suc.prems(5) of_nat_byte_1_iff [OF k] by (auto simp: n_def T_def)
    have "take outSz (?okm k) = ?okm k" using True by simp
    moreover have okm': "take outSz (?okm (Suc k)) = ?okm k @ take left T"
      using True T(2) by (simp add: okm_Suc left_def min_def T_def)
    ultimately have out: "blit out (32 * k) (take left T) = blit out0 0 (take outSz (?okm (Suc k)))"
      using blit_blit [of "?okm k" "take left T" out0] True sz(2) Suc.prems(6) T(2)
      by (simp add: left_def)
    have IH: "clean wiped 0 h' (HKDF_Expand_loop WC_SHA256 key info 32 outSz (32 * k + left)
          (n + 1) hm' T (blit out (32 * k) (take left T)))
        (succeeds (\<lambda>(hm', out'). out' = blit out0 0 (hkdf_expand (cbytes key) (cbytes info) outSz)))"
      if "hmac_wf hm'" for hm' and h' :: "'w env"
    proof -
      have "32 * k + left = min outSz (32 * Suc k)" "n + 1 = of_nat (Suc (Suc k))"
        using True by (simp_all add: left_def n_def)
      then show ?thesis
        unfolding out using that True Suc.prems(4) T(2) by (simp only:) (rule Suc.IH, auto simp: T_def)
    qed
    have step: "HKDF_Expand_loop WC_SHA256 key info 32 outSz (min outSz (32 * k)) n hm tmp out =
        State_Monad.bind (HKDF_Expand_block WC_SHA256 key info 32 n hm tmp) (\<lambda>(r, hm', tmp').
          if r \<noteq> 0 then ret (r, hm', out)
          else HKDF_Expand_loop WC_SHA256 key info 32 outSz (32 * k + left) (n + 1) hm' tmp'
            (blit out (32 * k) (take left tmp')))"
    proof -
      have m: "min outSz (32 * k) = 32 * k" using True by simp
      show ?thesis
        by (subst HKDF_Expand_loop.simps, unfold Let_def m left_def) (use True in simp)
    qed
    show ?thesis
      unfolding n_def [symmetric] step
    proof (rule clean_then2 [OF clean_Expand_block [OF Suc.prems(1) key Suc.prems(2)]], goal_cases)
      case (1 hm' tmp' h')
      then show ?case using IH [of hm' h'] by (simp only: T)
    qed
  qed
qed

lemma hkdf_block_count: "255 < n div 32 + of_bool (n mod 32 \<noteq> 0) \<longleftrightarrow> 32 * 255 < (n :: nat)"
proof -
  obtain q r where n: "n = 32 * q + r" "r < 32"
    by (metis mod_less_divisor mult_div_mod_eq zero_less_numeral)
  then have "n div 32 = q" "n mod 32 = r" by simp_all
  with n show ?thesis by (cases "r = 0") auto
qed

lemma clean_Expand:
  fixes h :: "'w env"
  assumes "cbuf_ok key" "cbuf_ok info" "outSz \<le> 32 * 255" "outSz \<le> length out"
  shows "clean wiped 0 h (wc_HKDF_Expand WC_SHA256 key info out outSz)
    (succeeds (\<lambda>out'. out' = blit out 0 (hkdf_expand (cbytes key) (cbytes info) outSz)))"
proof -
  have nn: "\<not> (is_null key \<and> 0 < csize key)" using assms(1) by (auto simp: cbuf_ok_def)
  have lim: "\<not> 255 < outSz div 32 + of_bool (outSz mod 32 \<noteq> 0)"
    using assms(3) by (simp only: hkdf_block_count)
  have loop: "clean wiped 0 h' (HKDF_Expand_loop WC_SHA256 key info 32 outSz 0 1 hmac_zeroed (zeros 32) out)
      (succeeds (\<lambda>(hm', out'). out' = blit out 0 (hkdf_expand (cbytes key) (cbytes info) outSz)))"
    for h' :: "'w env"
    using clean_Expand_loop [OF assms, of hmac_zeroed "zeros 32" 0 "outSz" out h']
    by (simp add: okm_def)
  show ?thesis
    unfolding wc_HKDF_Expand_def wc_HKDF_Expand_ex_def HmacInit_zeroed Let_def HmacSize_sha256 nat_numeral
    using nn lim
    by (auto simp: free_hmac_def wc_HmacFree_def
        intro!: clean_malloc clean_bind [OF loop] clean_free clean_ret clean_fail)
qed

section \<open>Properties\<close>

text \<open>A client that authenticates a message in pieces.\<close>

fun hmac_feed :: "Hmac \<Rightarrow> cbuf list \<Rightarrow> ('w, int \<times> Hmac) cmd" where
  "hmac_feed hm [] = ret (0, hm)"
| "hmac_feed hm (c # cs) = do {
     (r, hm') \<leftarrow> wc_HmacUpdate hm c;
     if r \<noteq> 0 then ret (r, hm') else hmac_feed hm' cs
   }"

definition hmac_in_pieces :: "Hmac \<Rightarrow> cbuf \<Rightarrow> cbuf list \<Rightarrow> byte list \<Rightarrow> ('w, int \<times> Hmac \<times> byte list) cmd" where
  "hmac_in_pieces hm key cs hash = do {
     (r, hm1) \<leftarrow> wc_HmacSetKey hm WC_SHA256 key;
     if r \<noteq> 0 then ret (r, hm1, hash) else do {
     (r2, hm2) \<leftarrow> hmac_feed hm1 cs;
     if r2 \<noteq> 0 then ret (r2, hm2, hash) else wc_HmacFinal hm2 hash
     }
   }"

lemma clean_hmac_feed:
  fixes h :: "'w env"
  assumes "hmac_rep hm k0 m" "\<forall>c \<in> set cs. cbuf_ok c"
  shows "clean wiped 0 h (hmac_feed hm cs) (succeeds (\<lambda>hm'. hmac_rep hm' k0 (m @ concat (map cbytes cs))))"
  using assms
proof (induction cs arbitrary: hm m h)
  case (Cons c cs)
  then show ?case
    by (auto intro!: clean_then [OF clean_HmacUpdate [of hm k0 m c]] clean_conseq [OF Cons.IH]
        simp flip: append_assoc)
qed (simp add: clean_ret)

text \<open>C13: keying a context (fresh or used before), feeding a message in pieces and
  finishing writes the FIPS 198-1 HMAC of the whole message, for keys shorter than,
  as long as, and longer than a block; a NULL pointer is accepted exactly with length
  0.  The only failure is a refused allocation, nothing leaks, and what is given back
  is wiped.\<close>

theorem hmac_pieces_correct:
  fixes h :: "'w env"
  assumes "hmac_wf hm" "cbuf_ok key" "\<forall>c \<in> set cs. cbuf_ok c"
  shows "clean wiped 0 h (hmac_in_pieces hm key cs hash)
    (succeeds (\<lambda>(hm', hash'). hmac_wf hm' \<and> hash' = blit hash 0 (hmac (cbytes key) (concat (map cbytes cs)))))"
  unfolding hmac_in_pieces_def
  apply (rule clean_then [OF clean_SetKey [OF assms(1,2)]])
  apply (rule clean_then [OF clean_hmac_feed [OF _ assms(3)]], assumption)
  apply (rule clean_conseq [OF clean_HmacFinal], assumption)
  by (auto simp: hmac_def Let_def)

theorem hmac_pieces_correct_witness:
  "\<exists>hm' h'. run_state (hmac_in_pieces hmac_zeroed (Buf [1, 2]) [Buf [3], Null 0] (zeros 32)) (env0 ()) =
     ((0, hm', hmac [1, 2] [3]), h') \<and> hp_live h' = 0 \<and> list_all wiped (hp_freed h')"
  using clean_env0 [OF hmac_pieces_correct [of hmac_zeroed "Buf [1, 2]" "[Buf [3], Null 0]" "env0 ()" "zeros 32"]]
  by (auto simp: cbuf_ok_def)

text \<open>C14: \<open>wc_HKDF\<close> computes RFC 5869: the output is the expansion of the pseudorandom key
  extracted from the input keying material, with a NULL salt read as 32 zero bytes.
  Every output length up to 255 hash lengths succeeds unless an allocation is refused;
  both temporary HMAC contexts are wiped before they are freed.\<close>

theorem hkdf_correct:
  fixes h :: "'w env"
  assumes "is_null salt \<or> cbuf_ok salt" "cbuf_ok ikm" "cbuf_ok info"
    and "outSz \<le> 32 * 255" "outSz \<le> length out" "length prk = 32"
  shows "clean wiped 0 h (wc_HKDF WC_SHA256 ikm salt info out outSz prk)
    (succeeds (\<lambda>out'. out' = blit out 0
       (hkdf_expand (hkdf_extract (csalt salt) (cbytes ikm)) (cbytes info) outSz)))"
proof -
  let ?prk = "hkdf_extract (csalt salt) (cbytes ikm)"
  have prk: "blit prk 0 ?prk = ?prk" "length ?prk = 32"
    using assms(6) by (simp_all add: hkdf_extract_def)
  have ex: "clean wiped 0 h (wc_HKDF_Extract_ex WC_SHA256 salt ikm prk) (succeeds (\<lambda>p. p = ?prk))"
    using clean_Extract [OF assms(1,2), of h prk] by (simp add: wc_HKDF_Extract_def prk)
  have "clean wiped 0 h' (wc_HKDF_Expand_ex WC_SHA256 (Buf ?prk) info out outSz)
      (succeeds (\<lambda>out'. out' = blit out 0 (hkdf_expand ?prk (cbytes info) outSz)))" for h' :: "'w env"
    using clean_Expand [of "Buf ?prk" info outSz out h'] assms prk by (simp add: wc_HKDF_Expand_def)
  then show ?thesis
    unfolding wc_HKDF_def wc_HKDF_ex_def HmacSize_sha256 Let_def nat_numeral
    using prk by (auto intro!: clean_bind [OF ex] clean_fail)
qed

theorem hkdf_correct_witness:
  "\<exists>h'. run_state (wc_HKDF WC_SHA256 (Buf [7]) (Null 0) (Buf [1]) (zeros 42) 42 (zeros 32)) (env0 ()) =
     ((0, hkdf_expand (hkdf_extract None [7]) [1] 42), h') \<and> hp_live h' = 0"
proof -
  have "length (hkdf_expand prk info 42) = 42" for prk info
    using hkdf_expand_okm [of 42 2 prk info] by simp
  then show ?thesis
    using clean_env0 [OF hkdf_correct [of "Null 0" "Buf [7]" "Buf [1]" 42 "zeros 42" "zeros 32" "env0 ()"]]
    by (auto simp: cbuf_ok_def csalt_def)
qed

text \<open>\<open>wc_HKDF_Expand\<close> refuses an output longer than 255 hash lengths with
  \<open>BAD_FUNC_ARG\<close>, before it allocates anything or touches the output buffer, as RFC 5869
  requires of the one-byte block counter.\<close>

theorem hkdf_expand_length_limit:
  assumes "\<not> (is_null key \<and> 0 < csize key)" "outSz > 32 * 255"
  shows "run_state (wc_HKDF_Expand WC_SHA256 key info out outSz) h = ((BAD_FUNC_ARG, out), h)"
proof -
  have "255 < outSz div 32 + of_bool (outSz mod 32 \<noteq> 0)"
    using assms(2) by (simp only: hkdf_block_count)
  then show ?thesis
    unfolding wc_HKDF_Expand_def wc_HKDF_Expand_ex_def HmacSize_sha256 Let_def nat_numeral
    using assms(1) by auto
qed

theorem hkdf_expand_length_limit_witness:
  "run_state (wc_HKDF_Expand WC_SHA256 (Buf [1]) (Buf []) [] 8161) (env0 ()) = ((BAD_FUNC_ARG, []), env0 ())"
  by (rule hkdf_expand_length_limit) simp_all

end
