(* ===== verification/Aes.thy ===== *)
theory Aes
  imports Misc
begin

text \<open>
  \<open>wolfcrypt/src/aes.c\<close>, the block cipher: the table-driven C implementation that the
  build selects (\<open>Te\<close> lookups on big-endian column words, unrolled rounds), the key
  schedule for encryption, and the life cycle of a context.  The second half states
  FIPS 197 on bytes and proves that the tables, the schedule and the rounds implement
  it.  Counter mode only ever encrypts, so the inverse cipher and the decryption half of
  the key schedule are not part of this theory.

  The context keeps the fields the cipher uses.  Its device identifier is
  \<open>INVALID_DEVID\<close> on every path of this program.
\<close>

section \<open>Tables\<close>

text \<open>The four lookup tables, in decimal.\<close>

definition Te0_ints :: "int list" where
  "Te0_ints = [
    3328402341, 4168907908, 4000806809, 4135287693, 4294111757, 3597364157, 3731845041,
    2445657428, 1613770832, 33620227, 3462883241, 1445669757, 3892248089, 3050821474,
    1303096294, 3967186586, 2412431941, 528646813, 2311702848, 4202528135, 4026202645,
    2992200171, 2387036105, 4226871307, 1101901292, 3017069671, 1604494077, 1169141738,
    597466303, 1403299063, 3832705686, 2613100635, 1974974402, 3791519004, 1033081774,
    1277568618, 1815492186, 2118074177, 4126668546, 2211236943, 1748251740, 1369810420,
    3521504564, 4193382664, 3799085459, 2883115123, 1647391059, 706024767, 134480908,
    2512897874, 1176707941, 2646852446, 806885416, 932615841, 168101135, 798661301,
    235341577, 605164086, 461406363, 3756188221, 3454790438, 1311188841, 2142417613,
    3933566367, 302582043, 495158174, 1479289972, 874125870, 907746093, 3698224818,
    3025820398, 1537253627, 2756858614, 1983593293, 3084310113, 2108928974, 1378429307,
    3722699582, 1580150641, 327451799, 2790478837, 3117535592, 0, 3253595436,
    1075847264, 3825007647, 2041688520, 3059440621, 3563743934, 2378943302, 1740553945,
    1916352843, 2487896798, 2555137236, 2958579944, 2244988746, 3151024235, 3320835882,
    1336584933, 3992714006, 2252555205, 2588757463, 1714631509, 293963156, 2319795663,
    3925473552, 67240454, 4269768577, 2689618160, 2017213508, 631218106, 1269344483,
    2723238387, 1571005438, 2151694528, 93294474, 1066570413, 563977660, 1882732616,
    4059428100, 1673313503, 2008463041, 2950355573, 1109467491, 537923632, 3858759450,
    4260623118, 3218264685, 2177748300, 403442708, 638784309, 3287084079, 3193921505,
    899127202, 2286175436, 773265209, 2479146071, 1437050866, 4236148354, 2050833735,
    3362022572, 3126681063, 840505643, 3866325909, 3227541664, 427917720, 2655997905,
    2749160575, 1143087718, 1412049534, 999329963, 193497219, 2353415882, 3354324521,
    1807268051, 672404540, 2816401017, 3160301282, 369822493, 2916866934, 3688947771,
    1681011286, 1949973070, 336202270, 2454276571, 201721354, 1210328172, 3093060836,
    2680341085, 3184776046, 1135389935, 3294782118, 965841320, 831886756, 3554993207,
    4068047243, 3588745010, 2345191491, 1849112409, 3664604599, 26054028, 2983581028,
    2622377682, 1235855840, 3630984372, 2891339514, 4092916743, 3488279077, 3395642799,
    4101667470, 1202630377, 268961816, 1874508501, 4034427016, 1243948399, 1546530418,
    941366308, 1470539505, 1941222599, 2546386513, 3421038627, 2715671932, 3899946140,
    1042226977, 2521517021, 1639824860, 227249030, 260737669, 3765465232, 2084453954,
    1907733956, 3429263018, 2420656344, 100860677, 4160157185, 470683154, 3261161891,
    1781871967, 2924959737, 1773779408, 394692241, 2579611992, 974986535, 664706745,
    3655459128, 3958962195, 731420851, 571543859, 3530123707, 2849626480, 126783113,
    865375399, 765172662, 1008606754, 361203602, 3387549984, 2278477385, 2857719295,
    1344809080, 2782912378, 59542671, 1503764984, 160008576, 437062935, 1707065306,
    3622233649, 2218934982, 3496503480, 2185314755, 697932208, 1512910199, 504303377,
    2075177163, 2824099068, 1841019862, 739644986]"

definition Te1_ints :: "int list" where
  "Te1_ints = [
    2781242211, 2230877308, 2582542199, 2381740923, 234877682, 3184946027, 2984144751,
    1418839493, 1348481072, 50462977, 2848876391, 2102799147, 434634494, 1656084439,
    3863849899, 2599188086, 1167051466, 2636087938, 1082771913, 2281340285, 368048890,
    3954334041, 3381544775, 201060592, 3963727277, 1739838676, 4250903202, 3930435503,
    3206782108, 4149453988, 2531553906, 1536934080, 3262494647, 484572669, 2923271059,
    1783375398, 1517041206, 1098792767, 49674231, 1334037708, 1550332980, 4098991525,
    886171109, 150598129, 2481090929, 1940642008, 1398944049, 1059722517, 201851908,
    1385547719, 1699095331, 1587397571, 674240536, 2704774806, 252314885, 3039795866,
    151914247, 908333586, 2602270848, 1038082786, 651029483, 1766729511, 3447698098,
    2682942837, 454166793, 2652734339, 1951935532, 775166490, 758520603, 3000790638,
    4004797018, 4217086112, 4137964114, 1299594043, 1639438038, 3464344499, 2068982057,
    1054729187, 1901997871, 2534638724, 4121318227, 1757008337, 0, 750906861,
    1614815264, 535035132, 3363418545, 3988151131, 3201591914, 1183697867, 3647454910,
    1265776953, 3734260298, 3566750796, 3903871064, 1250283471, 1807470800, 717615087,
    3847203498, 384695291, 3313910595, 3617213773, 1432761139, 2484176261, 3481945413,
    283769337, 100925954, 2180939647, 4037038160, 1148730428, 3123027871, 3813386408,
    4087501137, 4267549603, 3229630528, 2315620239, 2906624658, 3156319645, 1215313976,
    82966005, 3747855548, 3245848246, 1974459098, 1665278241, 807407632, 451280895,
    251524083, 1841287890, 1283575245, 337120268, 891687699, 801369324, 3787349855,
    2721421207, 3431482436, 959321879, 1469301956, 4065699751, 2197585534, 1199193405,
    2898814052, 3887750493, 724703513, 2514908019, 2696962144, 2551808385, 3516813135,
    2141445340, 1715741218, 2119445034, 2872807568, 2198571144, 3398190662, 700968686,
    3547052216, 1009259540, 2041044702, 3803995742, 487983883, 1991105499, 1004265696,
    1449407026, 1316239930, 504629770, 3683797321, 168560134, 1816667172, 3837287516,
    1570751170, 1857934291, 4014189740, 2797888098, 2822345105, 2754712981, 936633572,
    2347923833, 852879335, 1133234376, 1500395319, 3084545389, 2348912013, 1689376213,
    3533459022, 3762923945, 3034082412, 4205598294, 133428468, 634383082, 2949277029,
    2398386810, 3913789102, 403703816, 3580869306, 2297460856, 1867130149, 1918643758,
    607656988, 4049053350, 3346248884, 1368901318, 600565992, 2090982877, 2632479860,
    557719327, 3717614411, 3697393085, 2249034635, 2232388234, 2430627952, 1115438654,
    3295786421, 2865522278, 3633334344, 84280067, 33027830, 303828494, 2747425121,
    1600795957, 4188952407, 3496589753, 2434238086, 1486471617, 658119965, 3106381470,
    953803233, 334231800, 3005978776, 857870609, 3151128937, 1890179545, 2298973838,
    2805175444, 3056442267, 574365214, 2450884487, 550103529, 1233637070, 4289353045,
    2018519080, 2057691103, 2399374476, 4166623649, 2148108681, 387583245, 3664101311,
    836232934, 3330556482, 3100665960, 3280093505, 2955516313, 2002398509, 287182607,
    3413881008, 4238890068, 3597515707, 975967766]"

definition Te2_ints :: "int list" where
  "Te2_ints = [
    1671808611, 2089089148, 2006576759, 2072901243, 4061003762, 1807603307, 1873927791,
    3310653893, 810573872, 16974337, 1739181671, 729634347, 4263110654, 3613570519,
    2883997099, 1989864566, 3393556426, 2191335298, 3376449993, 2106063485, 4195741690,
    1508618841, 1204391495, 4027317232, 2917941677, 3563566036, 2734514082, 2951366063,
    2629772188, 2767672228, 1922491506, 3227229120, 3082974647, 4246528509, 2477669779,
    644500518, 911895606, 1061256767, 4144166391, 3427763148, 878471220, 2784252325,
    3845444069, 4043897329, 1905517169, 3631459288, 827548209, 356461077, 67897348,
    3344078279, 593839651, 3277757891, 405286936, 2527147926, 84871685, 2595565466,
    118033927, 305538066, 2157648768, 3795705826, 3945188843, 661212711, 2999812018,
    1973414517, 152769033, 2208177539, 745822252, 439235610, 455947803, 1857215598,
    1525593178, 2700827552, 1391895634, 994932283, 3596728278, 3016654259, 695947817,
    3812548067, 795958831, 2224493444, 1408607827, 3513301457, 0, 3979133421,
    543178784, 4229948412, 2982705585, 1542305371, 1790891114, 3410398667, 3201918910,
    961245753, 1256100938, 1289001036, 1491644504, 3477767631, 3496721360, 4012557807,
    2867154858, 4212583931, 1137018435, 1305975373, 861234739, 2241073541, 1171229253,
    4178635257, 33948674, 2139225727, 1357946960, 1011120188, 2679776671, 2833468328,
    1374921297, 2751356323, 1086357568, 2408187279, 2460827538, 2646352285, 944271416,
    4110742005, 3168756668, 3066132406, 3665145818, 560153121, 271589392, 4279952895,
    4077846003, 3530407890, 3444343245, 202643468, 322250259, 3962553324, 1608629855,
    2543990167, 1154254916, 389623319, 3294073796, 2817676711, 2122513534, 1028094525,
    1689045092, 1575467613, 422261273, 1939203699, 1621147744, 2174228865, 1339137615,
    3699352540, 577127458, 712922154, 2427141008, 2290289544, 1187679302, 3995715566,
    3100863416, 339486740, 3732514782, 1591917662, 186455563, 3681988059, 3762019296,
    844522546, 978220090, 169743370, 1239126601, 101321734, 611076132, 1558493276,
    3260915650, 3547250131, 2901361580, 1655096418, 2443721105, 2510565781, 3828863972,
    2039214713, 3878868455, 3359869896, 928607799, 1840765549, 2374762893, 3580146133,
    1322425422, 2850048425, 1823791212, 1459268694, 4094161908, 3928346602, 1706019429,
    2056189050, 2934523822, 135794696, 3134549946, 2022240376, 628050469, 779246638,
    472135708, 2800834470, 3032970164, 3327236038, 3894660072, 3715932637, 1956440180,
    522272287, 1272813131, 3185336765, 2340818315, 2323976074, 1888542832, 1044544574,
    3049550261, 1722469478, 1222152264, 50660867, 4127324150, 236067854, 1638122081,
    895445557, 1475980887, 3117443513, 2257655686, 3243809217, 489110045, 2662934430,
    3778599393, 4162055160, 2561878936, 288563729, 1773916777, 3648039385, 2391345038,
    2493985684, 2612407707, 505560094, 2274497927, 3911240169, 3460925390, 1442818645,
    678973480, 3749357023, 2358182796, 2717407649, 2306869641, 219617805, 3218761151,
    3862026214, 1120306242, 1756942440, 1103331905, 2578459033, 762796589, 252780047,
    2966125488, 1425844308, 3151392187, 372911126]"

definition Te3_ints :: "int list" where
  "Te3_ints = [
    1667474886, 2088535288, 2004326894, 2071694838, 4075949567, 1802223062, 1869591006,
    3318043793, 808472672, 16843522, 1734846926, 724270422, 4278065639, 3621216949,
    2880169549, 1987484396, 3402253711, 2189597983, 3385409673, 2105378810, 4210693615,
    1499065266, 1195886990, 4042263547, 2913856577, 3570689971, 2728590687, 2947541573,
    2627518243, 2762274643, 1920112356, 3233831835, 3082273397, 4261223649, 2475929149,
    640051788, 909531756, 1061110142, 4160160501, 3435941763, 875846760, 2779116625,
    3857003729, 4059105529, 1903268834, 3638064043, 825316194, 353713962, 67374088,
    3351728789, 589522246, 3284360861, 404236336, 2526454071, 84217610, 2593830191,
    117901582, 303183396, 2155911963, 3806477791, 3958056653, 656894286, 2998062463,
    1970642922, 151591698, 2206440989, 741110872, 437923380, 454765878, 1852748508,
    1515908788, 2694904667, 1381168804, 993742198, 3604373943, 3014905469, 690584402,
    3823320797, 791638366, 2223281939, 1398011302, 3520161977, 0, 3991743681,
    538992704, 4244381667, 2981218425, 1532751286, 1785380564, 3419096717, 3200178535,
    960056178, 1246420628, 1280103576, 1482221744, 3486468741, 3503319995, 4025428677,
    2863326543, 4227536621, 1128514950, 1296947098, 859002214, 2240123921, 1162203018,
    4193849577, 33687044, 2139062782, 1347481760, 1010582648, 2678045221, 2829640523,
    1364325282, 2745433693, 1077985408, 2408548869, 2459086143, 2644360225, 943212656,
    4126475505, 3166494563, 3065430391, 3671750063, 555836226, 269496352, 4294908645,
    4092792573, 3537006015, 3452783745, 202118168, 320025894, 3974901699, 1600119230,
    2543297077, 1145359496, 387397934, 3301201811, 2812801621, 2122220284, 1027426170,
    1684319432, 1566435258, 421079858, 1936954854, 1616945344, 2172753945, 1330631070,
    3705438115, 572679748, 707427924, 2425400123, 2290647819, 1179044492, 4008585671,
    3099120491, 336870440, 3739122087, 1583276732, 185277718, 3688593069, 3772791771,
    842159716, 976899700, 168435220, 1229577106, 101059084, 606366792, 1549591736,
    3267517855, 3553849021, 2897014595, 1650632388, 2442242105, 2509612081, 3840161747,
    2038008818, 3890688725, 3368567691, 926374254, 1835907034, 2374863873, 3587531953,
    1313788572, 2846482505, 1819063512, 1448540844, 4109633523, 3941213647, 1701162954,
    2054852340, 2930698567, 134748176, 3132806511, 2021165296, 623210314, 774795868,
    471606328, 2795958615, 3031746419, 3334885783, 3907527627, 3722280097, 1953799400,
    522133822, 1263263126, 3183336545, 2341176845, 2324333839, 1886425312, 1044267644,
    3048588401, 1718004428, 1212733584, 50529542, 4143317495, 235803164, 1633788866,
    892690282, 1465383342, 3115962473, 2256965911, 3250673817, 488449850, 2661202215,
    3789633753, 4177007595, 2560144171, 286339874, 1768537042, 3654906025, 2391705863,
    2492770099, 2610673197, 505291324, 2273808917, 3924369609, 3469625735, 1431699370,
    673740880, 3755965093, 2358021891, 2711746649, 2307489801, 218961690, 3217021541,
    3873845719, 1111672452, 1751693520, 1094828930, 2576986153, 757954394, 252645662,
    2964376443, 1414855848, 3149649517, 370555436]"

definition Te :: "nat \<Rightarrow> word32 list" where
  "Te i = map word_of_int
     (if i = 0 then Te0_ints else if i = 1 then Te1_ints else if i = 2 then Te2_ints else Te3_ints)"

definition rcon :: "word32 list" where
  "rcon = map word_of_int [16777216, 33554432, 67108864, 134217728, 268435456, 536870912,
     1073741824, 2147483648, 452984832, 905969664]"

section \<open>The code\<close>

definition WC_AES_BLOCK_SIZE :: nat where [simp]: "WC_AES_BLOCK_SIZE = 16"

record Aes =
  aes_key :: "word32 list"
  rounds :: nat
  keylen :: nat
  aes_reg :: "byte list"
  invokeCtr0 :: word32
  invokeCtr1 :: word32
  nonceSz :: nat
  gcm_H :: "byte list"
  keyInstalled :: bool

definition GETBYTE :: "word32 \<Rightarrow> nat \<Rightarrow> word32" where
  "GETBYTE x y = drop_bit (8 * y) x AND 0xFF"

definition GetTable :: "word32 list \<Rightarrow> word32 \<Rightarrow> word32" where
  "GetTable t idx = t ! unat idx"

definition PreFetchTe :: word32 where
  "PreFetchTe = fold (\<lambda>(i, j) x. x AND Te i ! (8 * j)) (List.product [0..<4] [0..<32]) 0"

type_synonym aes_cols = "word32 \<times> word32 \<times> word32 \<times> word32"

text \<open>One output column of a full round, and of the last round.\<close>

definition enc_col :: "word32 \<Rightarrow> word32 \<Rightarrow> word32 \<Rightarrow> word32 \<Rightarrow> word32 \<Rightarrow> word32" where
  "enc_col a b c d k =
     GetTable (Te 0) (GETBYTE a 3) XOR GetTable (Te 1) (GETBYTE b 2) XOR
     GetTable (Te 2) (GETBYTE c 1) XOR GetTable (Te 3) (GETBYTE d 0) XOR k"

definition last_col :: "word32 \<Rightarrow> word32 \<Rightarrow> word32 \<Rightarrow> word32 \<Rightarrow> word32 \<Rightarrow> word32" where
  "last_col a b c d k =
     (GetTable (Te 2) (GETBYTE a 3) AND 0xff000000) XOR
     (GetTable (Te 3) (GETBYTE b 2) AND 0x00ff0000) XOR
     (GetTable (Te 0) (GETBYTE c 1) AND 0x0000ff00) XOR
     (GetTable (Te 1) (GETBYTE d 0) AND 0x000000ff) XOR k"

text \<open>\<open>ENC_ROUND_T_S(o)\<close> and \<open>ENC_ROUND_S_T(o)\<close> are the same round, from the \<open>s\<close> to the \<open>t\<close>
  variables with the keys at \<open>o + 4\<close> and back with the keys at \<open>o\<close>.\<close>

fun enc_round :: "word32 list \<Rightarrow> nat \<Rightarrow> aes_cols \<Rightarrow> aes_cols" where
  "enc_round rk k (s0, s1, s2, s3) =
     (enc_col s0 s1 s2 s3 (rk ! k), enc_col s1 s2 s3 s0 (rk ! (k + 1)),
      enc_col s2 s3 s0 s1 (rk ! (k + 2)), enc_col s3 s0 s1 s2 (rk ! (k + 3)))"

definition ENC_ROUND_T_S :: "word32 list \<Rightarrow> nat \<Rightarrow> aes_cols \<Rightarrow> aes_cols" where
  "ENC_ROUND_T_S rk off = enc_round rk (off + 4)"

definition ENC_ROUND_S_T :: "word32 list \<Rightarrow> nat \<Rightarrow> aes_cols \<Rightarrow> aes_cols" where
  "ENC_ROUND_S_T rk off = enc_round rk off"

fun last_round :: "word32 list \<Rightarrow> nat \<Rightarrow> aes_cols \<Rightarrow> aes_cols" where
  "last_round rk k (t0, t1, t2, t3) =
     (last_col t0 t1 t2 t3 (rk ! k), last_col t1 t2 t3 t0 (rk ! (k + 1)),
      last_col t2 t3 t0 t1 (rk ! (k + 2)), last_col t3 t0 t1 t2 (rk ! (k + 3)))"

fun load_block :: "byte list \<Rightarrow> aes_cols" where
  "load_block inp =
     (ByteReverseWord32 (word32_of_bytes (take 4 inp)),
      ByteReverseWord32 (word32_of_bytes (take 4 (drop 4 inp))),
      ByteReverseWord32 (word32_of_bytes (take 4 (drop 8 inp))),
      ByteReverseWord32 (word32_of_bytes (take 4 (drop 12 inp))))"

fun add_key :: "word32 list \<Rightarrow> aes_cols \<Rightarrow> aes_cols" where
  "add_key rk (s0, s1, s2, s3) =
     (s0 XOR rk ! 0, s1 XOR rk ! 1, s2 XOR rk ! 2, s3 XOR rk ! 3)"

fun store_block :: "aes_cols \<Rightarrow> byte list" where
  "store_block (s0, s1, s2, s3) =
     bytes_of_word32 (ByteReverseWord32 s0) @ bytes_of_word32 (ByteReverseWord32 s1) @
     bytes_of_word32 (ByteReverseWord32 s2) @ bytes_of_word32 (ByteReverseWord32 s3)"

text \<open>\<open>prefetch\<close> says whether the table is still to be touched (\<open>*prefetch_ptr == 0\<close>).\<close>

definition AesEncrypt_C :: "Aes \<Rightarrow> byte list \<Rightarrow> nat \<Rightarrow> bool \<Rightarrow> byte list" where
  "AesEncrypt_C aes inBlock r prefetch =
     (let rk = aes_key aes;
          (s0, s1, s2, s3) = add_key rk (load_block inBlock);
          s0' = (if prefetch then s0 OR PreFetchTe else s0);
          t0 = ENC_ROUND_T_S rk 0 (s0', s1, s2, s3);
          t1 = ENC_ROUND_T_S rk 8 (ENC_ROUND_S_T rk 8 t0);
          t2 = ENC_ROUND_T_S rk 16 (ENC_ROUND_S_T rk 16 t1);
          t3 = ENC_ROUND_T_S rk 24 (ENC_ROUND_S_T rk 24 t2);
          t4 = ENC_ROUND_T_S rk 32 (ENC_ROUND_S_T rk 32 t3);
          t5 = (if r > 5 then ENC_ROUND_T_S rk 40 (ENC_ROUND_S_T rk 40 t4) else t4);
          t6 = (if r > 5 \<and> r > 6 then ENC_ROUND_T_S rk 48 (ENC_ROUND_S_T rk 48 t5) else t5)
      in store_block (last_round rk (r * 8) t6))"

definition AesEncrypt_preFetchOpt :: "Aes \<Rightarrow> byte list \<Rightarrow> byte list \<Rightarrow> bool \<Rightarrow> int \<times> byte list" where
  "AesEncrypt_preFetchOpt aes inBlock outBlock prefetch =
     (let r = rounds aes div 2
      in if r > 7 \<or> r = 0 then (KEYUSAGE_E, outBlock)
         else (0, AesEncrypt_C aes inBlock r prefetch))"

definition wc_AesEncrypt :: "Aes \<Rightarrow> byte list \<Rightarrow> byte list \<Rightarrow> int \<times> byte list" where
  "wc_AesEncrypt aes inBlock outBlock = AesEncrypt_preFetchOpt aes inBlock outBlock True"

section \<open>Key schedule\<close>

text \<open>The S-box on the four bytes of a word through the masked tables: rotated first for
  the start of a group, in place for the middle of a 256-bit group.\<close>

definition sub_rot :: "word32 \<Rightarrow> word32" where
  "sub_rot temp =
     (GetTable (Te 2) (GETBYTE temp 2) AND 0xff000000) XOR
     (GetTable (Te 3) (GETBYTE temp 1) AND 0x00ff0000) XOR
     (GetTable (Te 0) (GETBYTE temp 0) AND 0x0000ff00) XOR
     (GetTable (Te 1) (GETBYTE temp 3) AND 0x000000ff)"

definition sub_plain :: "word32 \<Rightarrow> word32" where
  "sub_plain temp =
     (GetTable (Te 2) (GETBYTE temp 3) AND 0xff000000) XOR
     (GetTable (Te 3) (GETBYTE temp 2) AND 0x00ff0000) XOR
     (GetTable (Te 0) (GETBYTE temp 1) AND 0x0000ff00) XOR
     (GetTable (Te 1) (GETBYTE temp 0) AND 0x000000ff)"

text \<open>\<open>rk[b + k] = rk[b + i] ^ rk[b + j]\<close>.\<close>

definition rk_xor :: "nat \<Rightarrow> nat \<Rightarrow> nat \<Rightarrow> nat \<Rightarrow> word32 list \<Rightarrow> word32 list" where
  "rk_xor b k i j rk = rk[b + k := rk ! (b + i) XOR rk ! (b + j)]"

definition rk_head :: "nat \<Rightarrow> nat \<Rightarrow> nat \<Rightarrow> word32 list \<Rightarrow> word32 list" where
  "rk_head b nk i rk =
     rk[b + nk := rk ! b XOR sub_rot (rk ! (b + (nk - 1))) XOR rcon ! i]"

definition rk_mid :: "nat \<Rightarrow> word32 list \<Rightarrow> word32 list" where
  "rk_mid b rk = rk[b + 12 := rk ! (b + 4) XOR sub_plain (rk ! (b + 11))]"

definition expand_16 :: "nat \<Rightarrow> word32 list \<Rightarrow> word32 list" where
  "expand_16 i rk =
     (let b = 4 * i
      in rk_xor b 7 3 6 (rk_xor b 6 2 5 (rk_xor b 5 1 4 (rk_head b 4 i rk))))"

definition expand_24_front :: "nat \<Rightarrow> word32 list \<Rightarrow> word32 list" where
  "expand_24_front i rk =
     (let b = 6 * i
      in rk_xor b 9 3 8 (rk_xor b 8 2 7 (rk_xor b 7 1 6 (rk_head b 6 i rk))))"

definition expand_24 :: "nat \<Rightarrow> word32 list \<Rightarrow> word32 list" where
  "expand_24 i rk =
     (let b = 6 * i in rk_xor b 11 5 10 (rk_xor b 10 4 9 (expand_24_front i rk)))"

definition expand_32_front :: "nat \<Rightarrow> word32 list \<Rightarrow> word32 list" where
  "expand_32_front i rk =
     (let b = 8 * i
      in rk_xor b 11 3 10 (rk_xor b 10 2 9 (rk_xor b 9 1 8 (rk_head b 8 i rk))))"

definition expand_32 :: "nat \<Rightarrow> word32 list \<Rightarrow> word32 list" where
  "expand_32 i rk =
     (let b = 8 * i
      in rk_xor b 15 7 14 (rk_xor b 14 6 13 (rk_xor b 13 5 12 (rk_mid b (expand_32_front i rk)))))"

text \<open>The key bytes copied over the front of the schedule and its words byte-reversed.\<close>

definition load_key :: "word32 list \<Rightarrow> byte list \<Rightarrow> nat \<Rightarrow> word32 list" where
  "load_key rk key keySz =
     (let rk0 = words_of_bytes (blit (bytes_of_words rk) 0 (take keySz key)) in ByteReverseWords rk0 rk0 keySz)"

text \<open>\<open>AesSetKey_C\<close> with \<open>dir == AES_ENCRYPTION\<close>: each loop leaves in the middle of its last
  pass (the \<open>++i == n\<close> test).\<close>

definition AesSetKey_C :: "Aes \<Rightarrow> byte list \<Rightarrow> nat \<Rightarrow> Aes" where
  "AesSetKey_C aes key keySz =
     (let rk1 = load_key (aes_key aes) key keySz;
          rk2 = (if keySz = 16 then fold expand_16 [0..<10] rk1
                 else if keySz = 24 then expand_24_front 7 (fold expand_24 [0..<7] rk1)
                 else if keySz = 32 then expand_32_front 6 (fold expand_32 [0..<6] rk1)
                 else rk1)
      in aes\<lparr>aes_key := rk2\<rparr>)"

definition wc_AesSetIV :: "Aes \<Rightarrow> byte list option \<Rightarrow> int \<times> Aes" where
  "wc_AesSetIV aes iv =
     (0, aes\<lparr>aes_reg := (case iv of Some b \<Rightarrow> blit (aes_reg aes) 0 (take WC_AES_BLOCK_SIZE b)
                               | None \<Rightarrow> zeros WC_AES_BLOCK_SIZE)\<rparr>)"

definition AesSetKeyLocal_body :: "Aes \<Rightarrow> byte list \<Rightarrow> nat \<Rightarrow> byte list option \<Rightarrow> int \<times> Aes" where
  "AesSetKeyLocal_body aes userKey len iv =
     (if \<not> (len = 16 \<or> len = 24 \<or> len = 32) then (BAD_FUNC_ARG, aes)
      else let a1 = aes\<lparr>keylen := len, rounds := len div 4 + 6\<rparr>;
               (ret, a2) = wc_AesSetIV a1 iv
           in if ret \<noteq> 0 then (ret, a2)
              else if len > 240 then (BAD_FUNC_ARG, a2)
              else (ret, AesSetKey_C (a2\<lparr>aes_key := load_key (aes_key a2) userKey len\<rparr>) userKey len))"

definition wc_AesSetKeyLocal :: "Aes \<Rightarrow> byte list \<Rightarrow> nat \<Rightarrow> byte list option \<Rightarrow> int \<times> Aes" where
  "wc_AesSetKeyLocal aes userKey len iv =
     (let (ret, a1) = AesSetKeyLocal_body (aes\<lparr>keyInstalled := False\<rparr>) userKey len iv
      in (ret, a1\<lparr>keyInstalled := (ret = 0)\<rparr>))"

definition wc_AesSetKey :: "Aes \<Rightarrow> byte list \<Rightarrow> nat \<Rightarrow> byte list option \<Rightarrow> int \<times> Aes" where
  "wc_AesSetKey aes userKey len iv =
     (if len > 240 then (BAD_FUNC_ARG, aes) else wc_AesSetKeyLocal aes userKey len iv)"

section \<open>Life cycle\<close>

definition aes_zeroed :: Aes where
  "aes_zeroed = \<lparr>aes_key = replicate 60 0, rounds = 0, keylen = 0, aes_reg = zeros 16,
     invokeCtr0 = 0, invokeCtr1 = 0, nonceSz = 0, gcm_H = zeros 16, keyInstalled = False\<rparr>"

definition wc_AesInit :: "Aes \<Rightarrow> int \<times> Aes" where
  "wc_AesInit aes = (0, aes_zeroed)"

definition wc_AesFree :: "Aes \<Rightarrow> Aes" where
  "wc_AesFree aes = aes_zeroed"

definition AesNew_common :: "('w, int \<times> Aes option) cmd" where
  "AesNew_common = do {
     ok \<leftarrow> XMALLOC;
     if \<not> ok then ret (MEMORY_E, None)
     else do {
       let (r, aes) = wc_AesInit aes_zeroed;
       if r \<noteq> 0 then do { XFREE (Freed_obj ''Aes'' (aes = aes_zeroed)); ret (r, None) }
       else ret (0, Some aes)
     }
   }"

definition wc_AesNew :: "('w, int \<times> Aes option) cmd" where
  "wc_AesNew = AesNew_common"

definition wc_AesDelete :: "Aes option \<Rightarrow> ('w, int) cmd" where
  "wc_AesDelete aes_p = (case aes_p of None \<Rightarrow> ret BAD_FUNC_ARG
     | Some aes \<Rightarrow> do { XFREE (Freed_obj ''Aes'' (wc_AesFree aes = aes_zeroed)); ret 0 })"

definition wc_AesGetKeySize :: "Aes \<Rightarrow> int \<times> nat" where
  "wc_AesGetKeySize aes =
     (if rounds aes = 10 then (0, 16) else if rounds aes = 12 then (0, 24)
      else if rounds aes = 14 then (0, 32) else (BAD_FUNC_ARG, 0))"

section \<open>The cipher as FIPS 197 states it\<close>

definition sbox_ints :: "int list" where
  "sbox_ints = [
    99, 124, 119, 123, 242, 107, 111, 197, 48, 1, 103, 43, 254, 215, 171, 118,
    202, 130, 201, 125, 250, 89, 71, 240, 173, 212, 162, 175, 156, 164, 114, 192,
    183, 253, 147, 38, 54, 63, 247, 204, 52, 165, 229, 241, 113, 216, 49, 21,
    4, 199, 35, 195, 24, 150, 5, 154, 7, 18, 128, 226, 235, 39, 178, 117,
    9, 131, 44, 26, 27, 110, 90, 160, 82, 59, 214, 179, 41, 227, 47, 132,
    83, 209, 0, 237, 32, 252, 177, 91, 106, 203, 190, 57, 74, 76, 88, 207,
    208, 239, 170, 251, 67, 77, 51, 133, 69, 249, 2, 127, 80, 60, 159, 168,
    81, 163, 64, 143, 146, 157, 56, 245, 188, 182, 218, 33, 16, 255, 243, 210,
    205, 12, 19, 236, 95, 151, 68, 23, 196, 167, 126, 61, 100, 93, 25, 115,
    96, 129, 79, 220, 34, 42, 144, 136, 70, 238, 184, 20, 222, 94, 11, 219,
    224, 50, 58, 10, 73, 6, 36, 92, 194, 211, 172, 98, 145, 149, 228, 121,
    231, 200, 55, 109, 141, 213, 78, 169, 108, 86, 244, 234, 101, 122, 174, 8,
    186, 120, 37, 46, 28, 166, 180, 198, 232, 221, 116, 31, 75, 189, 139, 138,
    112, 62, 181, 102, 72, 3, 246, 14, 97, 53, 87, 185, 134, 193, 29, 158,
    225, 248, 152, 17, 105, 217, 142, 148, 155, 30, 135, 233, 206, 85, 40, 223,
    140, 161, 137, 13, 191, 230, 66, 104, 65, 153, 45, 15, 176, 84, 187, 22]"

definition sbox :: "byte \<Rightarrow> byte" where
  "sbox b = word_of_int (sbox_ints ! unat b)"

definition xtime :: "byte \<Rightarrow> byte" where
  "xtime b = (if bit b 7 then push_bit 1 b XOR 0x1B else push_bit 1 b)"

definition sub_bytes :: "byte list \<Rightarrow> byte list" where
  "sub_bytes s = map sbox s"

text \<open>The state is the 16 bytes of the block, column by column.\<close>

definition shift_rows :: "byte list \<Rightarrow> byte list" where
  "shift_rows s = map (\<lambda>i. s ! i) [0, 5, 10, 15, 4, 9, 14, 3, 8, 13, 2, 7, 12, 1, 6, 11]"

fun mix_columns :: "byte list \<Rightarrow> byte list" where
  "mix_columns (a # b # c # d # s) =
     [xtime a XOR (xtime b XOR b) XOR c XOR d,
      a XOR xtime b XOR (xtime c XOR c) XOR d,
      a XOR b XOR xtime c XOR (xtime d XOR d),
      (xtime a XOR a) XOR b XOR c XOR xtime d] @ mix_columns s"
| "mix_columns _ = []"

definition round_key :: "(nat \<Rightarrow> word32) \<Rightarrow> nat \<Rightarrow> byte list" where
  "round_key w i = be32 (w (4 * i)) @ be32 (w (4 * i + 1)) @ be32 (w (4 * i + 2)) @ be32 (w (4 * i + 3))"

definition aes_round :: "(nat \<Rightarrow> word32) \<Rightarrow> nat \<Rightarrow> byte list \<Rightarrow> byte list" where
  "aes_round w i s = xor_bytes (mix_columns (shift_rows (sub_bytes s))) (round_key w i)"

definition aes_final :: "(nat \<Rightarrow> word32) \<Rightarrow> nat \<Rightarrow> byte list \<Rightarrow> byte list" where
  "aes_final w i s = xor_bytes (shift_rows (sub_bytes s)) (round_key w i)"

definition aes_cipher :: "(nat \<Rightarrow> word32) \<Rightarrow> nat \<Rightarrow> byte list \<Rightarrow> byte list" where
  "aes_cipher w nr block =
     aes_final w nr (fold (aes_round w) [1..<nr] (xor_bytes block (round_key w 0)))"

definition sub_word :: "word32 \<Rightarrow> word32" where
  "sub_word x = word32_of_bytes (map sbox (bytes_of_word32 x))"

definition rcon_word :: "nat \<Rightarrow> word32" where
  "rcon_word i = push_bit 24 (ucast ((xtime ^^ (i - 1)) 1))"

fun key_word :: "byte list \<Rightarrow> nat \<Rightarrow> nat \<Rightarrow> word32" where
  "key_word key nk i =
     (if i < nk then ByteReverseWord32 (word32_of_bytes (take 4 (drop (4 * i) key)))
      else if nk = 0 then 0
      else key_word key nk (i - nk) XOR
        (let t = key_word key nk (i - 1)
         in if i mod nk = 0 then sub_word (word_rotl 8 t) XOR rcon_word (i div nk)
            else if 6 < nk \<and> i mod nk = 4 then sub_word t else t))"

declare key_word.simps [simp del]

text \<open>AES with a 16, 24 or 32 byte key.\<close>

definition aes_encrypt :: "byte list \<Rightarrow> byte list \<Rightarrow> byte list" where
  "aes_encrypt key block = aes_cipher (key_word key (length key div 4)) (length key div 4 + 6) block"

section \<open>The tables\<close>

definition xt :: "int \<Rightarrow> int" where
  "xt s = (if s < 128 then 2 * s else (2 * s) XOR 283)"

definition int_bytes :: "int \<Rightarrow> int list" where
  "int_bytes k = [take_bit 8 (drop_bit 24 k), take_bit 8 (drop_bit 16 k), take_bit 8 (drop_bit 8 k), take_bit 8 k]"

lemma Te_ints_check:
  "map int_bytes Te0_ints = map (\<lambda>s. [xt s, s, s, xt s XOR s]) sbox_ints"
  "map int_bytes Te1_ints = map (\<lambda>s. [xt s XOR s, xt s, s, s]) sbox_ints"
  "map int_bytes Te2_ints = map (\<lambda>s. [s, xt s XOR s, xt s, s]) sbox_ints"
  "map int_bytes Te3_ints = map (\<lambda>s. [s, s, xt s XOR s, xt s]) sbox_ints"
  by code_simp+

lemma sbox_ints_range: "list_all (\<lambda>s. 0 \<le> s \<and> s < 256) sbox_ints"
  by code_simp

lemma length_tables [simp]:
  "length sbox_ints = 256" "length Te0_ints = 256" "length Te1_ints = 256" "length Te2_ints = 256" "length Te3_ints = 256"
  by code_simp+

lemma word_of_int_xt:
  assumes "0 \<le> s" "s < 256"
  shows "(word_of_int (xt s) :: byte) = xtime (word_of_int s)"
proof -
  have "s div 2 ^ 7 = (if 128 \<le> s then 1 else 0)"
    using assms div_pos_geq [of 128 s] by (simp add: div_pos_pos_trivial)
  then have "bit s 7 \<longleftrightarrow> 128 \<le> s"
    unfolding bit_iff_odd by simp
  then have "bit (word_of_int s :: byte) 7 \<longleftrightarrow> 128 \<le> s"
    by (simp add: bit_word_of_int_iff)
  moreover have "(word_of_int (2 * s XOR 283) :: byte) = push_bit 1 (word_of_int s) XOR 0x1B"
  proof -
    have "(word_of_int (2 * s XOR 283) :: byte) = word_of_int (2 * s) XOR word_of_int 283"
      by (rule of_int_xor_eq)
    also have "(word_of_int 283 :: byte) = 0x1B" by simp
    also have "(word_of_int (2 * s) :: byte) = push_bit 1 (word_of_int s)"
      by (simp add: push_bit_eq_mult mult.commute)
    finally show ?thesis .
  qed
  ultimately show ?thesis
    by (simp add: xt_def xtime_def push_bit_eq_mult)
qed

lemma be32_word_of_int: "be32 (word_of_int k) = map word_of_int (int_bytes k)"
proof -
  have "(ucast (drop_bit n (word_of_int k :: word32)) :: byte) = word_of_int (take_bit 8 (drop_bit n k))" if "n \<le> 24" for n
    using that by (intro bit_word_eqI) (auto simp: bit_simps bit_word_of_int_iff)
  from this [of 24] this [of 16] this [of 8] this [of 0] show ?thesis
    by (simp add: be32_def bytes_of_word32_def int_bytes_def)
qed

lemma GETBYTE_byte: "GETBYTE w k = ucast (ucast (drop_bit (8 * k) w) :: byte)"
proof -
  have m: "(0xFF :: word32) = mask 8" by (simp add: mask_eq_exp_minus_1)
  show ?thesis
    unfolding GETBYTE_def m by (rule bit_word_eqI) (auto simp: bit_simps simp del: mask_numeral)
qed

lemma ucast_up_down [simp]: "(ucast (ucast b :: word32) :: byte) = b"
  by (rule bit_word_eqI) (simp add: bit_simps)

lemma GetTable_be32:
  fixes b :: byte
  assumes "map int_bytes T = map f sbox_ints" "length T = 256"
  shows "be32 (GetTable (map word_of_int T) (ucast b)) = map word_of_int (f (sbox_ints ! unat b))"
proof -
  have b: "unat (ucast b :: word32) = unat b" "unat b < 256"
    using unsigned_less [of b, where ?'a = nat] by (simp_all add: unsigned_ucast_eq take_bit_nat_eq_self)
  have "int_bytes (T ! unat b) = f (sbox_ints ! unat b)"
    using arg_cong [OF assms(1), of "\<lambda>l. l ! unat b"] assms(2) b by simp
  then show ?thesis
    using assms(2) b by (simp add: GetTable_def be32_word_of_int)
qed

lemma sbox_entry:
  "word_of_int (xt (sbox_ints ! unat b)) = xtime (sbox b)" "word_of_int (sbox_ints ! unat b) = sbox b"
proof -
  have "0 \<le> sbox_ints ! unat b \<and> sbox_ints ! unat b < 256"
    using sbox_ints_range unsigned_less [of b, where ?'a = nat] by (simp add: list_all_length)
  then show "word_of_int (xt (sbox_ints ! unat b)) = xtime (sbox b)"
    by (simp add: word_of_int_xt sbox_def)
qed (simp add: sbox_def)

lemma Te_be32:
  fixes b :: byte
  shows "be32 (GetTable (Te 0) (ucast b)) = [xtime (sbox b), sbox b, sbox b, xtime (sbox b) XOR sbox b]"
    and "be32 (GetTable (Te 1) (ucast b)) = [xtime (sbox b) XOR sbox b, xtime (sbox b), sbox b, sbox b]"
    and "be32 (GetTable (Te 2) (ucast b)) = [sbox b, xtime (sbox b) XOR sbox b, xtime (sbox b), sbox b]"
    and "be32 (GetTable (Te 3) (ucast b)) = [sbox b, sbox b, xtime (sbox b) XOR sbox b, xtime (sbox b)]"
  by (simp_all add: Te_def GetTable_be32 [OF Te_ints_check(1)] GetTable_be32 [OF Te_ints_check(2)]
      GetTable_be32 [OF Te_ints_check(3)] GetTable_be32 [OF Te_ints_check(4)] sbox_entry of_int_xor_eq)

section \<open>Rounds\<close>

fun cols_bytes :: "aes_cols \<Rightarrow> byte list" where
  "cols_bytes (s0, s1, s2, s3) = be32 s0 @ be32 s1 @ be32 s2 @ be32 s3"

lemma be32_xor: "be32 (a XOR b) = xor_bytes (be32 a) (be32 b)"
  by (simp add: be32_def bytes_of_word32_def xor_bytes_def unsigned_xor_eq)

lemma be32_and:
  "be32 (w AND 0xff000000) = [be32 w ! 0, 0, 0, 0]" "be32 (w AND 0x00ff0000) = [0, be32 w ! 1, 0, 0]"
  "be32 (w AND 0x0000ff00) = [0, 0, be32 w ! 2, 0]" "be32 (w AND 0x000000ff) = [0, 0, 0, be32 w ! 3]"
  by (auto simp: be32_def bytes_of_word32_def bit_simps less_8_cases intro!: bit_word_eqI)

text \<open>The four bytes of a word, most significant first.\<close>

lemma be32_GETBYTE: "be32 w = [ucast (GETBYTE w 3), ucast (GETBYTE w 2), ucast (GETBYTE w 1), ucast (GETBYTE w 0)]"
  by (auto simp: GETBYTE_byte be32_def bytes_of_word32_def bit_simps intro!: bit_word_eqI)

lemma GETBYTE_ucast: "GETBYTE w k = ucast (ucast (GETBYTE w k) :: byte)"
  by (auto simp: GETBYTE_byte bit_simps intro!: bit_word_eqI)

lemma be32_enc_col:
  "be32 (enc_col a b c d k) = xor_bytes (mix_columns (sub_bytes
     [ucast (GETBYTE a 3), ucast (GETBYTE b 2), ucast (GETBYTE c 1), ucast (GETBYTE d 0)])) (be32 k)"
proof -
  define p q r s :: byte where "p = ucast (GETBYTE a 3)" "q = ucast (GETBYTE b 2)" "r = ucast (GETBYTE c 1)" "s = ucast (GETBYTE d 0)"
  then have "GETBYTE a 3 = ucast p" "GETBYTE b 2 = ucast q" "GETBYTE c 1 = ucast r" "GETBYTE d 0 = ucast s"
    by (simp_all flip: GETBYTE_ucast)
  then show ?thesis
    by (simp add: enc_col_def be32_xor Te_be32 sub_bytes_def ac_simps be32_GETBYTE [of k] del: One_nat_def)
qed

lemma be32_last_col:
  "be32 (last_col a b c d k) = xor_bytes (sub_bytes
     [ucast (GETBYTE a 3), ucast (GETBYTE b 2), ucast (GETBYTE c 1), ucast (GETBYTE d 0)]) (be32 k)"
proof -
  define p q r s :: byte where "p = ucast (GETBYTE a 3)" "q = ucast (GETBYTE b 2)" "r = ucast (GETBYTE c 1)" "s = ucast (GETBYTE d 0)"
  then have "GETBYTE a 3 = ucast p" "GETBYTE b 2 = ucast q" "GETBYTE c 1 = ucast r" "GETBYTE d 0 = ucast s"
    by (simp_all flip: GETBYTE_ucast)
  then show ?thesis
    by (simp add: last_col_def be32_xor be32_and Te_be32 sub_bytes_def be32_GETBYTE [of k] del: One_nat_def)
qed

lemma cols_enc_round:
  "cols_bytes (enc_round rk k st) = xor_bytes (mix_columns (shift_rows (sub_bytes (cols_bytes st))))
     (be32 (rk ! k) @ be32 (rk ! (k + 1)) @ be32 (rk ! (k + 2)) @ be32 (rk ! (k + 3)))"
proof -
  obtain s0 s1 s2 s3 where st: "st = (s0, s1, s2, s3)" by (cases st)
  show ?thesis
    by (simp add: st be32_enc_col be32_GETBYTE [of s0] be32_GETBYTE [of s1] be32_GETBYTE [of s2]
        be32_GETBYTE [of s3] shift_rows_def sub_bytes_def be32_GETBYTE [of "rk ! _"])
qed

lemma cols_last_round:
  "cols_bytes (last_round rk k st) = xor_bytes (shift_rows (sub_bytes (cols_bytes st)))
     (be32 (rk ! k) @ be32 (rk ! (k + 1)) @ be32 (rk ! (k + 2)) @ be32 (rk ! (k + 3)))"
proof -
  obtain s0 s1 s2 s3 where st: "st = (s0, s1, s2, s3)" by (cases st)
  show ?thesis
    by (simp add: st be32_last_col be32_GETBYTE [of s0] be32_GETBYTE [of s1] be32_GETBYTE [of s2]
        be32_GETBYTE [of s3] shift_rows_def sub_bytes_def be32_GETBYTE [of "rk ! _"])
qed

lemma be32_word: "length bs = 4 \<Longrightarrow> be32 (ByteReverseWord32 (word32_of_bytes bs)) = bs"
  by (simp add: be32_def ByteReverseWord32_bytes)

lemma cols_load_block:
  assumes "length b = 16"
  shows "cols_bytes (load_block b) = b"
proof -
  have "take 4 b @ take 4 (drop 4 b) @ take 4 (drop 8 b) @ take 4 (drop 12 b) = b"
    using assms append_take_drop_id [of 4 b] append_take_drop_id [of 4 "drop 4 b"]
      append_take_drop_id [of 4 "drop 8 b"] by simp
  then show ?thesis using assms by (simp add: be32_word)
qed

lemma cols_add_key:
  "cols_bytes (add_key rk st) = xor_bytes (cols_bytes st) (be32 (rk ! 0) @ be32 (rk ! 1) @ be32 (rk ! 2) @ be32 (rk ! 3))"
  by (cases st) (simp add: be32_xor xor_bytes_append)

lemma store_block_cols: "store_block st = cols_bytes st"
  by (cases st) (simp add: be32_def ByteReverseWord32_bytes)

lemma PreFetchTe_0: "PreFetchTe = 0"
proof -
  have "fold (\<lambda>(i, j) x. x AND Te i ! (8 * j)) xs 0 = 0" for xs
    by (induction xs) (auto split: prod.splits)
  then show ?thesis by (simp add: PreFetchTe_def)
qed

text \<open>The unrolled code runs as many rounds as the standard for 10, 12 and 14 rounds.\<close>

definition code_rounds :: "word32 list \<Rightarrow> nat \<Rightarrow> aes_cols \<Rightarrow> aes_cols" where
  "code_rounds rk nr st = fold (\<lambda>i. enc_round rk (4 * i)) [1..<nr] st"

lemma AesEncrypt_C_rounds:
  assumes "r = 5 \<or> r = 6 \<or> r = 7"
  shows "AesEncrypt_C aes b r pf =
    store_block (last_round (aes_key aes) (4 * (2 * r)) (code_rounds (aes_key aes) (2 * r) (add_key (aes_key aes) (load_block b))))"
proof -
  obtain s0 s1 s2 s3 where s: "add_key (aes_key aes) (load_block b) = (s0, s1, s2, s3)"
    by (cases "add_key (aes_key aes) (load_block b)")
  have u: "[Suc 0..<10] = [1, 2, 3, 4, 5, 6, 7, 8, 9]" "[Suc 0..<12] = [1, 2, 3, 4, 5, 6, 7, 8, 9, 10, 11]"
    "[Suc 0..<14] = [1, 2, 3, 4, 5, 6, 7, 8, 9, 10, 11, 12, 13]" by (simp_all add: upt_rec)
  show ?thesis
    using assms
    by (auto simp: AesEncrypt_C_def s PreFetchTe_0 Let_def ENC_ROUND_T_S_def ENC_ROUND_S_T_def code_rounds_def u
        simp del: enc_round.simps last_round.simps load_block.simps add_key.simps)
qed

lemma AesEncrypt_C_cipher:
  assumes "r = 5 \<or> r = 6 \<or> r = 7" "length b = 16" "\<forall>i < 8 * r + 4. aes_key aes ! i = w i"
  shows "AesEncrypt_C aes b r pf = aes_cipher w (2 * r) b"
proof -
  let ?rk = "aes_key aes"
  have key: "be32 (?rk ! (4 * i)) @ be32 (?rk ! (4 * i + 1)) @ be32 (?rk ! (4 * i + 2)) @ be32 (?rk ! (4 * i + 3)) =
      round_key w i" if "i \<le> 2 * r" for i
    using assms(3) that by (simp add: round_key_def)
  have rounds: "cols_bytes (code_rounds ?rk n st) = fold (aes_round w) [1..<n] (cols_bytes st)" if "n \<le> 2 * r" for n st
    using that
  proof (induction n)
    case (Suc n)
    then show ?case
      using key [of n] cols_enc_round [of ?rk "4 * n" "code_rounds ?rk n st"]
      by (cases "n = 0") (simp_all add: code_rounds_def aes_round_def)
  qed (simp add: code_rounds_def)
  have key0: "be32 (?rk ! 0) @ be32 (?rk ! 1) @ be32 (?rk ! 2) @ be32 (?rk ! 3) = round_key w 0"
    using key [of 0] by (simp add: numeral_2_eq_2)
  show ?thesis
    using key0 key [of "2 * r"] cols_add_key [of ?rk "load_block b"]
    by (simp add: AesEncrypt_C_rounds [OF assms(1)] store_block_cols cols_last_round rounds
        cols_load_block [OF assms(2)] aes_cipher_def aes_final_def
        del: enc_round.simps last_round.simps load_block.simps add_key.simps)
qed

section \<open>The key schedule is the one of FIPS 197\<close>

lemma be32_eqD: "be32 a = be32 b \<Longrightarrow> a = b"
  by (metis be32_def rev_rev_ident word32_of_bytes_of_word32)

lemma be32_sub_word: "be32 (sub_word x) = map sbox (be32 x)"
  by (simp add: sub_word_def be32_def rev_map)

lemma GETBYTE_rotl:
  "GETBYTE (word_rotl 8 x) 3 = GETBYTE x 2" "GETBYTE (word_rotl 8 x) 2 = GETBYTE x 1"
  "GETBYTE (word_rotl 8 x) 1 = GETBYTE x 0" "GETBYTE (word_rotl 8 x) 0 = GETBYTE x 3"
  by (auto simp: GETBYTE_byte bit_simps bit_word_rotl_iff less_8_cases intro!: bit_word_eqI)

lemma sub_plain_sub_word: "sub_plain x = sub_word x"
proof -
  have "sub_plain x = last_col x x x x 0" by (simp add: sub_plain_def last_col_def)
  then show ?thesis
    by (intro be32_eqD) (simp add: be32_last_col be32_sub_word be32_GETBYTE [of x] be32_GETBYTE [of 0] GETBYTE_def sub_bytes_def)
qed

lemma sub_rot_sub_word: "sub_rot x = sub_word (word_rotl 8 x)"
proof -
  have "sub_rot x = sub_plain (word_rotl 8 x)"
    by (simp only: sub_rot_def sub_plain_def GETBYTE_rotl)
  then show ?thesis by (simp add: sub_plain_sub_word)
qed

lemma rcon_rcon_word:
  assumes "i < 10"
  shows "rcon ! i = rcon_word (Suc i)"
proof -
  have x: "xtime 1 = 2" "xtime 2 = 4" "xtime 4 = 8" "xtime 8 = 0x10" "xtime 0x10 = 0x20" "xtime 0x20 = 0x40"
    "xtime 0x40 = 0x80" "xtime 0x80 = 0x1B" "xtime 0x1B = 0x36"
    by (simp_all add: xtime_def bit_numeral_rec)
  have p: "(xtime ^^ numeral k) y = xtime ((xtime ^^ pred_numeral k) y)" for k y
    by (simp add: numeral_eq_Suc)
  have "i \<in> {0, 1, 2, 3, 4, 5, 6, 7, 8, 9}" using assms by auto
  then show ?thesis
    by (elim insertE emptyE) (simp_all add: rcon_def rcon_word_def x p)
qed

text \<open>The first \<open>n\<close> words of the schedule buffer hold \<open>w\<close>.\<close>

definition sched :: "(nat \<Rightarrow> word32) \<Rightarrow> nat \<Rightarrow> word32 list \<Rightarrow> bool" where
  "sched w n rk \<longleftrightarrow> length rk = 60 \<and> (\<forall>j < n. rk ! j = w j)"

lemma sched_upd: "\<lbrakk>sched w n rk; n < 60; v = w n\<rbrakk> \<Longrightarrow> sched w (Suc n) (rk[n := v])"
  by (auto simp: sched_def less_Suc_eq nth_list_update)

lemma sched_nth: "\<lbrakk>sched w n rk; j < n\<rbrakk> \<Longrightarrow> rk ! j = w j"
  by (simp add: sched_def)

lemma key_word_head:
  "0 < nk \<Longrightarrow> key_word key nk (nk * i + nk) = key_word key nk (nk * i) XOR
     sub_word (word_rotl 8 (key_word key nk (nk * i + (nk - 1)))) XOR rcon_word (Suc i)"
  by (subst key_word.simps) (simp add: Let_def xor.assoc)

lemma key_word_step:
  "\<lbrakk>0 < k; k < nk\<rbrakk> \<Longrightarrow> key_word key nk (nk * i + (nk + k)) = key_word key nk (nk * i + k) XOR
     (if 6 < nk \<and> k = 4 then sub_word (key_word key nk (nk * i + (nk + k - 1))) else key_word key nk (nk * i + (nk + k - 1)))"
proof -
  assume k: "0 < k" "k < nk"
  have "nk * i + (nk + k) = k + nk * Suc i" by simp
  then have "(nk * i + (nk + k)) mod nk = k" using k by (simp only: mod_mult_self2) simp
  then show ?thesis using k by (subst key_word.simps) (simp add: Let_def ac_simps)
qed

lemma sched_rk_head:
  assumes "sched (key_word key nk) (nk * i + nk) rk" "0 < nk" "i < 10" "nk * i + nk < 60"
  shows "sched (key_word key nk) (nk * i + (nk + 1)) (rk_head (nk * i) nk i rk)"
  using assms sched_upd [OF assms(1)] key_word_head [of nk key i]
  by (simp add: rk_head_def sched_nth [OF assms(1)] sub_rot_sub_word rcon_rcon_word)

lemma sched_rk_xor:
  assumes "sched (key_word key nk) (b + a) rk" "nk dvd b" "a = nk + k" "Suc j = a" "0 < k" "k < nk"
    "\<not> (6 < nk \<and> k = 4)" "b + a < 60" "n = Suc (b + a)"
  shows "sched (key_word key nk) n (rk_xor b a k j rk)"
proof -
  obtain i where "b = nk * i" using assms(2) by (rule dvdE)
  moreover have "nk * i + (nk + k - 1) = nk * i + j" "nk * i + (nk + k) - Suc 0 = nk * i + j" using assms(3,4) by linarith+
  ultimately have "rk ! (b + k) XOR rk ! (b + j) = key_word key nk (b + a)"
    using assms key_word_step [of k nk key i] by (auto simp: sched_nth [OF assms(1)])
  then show ?thesis
    using sched_upd [OF assms(1)] assms by (simp add: rk_xor_def)
qed

lemma sched_rk_mid:
  assumes "sched (key_word key 8) (8 * i + 12) rk" "i < 6" "n = Suc (8 * i + 12)"
  shows "sched (key_word key 8) n (rk_mid (8 * i) rk)"
  using assms sched_upd [OF assms(1)] key_word_step [of 4 8 key i]
  by (simp add: rk_mid_def sched_nth [OF assms(1)] sub_plain_sub_word)

lemma sched_expand_16:
  assumes "sched (key_word key 4) (4 * i + 4) rk" "i < 10"
  shows "sched (key_word key 4) (4 * Suc i + 4) (expand_16 i rk)"
  using sched_rk_head [OF assms(1)] assms(2) unfolding expand_16_def Let_def
  by (intro sched_rk_xor) (simp_all add: less_Suc_eq_le)

lemma sched_expand_24_front:
  assumes "sched (key_word key 6) (6 * i + 6) rk" "i < 8"
  shows "sched (key_word key 6) (6 * i + 10) (expand_24_front i rk)"
  using sched_rk_head [OF assms(1)] assms(2) unfolding expand_24_front_def Let_def
  by (intro sched_rk_xor) simp_all

lemma sched_expand_24:
  assumes "sched (key_word key 6) (6 * i + 6) rk" "i < 7"
  shows "sched (key_word key 6) (6 * Suc i + 6) (expand_24 i rk)"
  using sched_expand_24_front [OF assms(1)] assms(2) unfolding expand_24_def Let_def
  by (intro sched_rk_xor) simp_all

lemma sched_expand_32_front:
  assumes "sched (key_word key 8) (8 * i + 8) rk" "i < 7"
  shows "sched (key_word key 8) (8 * i + 12) (expand_32_front i rk)"
  using sched_rk_head [OF assms(1)] assms(2) unfolding expand_32_front_def Let_def
  by (intro sched_rk_xor) simp_all

lemma sched_expand_32:
  assumes "sched (key_word key 8) (8 * i + 8) rk" "i < 6"
  shows "sched (key_word key 8) (8 * Suc i + 8) (expand_32 i rk)"
  using sched_rk_mid [OF sched_expand_32_front [OF assms(1)], of "8 * i + 13"] assms(2) unfolding expand_32_def Let_def
  by (intro sched_rk_xor) simp_all

lemma sched_fold:
  assumes "\<And>i rk. sched w (nk * i + nk) rk \<Longrightarrow> i < n \<Longrightarrow> sched w (nk * Suc i + nk) (f i rk)" "sched w nk rk" "m \<le> n"
  shows "sched w (nk * m + nk) (fold f [0..<m] rk)"
  using assms(3)
proof (induction m)
  case (Suc m)
  then show ?case using assms(1) [of m "fold f [0..<m] rk"] by simp
qed (simp add: assms(2))

lemma load_key_words:
  assumes "length rk = 60" "length key = 4 * nk" "nk \<le> 8"
  shows "load_key rk key (4 * nk) = map ByteReverseWord32 (words_of_bytes key) @ drop nk rk"
proof -
  have "words_of_bytes (blit (bytes_of_words rk) 0 key) = words_of_bytes key @ drop nk rk"
    using assms by (simp add: blit_def drop_bytes_of_words words_of_bytes_append)
  then show ?thesis using assms by (simp add: load_key_def ByteReverseWords_def)
qed

lemma sched_loaded:
  "\<lbrakk>length rk = 60; length key = 4 * nk; nk \<le> 8\<rbrakk> \<Longrightarrow> sched (key_word key nk) nk (load_key rk key (4 * nk))"
  by (auto simp: load_key_words sched_def nth_append nth_words_of_bytes key_word.simps)

lemma AesSetKey_C_sched:
  assumes "length (aes_key aes) = 60" "nk = 4 \<or> nk = 6 \<or> nk = 8" "length key = 4 * nk"
  shows "sched (key_word key nk) (4 * nk + 28) (aes_key (AesSetKey_C aes key (4 * nk)))"
proof -
  let ?w = "key_word key nk"
  define rk1 where "rk1 = load_key (aes_key aes) key (4 * nk)"
  have l: "sched ?w nk rk1"
    unfolding rk1_def by (rule sched_loaded) (use assms in auto)
  have e: "aes_key (AesSetKey_C aes key (4 * nk)) =
    (if nk = 4 then fold expand_16 [0..<10] rk1
     else if nk = 6 then expand_24_front 7 (fold expand_24 [0..<7] rk1)
     else expand_32_front 6 (fold expand_32 [0..<6] rk1))"
    using assms(2,3) by (auto simp: AesSetKey_C_def rk1_def Let_def)
  consider (k16) "nk = 4" | (k24) "nk = 6" | (k32) "nk = 8" using assms(2) by blast
  then show ?thesis
  proof cases
    case k16
    then show ?thesis using sched_fold [of ?w 4 10 expand_16 rk1 10] l sched_expand_16 unfolding e by simp
  next
    case k24
    then show ?thesis
      using sched_expand_24_front [of key 7] sched_fold [of ?w 6 7 expand_24 rk1 7] l sched_expand_24 unfolding e by simp
  next
    case k32
    then show ?thesis
      using sched_expand_32_front [of key 6] sched_fold [of ?w 8 6 expand_32 rk1 6] l sched_expand_32 unfolding e by simp
  qed
qed

lemma AesSetKey_C_frame [simp]:
  "rounds (AesSetKey_C aes key n) = rounds aes" "keylen (AesSetKey_C aes key n) = keylen aes"
  by (simp_all add: AesSetKey_C_def Let_def)

text \<open>An \<open>Aes\<close> object whose schedule is the expansion of \<open>key\<close>.\<close>

definition aes_keyed :: "Aes \<Rightarrow> byte list \<Rightarrow> bool" where
  "aes_keyed aes key \<longleftrightarrow> length key \<in> {16, 24, 32} \<and> keyInstalled aes \<and> rounds aes = length key div 4 + 6 \<and>
     keylen aes = length key \<and> sched (key_word key (length key div 4)) (length key + 28) (aes_key aes)"

lemma wc_AesSetKey_eq:
  assumes "length key \<in> {16, 24, 32}"
  shows "wc_AesSetKey aes key (length key) iv =
    (0, AesSetKey_C (aes\<lparr>keyInstalled := False, keylen := length key, rounds := length key div 4 + 6,
        aes_reg := aes_reg (snd (wc_AesSetIV aes iv)), aes_key := load_key (aes_key aes) key (length key)\<rparr>)
        key (length key)\<lparr>keyInstalled := True\<rparr>)"
proof -
  have "length key \<le> 240" "length key = 16 \<or> length key = 24 \<or> length key = 32" using assms by auto
  then show ?thesis
    by (cases iv) (simp_all add: wc_AesSetKey_def wc_AesSetKeyLocal_def AesSetKeyLocal_body_def wc_AesSetIV_def Let_def)
qed

lemma wc_AesSetKey_keyed:
  assumes "length (aes_key aes) = 60" "length key \<in> {16, 24, 32}"
  shows "fst (wc_AesSetKey aes key (length key) iv) = 0" "aes_keyed (snd (wc_AesSetKey aes key (length key) iv)) key"
proof -
  define nk where "nk = length key div 4"
  then have nk: "nk = 4 \<or> nk = 6 \<or> nk = 8" "length key = 4 * nk" using assms(2) by auto
  show "fst (wc_AesSetKey aes key (length key) iv) = 0"
    by (simp add: wc_AesSetKey_eq [OF assms(2)])
  define a1 where "a1 = aes\<lparr>keyInstalled := False, keylen := length key, rounds := length key div 4 + 6,
        aes_reg := aes_reg (snd (wc_AesSetIV aes iv)), aes_key := load_key (aes_key aes) key (length key)\<rparr>"
  have "length (load_key (aes_key aes) key (4 * nk)) = 60"
    using nk load_key_words [of "aes_key aes" key nk] assms(1) by auto
  then have "sched (key_word key nk) (4 * nk + 28) (aes_key (AesSetKey_C a1 key (4 * nk)))"
    by (intro AesSetKey_C_sched [OF _ nk]) (simp add: a1_def nk(2))
  moreover have "rounds a1 = nk + 6" "keylen a1 = 4 * nk" by (simp_all add: a1_def nk(2))
  ultimately show "aes_keyed (snd (wc_AesSetKey aes key (length key) iv)) key"
    using nk(1) unfolding wc_AesSetKey_eq [OF assms(2)] a1_def [symmetric]
    unfolding aes_keyed_def nk(2) by auto
qed

lemma AesEncrypt_keyed:
  assumes "aes_keyed aes key" "length block = 16"
  shows "AesEncrypt_preFetchOpt aes block out pf = (0, aes_encrypt key block)"
proof -
  define nk where "nk = length key div 4"
  then have nk: "nk = 4 \<or> nk = 6 \<or> nk = 8" "length key = 4 * nk"
    using assms(1) by (auto simp: aes_keyed_def)
  define r where "r = (nk + 6) div 2"
  have r: "r = 5 \<or> r = 6 \<or> r = 7" "2 * r = nk + 6" "8 * r + 4 = 4 * nk + 28" using nk(1) by (auto simp: r_def)
  have "AesEncrypt_C aes block r pf = aes_cipher (key_word key nk) (2 * r) block"
    using assms nk(2) by (intro AesEncrypt_C_cipher r(1)) (simp_all add: r(3) aes_keyed_def sched_def)
  moreover have "rounds aes div 2 = r" "length key div 4 = nk"
    using assms(1) nk(2) by (simp_all add: aes_keyed_def r_def)
  ultimately show ?thesis
    using r(1) by (auto simp: AesEncrypt_preFetchOpt_def aes_encrypt_def r(2))
qed

lemma wc_AesEncrypt_keyed:
  "\<lbrakk>aes_keyed aes key; length block = 16\<rbrakk> \<Longrightarrow> wc_AesEncrypt aes block out = (0, aes_encrypt key block)"
  by (simp add: wc_AesEncrypt_def AesEncrypt_keyed)

lemma length_aes_encrypt [simp]: "length (aes_encrypt key block) = 16"
  by (simp add: aes_encrypt_def aes_cipher_def aes_final_def shift_rows_def round_key_def)

section \<open>Properties\<close>

text \<open>C21: After \<open>wc_AesSetKey\<close> with a 16, 24 or 32 byte key the call returns 0, the key is marked
  installed, its size is reported back, and encrypting any block, whatever the output buffer
  held, gives the AES encryption of FIPS 197 under that key.\<close>

theorem aes_encrypt_correct:
  assumes "length (aes_key aes) = 60" "length key \<in> {16, 24, 32}" "length block = 16"
  shows "case wc_AesSetKey aes key (length key) iv of (r, aes') \<Rightarrow>
    r = 0 \<and> keyInstalled aes' \<and> wc_AesGetKeySize aes' = (0, length key) \<and>
    wc_AesEncrypt aes' block out = (0, aes_encrypt key block)"
proof -
  obtain r aes' where e: "wc_AesSetKey aes key (length key) iv = (r, aes')" by fastforce
  then have "r = 0" "aes_keyed aes' key"
    using wc_AesSetKey_keyed [OF assms(1,2), of iv] by simp_all
  then show ?thesis
    using wc_AesEncrypt_keyed [of aes' key block out] assms(3)
    by (auto simp: e aes_keyed_def wc_AesGetKeySize_def)
qed

theorem aes_encrypt_correct_witness:
  "case wc_AesSetKey aes_zeroed (zeros 32) 32 None of (r, aes') \<Rightarrow>
    r = 0 \<and> keyInstalled aes' \<and> wc_AesGetKeySize aes' = (0, 32) \<and>
    wc_AesEncrypt aes' (zeros 16) [] = (0, aes_encrypt (zeros 32) (zeros 16))"
  using aes_encrypt_correct [where aes = aes_zeroed and key = "zeros 32" and block = "zeros 16" and iv = None and out = "[]"] by (simp add: aes_zeroed_def)

text \<open>A key of any other size is refused with \<open>BAD_FUNC_ARG\<close>: the key schedule is left as it
  was, and, unless the size is beyond the schedule buffer and the object is not touched at all,
  the object no longer counts as keyed.\<close>

theorem aes_bad_key_size:
  assumes "len \<notin> {16, 24, 32}"
  shows "case wc_AesSetKey aes key len iv of (r, aes') \<Rightarrow>
    r = BAD_FUNC_ARG \<and> aes' = (if len > 240 then aes else aes\<lparr>keyInstalled := False\<rparr>)"
  using assms
  by (simp add: wc_AesSetKey_def wc_AesSetKeyLocal_def AesSetKeyLocal_body_def BAD_FUNC_ARG_def)

theorem aes_bad_key_size_witness:
  "(20 :: nat) \<notin> {16, 24, 32} \<and> (case wc_AesSetKey aes_zeroed (zeros 20) 20 None of (r, aes') \<Rightarrow>
    r = BAD_FUNC_ARG \<and> aes' = aes_zeroed\<lparr>keyInstalled := False\<rparr>)"
  using aes_bad_key_size [where len = 20 and aes = aes_zeroed and key = "zeros 20" and iv = None] by simp

end
