(* ===== verification/Gcm.thy ===== *)
theory Gcm
  imports Aes Hmac
begin

text \<open>
  AES-GCM of \<open>wolfcrypt/src/aes.c\<close>: the counter increments, the multiplication of
  GHASH (bit by bit on two 64-bit words), GHASH, key set-up, one-shot encryption and
  decryption, the IV-managing interface and GMAC.

  The specification is SP 800-38D over 128-bit blocks.  Buffers handed to \<open>xorbuf\<close> and
  \<open>xorbufout\<close> are taken at aligned addresses: the result is the same at every alignment.
\<close>

section \<open>Counters\<close>

definition GCM_NONCE_MIN_SZ :: nat where [simp]: "GCM_NONCE_MIN_SZ = 8"
definition GCM_NONCE_MID_SZ :: nat where [simp]: "GCM_NONCE_MID_SZ = 12"
definition GCM_NONCE_MAX_SZ :: nat where [simp]: "GCM_NONCE_MAX_SZ = 16"
definition CTR_SZ :: nat where [simp]: "CTR_SZ = 4"

text \<open>The loop both increments share: from index \<open>i - 1\<close> down to \<open>lo\<close>, add one and stop at the
  first byte that does not wrap.\<close>

fun inc_loop :: "nat \<Rightarrow> nat \<Rightarrow> byte list \<Rightarrow> byte list" where
  "inc_loop lo 0 c = c"
| "inc_loop lo (Suc i) c =
     (if i < lo then c
      else let c' = c[i := c ! i + 1] in if c' ! i \<noteq> 0 then c' else inc_loop lo i c')"

definition IncCtr :: "byte list \<Rightarrow> nat \<Rightarrow> byte list" where
  "IncCtr ctr ctrSz = inc_loop 0 ctrSz ctr"

definition IncrementGcmCounter :: "byte list \<Rightarrow> byte list" where
  "IncrementGcmCounter inOutCtr = inc_loop (WC_AES_BLOCK_SIZE - CTR_SZ) WC_AES_BLOCK_SIZE inOutCtr"

definition wc_local_AesGcmCheckTagSz :: "nat \<Rightarrow> int" where
  "wc_local_AesGcmCheckTagSz authTagSz = (if authTagSz \<in> {12, 13, 14, 15, 16} then 0 else BAD_FUNC_ARG)"

section \<open>GHASH\<close>

type_synonym gblock = "word64 \<times> word64"

text \<open>One pass of the inner loop: \<open>Z\<close>, \<open>V\<close> and the word \<open>y\<close> whose top bit is looked at.\<close>

fun gmult_step :: "word64 \<times> word64 \<times> word64 \<times> word64 \<times> word64 \<Rightarrow> word64 \<times> word64 \<times> word64 \<times> word64 \<times> word64" where
  "gmult_step (z0, z1, v0, v1, y) =
     (let msk = 0 - drop_bit 63 y;
          red = (0 - (v1 AND 1)) AND 0xE100000000000000
      in (z0 XOR (v0 AND msk), z1 XOR (v1 AND msk),
          drop_bit 1 v0 XOR red, drop_bit 1 v1 OR push_bit 63 v0, push_bit 1 y))"

definition GMULT :: "gblock \<Rightarrow> gblock \<Rightarrow> gblock" where
  "GMULT X Y =
     (let (z0, z1, v0, v1, _) = (gmult_step ^^ 64) (0, 0, fst X, snd X, fst Y);
          (z0', z1', _, _, _) = (gmult_step ^^ 64) (z0, z1, v0, v1, snd Y)
      in (z0', z1'))"

text \<open>\<open>XMEMCPY\<close> of a block into two words and their byte reversal.\<close>

definition load_be64 :: "byte list \<Rightarrow> gblock" where
  "load_be64 b =
     (let big = [word64_of_bytes (take 8 b), word64_of_bytes (take 8 (drop 8 b))];
          big' = ByteReverseWords64 big big WC_AES_BLOCK_SIZE
      in (big' ! 0, big' ! 1))"

definition ghash_block :: "gblock \<Rightarrow> gblock \<Rightarrow> byte list \<Rightarrow> gblock" where
  "ghash_block bigH x b =
     (let big = load_be64 b in GMULT (fst x XOR fst big, snd x XOR snd big) bigH)"

fun ghash_loop :: "gblock \<Rightarrow> nat \<Rightarrow> byte list \<Rightarrow> gblock \<Rightarrow> gblock \<times> byte list" where
  "ghash_loop bigH 0 a x = (x, a)"
| "ghash_loop bigH (Suc blocks) a x =
     ghash_loop bigH blocks (drop WC_AES_BLOCK_SIZE a) (ghash_block bigH x (take WC_AES_BLOCK_SIZE a))"

definition ghash_data :: "gblock \<Rightarrow> byte list \<Rightarrow> gblock \<Rightarrow> gblock" where
  "ghash_data bigH a x =
     (let blocks = length a div WC_AES_BLOCK_SIZE;
          partial = length a mod WC_AES_BLOCK_SIZE;
          (x', rest) = ghash_loop bigH blocks a x
      in if partial \<noteq> 0
         then ghash_block bigH x' (blit (zeros WC_AES_BLOCK_SIZE) 0 (take partial rest))
         else x')"

definition GHASH :: "byte list \<Rightarrow> cbuf \<Rightarrow> cbuf \<Rightarrow> byte list \<Rightarrow> nat \<Rightarrow> byte list" where
  "GHASH H a c s sSz =
     (let bigH = load_be64 H;
          x1 = (if csize a \<noteq> 0 \<and> \<not> is_null a then ghash_data bigH (cbytes a) (0, 0) else (0, 0));
          x2 = (if csize c \<noteq> 0 \<and> \<not> is_null c then ghash_data bigH (cbytes c) x1 else x1);
          len0 = of_nat (csize a) * 8;
          len1 = of_nat (csize c) * 8;
          x3 = GMULT (fst x2 XOR len0, snd x2 XOR len1) bigH;
          xs = ByteReverseWords64 [fst x3, snd x3] [fst x3, snd x3] WC_AES_BLOCK_SIZE
      in blit s 0 (take sSz (bytes_of_word64 (xs ! 0) @ bytes_of_word64 (xs ! 1))))"

section \<open>Encryption and decryption\<close>

definition gcm_counter :: "Aes \<Rightarrow> byte list \<Rightarrow> byte list" where
  "gcm_counter aes iv =
     (if length iv = GCM_NONCE_MID_SZ
      then iv @ zeros (WC_AES_BLOCK_SIZE - GCM_NONCE_MID_SZ - 1) @ [1]
      else GHASH (gcm_H aes) (Null 0) (Buf iv) (zeros WC_AES_BLOCK_SIZE) WC_AES_BLOCK_SIZE)"

text \<open>The counter-mode loop over whole blocks, reading \<open>inp\<close> and writing \<open>out\<close> at \<open>off\<close>.  \<open>pf\<close> is
  the prefetch flag: encryption clears it after the first block, decryption never does
  (\<open>always\<close>).\<close>

fun gcm_ctr_blocks ::
    "bool \<Rightarrow> Aes \<Rightarrow> nat \<Rightarrow> byte list \<Rightarrow> nat \<Rightarrow> byte list \<Rightarrow> byte list \<Rightarrow> bool \<Rightarrow> int \<times> byte list \<times> byte list \<times> bool" where
  "gcm_ctr_blocks always aes 0 inp off out counter pf = (0, out, counter, pf)"
| "gcm_ctr_blocks always aes (Suc blocks) inp off out counter pf =
     (let counter' = IncrementGcmCounter counter;
          (r, scratch) = AesEncrypt_preFetchOpt aes counter' (zeros 16) pf
      in if r \<noteq> 0 then (r, out, counter', pf)
         else gcm_ctr_blocks always aes blocks inp (off + WC_AES_BLOCK_SIZE)
           (take off out @ xorbufout 0 0 0 (drop off out) scratch (drop off inp) WC_AES_BLOCK_SIZE)
           counter' (always \<and> pf))"

definition AES_GCM_encrypt_C ::
    "Aes \<Rightarrow> byte list \<Rightarrow> byte list \<Rightarrow> byte list \<Rightarrow> byte list \<Rightarrow> nat \<Rightarrow> cbuf \<Rightarrow> int \<times> byte list \<times> byte list" where
  "AES_GCM_encrypt_C aes out inp iv authTag authTagSz authIn =
     (let sz = length inp;
          blocks = sz div WC_AES_BLOCK_SIZE;
          partial = sz mod WC_AES_BLOCK_SIZE;
          initialCounter = gcm_counter aes iv;
          (r1, out1, counter, pf) = gcm_ctr_blocks False aes blocks inp 0 out initialCounter True
      in if r1 \<noteq> 0 then (r1, out1, authTag)
         else let c = WC_AES_BLOCK_SIZE * blocks;
                  counter' = IncrementGcmCounter counter;
                  (r2, scratch) = (if partial \<noteq> 0 then AesEncrypt_preFetchOpt aes counter' (zeros 16) pf
                                   else (0, zeros 16));
                  out2 = (if partial \<noteq> 0
                          then take c out1 @ xorbufout 0 0 0 (drop c out1) scratch (drop c inp) partial
                          else out1);
                  pf' = (partial = 0 \<and> pf)
              in if r2 \<noteq> 0 then (r2, out1, authTag)
                 else let tag1 = GHASH (gcm_H aes) authIn (Buf (take sz out2)) authTag authTagSz;
                          (r3, scratch') = AesEncrypt_preFetchOpt aes initialCounter scratch pf'
                      in if r3 \<noteq> 0 then (r3, out2, tag1)
                         else (0, out2, xorbuf 0 0 tag1 scratch' authTagSz))"

definition wc_AesGcmEncrypt ::
    "Aes \<Rightarrow> byte list option \<Rightarrow> cbuf \<Rightarrow> cbuf \<Rightarrow> byte list option \<Rightarrow> nat \<Rightarrow> cbuf \<Rightarrow> int \<times> byte list option \<times> byte list option" where
  "wc_AesGcmEncrypt aes out inp iv authTag authTagSz authIn =
     (if is_null iv \<or> csize iv = 0 \<or> (csize inp \<noteq> 0 \<and> (is_null inp \<or> out = None)) \<or>
         authTag = None \<or> (csize authIn > 0 \<and> is_null authIn)
      then (BAD_FUNC_ARG, out, authTag)
      else let r = wc_local_AesGcmCheckTagSz authTagSz
           in if r \<noteq> 0 then (r, out, authTag)
              else if \<not> keyInstalled aes then (MISSING_KEY, out, authTag)
              else case authTag of
                None \<Rightarrow> (BAD_FUNC_ARG, out, authTag)
              | Some tag \<Rightarrow>
                  let (r', out', tag') = AES_GCM_encrypt_C aes (case out of None \<Rightarrow> [] | Some b \<Rightarrow> b) (cbytes inp)
                        (cbytes iv) tag authTagSz authIn
                  in (r', map_option (\<lambda>_. out') out, Some tag'))"

text \<open>The masks of the tail of \<open>AES_GCM_decrypt_C\<close>: \<open>res\<close> becomes all ones when the tags differ.\<close>

definition gcm_res_mask :: "int \<Rightarrow> word32" where
  "gcm_res_mask res = 0 - drop_bit 31 (0 - word_of_int res)"

definition gcm_masked_ret :: "int \<Rightarrow> word32 \<Rightarrow> int" where
  "gcm_masked_ret r res = sint ((word_of_int r AND NOT res) OR (res AND word_of_int AES_GCM_AUTH_E))"

definition AES_GCM_decrypt_C ::
    "Aes \<Rightarrow> byte list \<Rightarrow> byte list \<Rightarrow> byte list \<Rightarrow> byte list \<Rightarrow> nat \<Rightarrow> cbuf \<Rightarrow> int \<times> byte list" where
  "AES_GCM_decrypt_C aes out inp iv authTag authTagSz authIn =
     (let sz = length inp;
          blocks = sz div WC_AES_BLOCK_SIZE;
          partial = sz mod WC_AES_BLOCK_SIZE;
          counter = gcm_counter aes iv;
          Tprime = GHASH (gcm_H aes) authIn (Buf inp) (zeros 16) WC_AES_BLOCK_SIZE;
          (r0, EKY0) = wc_AesEncrypt aes counter (zeros 16)
      in if r0 \<noteq> 0 then (r0, out)
         else let Tprime' = xorbuf 0 0 Tprime EKY0 WC_AES_BLOCK_SIZE;
                  (r1, out1, counter', _) = gcm_ctr_blocks True aes blocks inp 0 out counter True
              in if r1 \<noteq> 0 then (r1, out1)
                 else let c = WC_AES_BLOCK_SIZE * blocks;
                          (r2, scratch) = (if partial \<noteq> 0 then wc_AesEncrypt aes (IncrementGcmCounter counter') (zeros 16)
                                           else (r1, zeros 16));
                          out2 = (if partial \<noteq> 0
                                  then blit out1 c (take partial (xorbuf 0 0 scratch (drop c inp) partial))
                                  else out1)
                      in if r2 \<noteq> 0 then (r2, out1)
                         else let res = gcm_res_mask (ConstantCompare authTag Tprime' (int authTagSz));
                                  msk = ucast res :: byte
                              in (gcm_masked_ret r2 res,
                                  map (\<lambda>b. b AND NOT msk) (take sz out2) @ drop sz out2))"

definition wc_AesGcmDecrypt ::
    "Aes \<Rightarrow> byte list option \<Rightarrow> cbuf \<Rightarrow> cbuf \<Rightarrow> byte list option \<Rightarrow> nat \<Rightarrow> cbuf \<Rightarrow> int \<times> byte list option" where
  "wc_AesGcmDecrypt aes out inp iv authTag authTagSz authIn =
     (if is_null iv \<or> (csize inp \<noteq> 0 \<and> (is_null inp \<or> out = None)) \<or> authTag = None \<or> csize iv = 0
      then (BAD_FUNC_ARG, out)
      else let r = wc_local_AesGcmCheckTagSz authTagSz
           in if r \<noteq> 0 then (r, out)
              else if \<not> keyInstalled aes then (MISSING_KEY, out)
              else case authTag of
                None \<Rightarrow> (BAD_FUNC_ARG, out)
              | Some tag \<Rightarrow>
                  let (r', out') = AES_GCM_decrypt_C aes (case out of None \<Rightarrow> [] | Some b \<Rightarrow> b) (cbytes inp)
                        (cbytes iv) tag authTagSz authIn
                  in (r', map_option (\<lambda>_. out') out))"

definition wc_AesGcmSetKey :: "Aes \<Rightarrow> cbuf \<Rightarrow> int \<times> Aes" where
  "wc_AesGcmSetKey aes key =
     (let len = csize key
      in if \<not> (len = 16 \<or> len = 24 \<or> len = 32) then (BAD_FUNC_ARG, aes)
         else if is_null key then (BAD_FUNC_ARG, aes)
         else let iv = zeros WC_AES_BLOCK_SIZE;
                  (r, a1) = wc_AesSetKey aes (cbytes key) len (Some iv)
              in if r = 0
                 then let (r', H) = wc_AesEncrypt a1 iv (gcm_H a1) in (r', a1\<lparr>gcm_H := H\<rparr>)
                 else (r, a1))"

section \<open>IV management and GMAC\<close>

definition CheckAesGcmIvSize :: "nat \<Rightarrow> bool" where
  "CheckAesGcmIvSize ivSz \<longleftrightarrow> ivSz = GCM_NONCE_MIN_SZ \<or> ivSz = GCM_NONCE_MID_SZ \<or> ivSz = GCM_NONCE_MAX_SZ"

definition wc_AesGcmSetExtIV :: "Aes \<Rightarrow> cbuf \<Rightarrow> int \<times> Aes" where
  "wc_AesGcmSetExtIV aes iv =
     (if is_null iv \<or> \<not> CheckAesGcmIvSize (csize iv) then (BAD_FUNC_ARG, aes)
      else (0, aes\<lparr>aes_reg := blit (aes_reg aes) 0 (cbytes iv), invokeCtr0 := 0,
                   invokeCtr1 := (if csize iv = GCM_NONCE_MID_SZ then 0 else 0xFFFFFFFF),
                   nonceSz := csize iv\<rparr>))"

definition wc_AesGcmEncrypt_ex ::
    "Aes \<Rightarrow> byte list option \<Rightarrow> cbuf \<Rightarrow> byte list \<Rightarrow> nat \<Rightarrow> byte list option \<Rightarrow> nat \<Rightarrow> cbuf
      \<Rightarrow> int \<times> Aes \<times> byte list option \<times> byte list \<times> byte list option" where
  "wc_AesGcmEncrypt_ex aes out inp ivOut ivOutSz authTag authTagSz authIn =
     (if (csize inp \<noteq> 0 \<and> (is_null inp \<or> out = None)) \<or> ivOutSz \<noteq> nonceSz aes \<or>
         (is_null authIn \<and> csize authIn \<noteq> 0)
      then (BAD_FUNC_ARG, aes, out, ivOut, authTag)
      else let a1 = aes\<lparr>invokeCtr0 := invokeCtr0 aes + 1\<rparr>;
               a2 = (if invokeCtr0 a1 = 0 then a1\<lparr>invokeCtr1 := invokeCtr1 a1 + 1\<rparr> else a1)
           in if invokeCtr0 a1 = 0 \<and> invokeCtr1 a2 = 0
              then (AES_GCM_OVERFLOW_E, a2, out, ivOut, authTag)
              else let ivOut' = blit ivOut 0 (take ivOutSz (aes_reg a2));
                       (r, out', tag') = wc_AesGcmEncrypt a2 out inp (Buf (take ivOutSz ivOut')) authTag authTagSz authIn;
                       a3 = a2\<lparr>aes_reg := blit (aes_reg a2) 0 (take ivOutSz ivOut')\<rparr>;
                       a4 = (if r = 0 then a3\<lparr>aes_reg := IncCtr (aes_reg a3) ivOutSz\<rparr> else a3)
                   in (r, a4, out', ivOut', tag'))"

definition wc_GmacVerify :: "cbuf \<Rightarrow> cbuf \<Rightarrow> cbuf \<Rightarrow> cbuf \<Rightarrow> ('w, int) cmd" where
  "wc_GmacVerify key iv authIn authTag =
     (if is_null key \<or> is_null iv \<or> (is_null authIn \<and> csize authIn \<noteq> 0) \<or> is_null authTag \<or>
         csize authTag = 0 \<or> csize authTag > WC_AES_BLOCK_SIZE
      then ret BAD_FUNC_ARG
      else do {
        (r0, aes) \<leftarrow> wc_AesNew;
        let (r, aes') = (case aes of
            None \<Rightarrow> (r0, None)
          | Some a \<Rightarrow> (if r0 = 0
              then let (r1, a1) = wc_AesGcmSetKey a key
                   in if r1 = 0
                      then (fst (wc_AesGcmDecrypt a1 None (Null 0) iv (Some (cbytes authTag)) (csize authTag) authIn), Some a1)
                      else (r1, Some a1)
              else (r0, Some a)));
        _ \<leftarrow> wc_AesDelete aes';
        ret r
      })"

definition wc_GmacSetKey :: "Aes \<Rightarrow> cbuf \<Rightarrow> int \<times> Aes" where
  "wc_GmacSetKey gmac key = (if is_null key then (BAD_FUNC_ARG, gmac) else wc_AesGcmSetKey gmac key)"

definition wc_GmacUpdate :: "Aes \<Rightarrow> cbuf \<Rightarrow> cbuf \<Rightarrow> byte list option \<Rightarrow> nat \<Rightarrow> int \<times> byte list option" where
  "wc_GmacUpdate gmac iv authIn authTag authTagSz =
     (let (r, _, tag) = wc_AesGcmEncrypt gmac None (Null 0) iv authTag authTagSz authIn in (r, tag))"

section \<open>The field\<close>

type_synonym block128 = "128 word"

text \<open>A block is a polynomial with the coefficient of degree \<open>i\<close> in bit \<open>127 - i\<close>.  \<open>gf_x\<close> multiplies
  by \<open>x\<close> modulo \<open>x\<^sup>1\<^sup>2\<^sup>8 + x\<^sup>7 + x\<^sup>2 + x + 1\<close>.\<close>

definition gf_x :: "block128 \<Rightarrow> block128" where
  "gf_x v = (if bit v 0 then drop_bit 1 v XOR push_bit 120 0xE1 else drop_bit 1 v)"

definition gf_one :: block128 where
  "gf_one = push_bit 127 1"

definition gf_acc :: "(nat \<Rightarrow> bool) \<Rightarrow> block128 \<Rightarrow> nat \<Rightarrow> block128" where
  "gf_acc p y n = fold (\<lambda>i z. if p i then z XOR (gf_x ^^ i) y else z) [0..<n] 0"

definition gf_mul :: "block128 \<Rightarrow> block128 \<Rightarrow> block128" where
  "gf_mul x y = gf_acc (\<lambda>i. bit x (127 - i)) y 128"

lemma gf_acc_simps [simp]:
  "gf_acc p y 0 = 0" "gf_acc p y (Suc n) = (if p n then gf_acc p y n XOR (gf_x ^^ n) y else gf_acc p y n)"
  by (simp_all add: gf_acc_def)

lemma gf_x_xor: "gf_x (a XOR b) = gf_x a XOR gf_x b"
  by (simp add: gf_x_def bit_xor_iff ac_simps xor_self_eq) 

lemma gf_x_pow_xor: "(gf_x ^^ n) (a XOR b) = (gf_x ^^ n) a XOR (gf_x ^^ n) b"
  by (induction n) (simp_all add: gf_x_xor)

lemma gf_x_pow_0 [simp]: "(gf_x ^^ n) 0 = 0"
  by (induction n) (simp_all add: gf_x_def)

lemma gf_acc_linear: "gf_acc p (a XOR b) n = gf_acc p a n XOR gf_acc p b n"
  by (induction n) (simp_all add: gf_x_pow_xor ac_simps)

lemma gf_acc_cong: "(\<And>i. i < n \<Longrightarrow> p i = q i) \<Longrightarrow> gf_acc p y n = gf_acc q y n"
  by (induction n) simp_all

lemma gf_acc_xor: "gf_acc (\<lambda>i. p i \<noteq> q i) y n = gf_acc p y n XOR gf_acc q y n"
proof (induction n)
  case (Suc n)
  have "a XOR b = (a XOR c) XOR (b XOR c)" for a b c :: block128 by (simp add: ac_simps)
  then show ?case using Suc by (auto simp: ac_simps)
qed simp

lemma gf_acc_single: "gf_acc (\<lambda>i. i = k) y n = (if k < n then (gf_x ^^ k) y else 0)"
  by (induction n) (auto simp: less_Suc_eq)

lemma gf_mul_linear_right: "gf_mul x (a XOR b) = gf_mul x a XOR gf_mul x b"
  by (simp add: gf_mul_def gf_acc_linear)

lemma gf_mul_linear_left: "gf_mul (a XOR b) y = gf_mul a y XOR gf_mul b y"
  unfolding gf_mul_def bit_xor_iff by (rule gf_acc_xor)

lemma gf_x_pow_one: "k < 128 \<Longrightarrow> (gf_x ^^ k) gf_one = push_bit (127 - k) 1"
proof (induction k)
  case (Suc k)
  then have "(gf_x ^^ Suc k) gf_one = gf_x (push_bit (127 - k) 1)" by simp
  also have "\<dots> = drop_bit 1 (push_bit (127 - k) 1)"
    using Suc.prems by (simp add: gf_x_def bit_simps)
  also have "\<dots> = push_bit (127 - Suc k) (1 :: block128)"
    using Suc.prems by (intro bit_word_eqI) (auto simp: bit_simps)
  finally show ?case .
qed (simp add: gf_one_def)

lemma gf_mul_basis:
  assumes "k < 128"
  shows "gf_mul ((gf_x ^^ k) gf_one) y = (gf_x ^^ k) y"
proof -
  have "gf_mul ((gf_x ^^ k) gf_one) y = gf_acc (\<lambda>i. i = k) y 128"
    unfolding gf_mul_def gf_x_pow_one [OF assms]
    by (rule gf_acc_cong) (use assms in \<open>auto simp: bit_simps\<close>)
  then show ?thesis using assms by (simp add: gf_acc_single)
qed

lemma gf_mul_one_right: "gf_mul x gf_one = x"
proof -
  have "bit (gf_acc (\<lambda>i. bit x (127 - i)) gf_one n) j = (bit x j \<and> 128 - n \<le> j)" if "n \<le> 128" "j < 128" for n j
    using that
  proof (induction n)
    case (Suc n)
    then show ?case
      by (cases "j = 127 - n") (auto simp: gf_x_pow_one bit_simps)
  qed simp
  then show ?thesis by (intro bit_word_eqI) (simp add: gf_mul_def)
qed

lemma gf_linear_ext:
  assumes f: "\<And>a b. f (a XOR b) = f a XOR f b" and g: "\<And>a b. g (a XOR b) = g a XOR g b"
    and basis: "\<And>k. k < 128 \<Longrightarrow> f ((gf_x ^^ k) gf_one) = g ((gf_x ^^ k) gf_one)"
  shows "f x = (g x :: block128)"
proof -
  have 0: "f 0 = 0" "g 0 = 0" using f [of 0 0] g [of 0 0] by simp_all
  have "f (gf_acc p gf_one n) = g (gf_acc p gf_one n)" if "n \<le> 128" for p n
    using that by (induction n) (simp_all add: 0 f g basis)
  from this [of 128 "\<lambda>i. bit x (127 - i)"] show ?thesis
    using gf_mul_one_right [of x] by (simp add: gf_mul_def)
qed

lemma gf_x_pow_mul: "gf_mul x ((gf_x ^^ k) y) = (gf_x ^^ k) (gf_mul x y)"
proof -
  have "gf_acc p ((gf_x ^^ k) y) n = (gf_x ^^ k) (gf_acc p y n)" for p n
    by (induction n) (simp_all add: gf_x_pow_xor flip: funpow_add [THEN fun_cong, unfolded comp_def], simp add: add.commute)
  then show ?thesis by (simp add: gf_mul_def)
qed

lemma gf_mul_commute: "gf_mul x y = gf_mul y x"
proof (rule gf_linear_ext [where f = "\<lambda>x. gf_mul x y" and g = "\<lambda>x. gf_mul y x"])
  show "gf_mul ((gf_x ^^ k) gf_one) y = gf_mul y ((gf_x ^^ k) gf_one)" if "k < 128" for k
    using that by (simp add: gf_mul_basis gf_x_pow_mul gf_mul_one_right)
qed (simp_all add: gf_mul_linear_left gf_mul_linear_right)

section \<open>The multiplication\<close>

definition blk :: "gblock \<Rightarrow> block128" where
  "blk w = push_bit 64 (ucast (fst w)) OR ucast (snd w)"

lemma bit_blk: "bit (blk (a, b)) n = (if n < 64 then bit b n else bit a (n - 64))"
  by (auto simp: blk_def bit_simps dest: bit_imp_le_length)

lemma blk_xor: "blk (a XOR c, b XOR d) = blk (a, b) XOR blk (c, d)"
  by (rule bit_word_eqI) (simp add: bit_blk bit_xor_iff)

lemma blk_0 [simp]: "blk (0, 0) = 0"
  by (simp add: blk_def)

lemma sel_masks:
  "- drop_bit 63 (y :: word64) = (if bit y 63 then - 1 else 0)"
  "- (v AND 1) = (if bit v 0 then - 1 else (0 :: word64))"
proof -
  have "bit y (63 + n) \<Longrightarrow> n = 0" for n using bit_imp_le_length [of y "63 + n"] by simp
  then have "drop_bit 63 y = of_bool (bit y 63)"
    by (intro bit_word_eqI) (force simp: bit_simps)
  then show "- drop_bit 63 y = (if bit y 63 then - 1 else 0)" by simp
  show "- (v AND 1) = (if bit v 0 then - 1 else (0 :: word64))"
    by (simp add: and_one_eq bit_0 odd_iff_mod_2_eq_one)
qed

lemma gf_x_blk:
  "gf_x (blk (v0, v1)) = blk (drop_bit 1 v0 XOR ((0 - (v1 AND 1)) AND 0xE100000000000000), drop_bit 1 v1 OR push_bit 63 v0)"
proof -
  have r: "blk (0xE100000000000000, 0) = 0xE1000000000000000000000000000000" by (simp add: blk_def)
  have "Suc (n - 64) = n - 63" if "\<not> n < 64" for n :: nat using that by arith
  then have "drop_bit 1 (blk (v0, v1)) = blk (drop_bit 1 v0, drop_bit 1 v1 OR push_bit 63 v0)"
    by (intro bit_word_eqI) (auto simp: bit_simps bit_blk dest: bit_imp_le_length)
  moreover have "blk (drop_bit 1 v0 XOR 0xE100000000000000, w) = blk (drop_bit 1 v0, w) XOR blk (0xE100000000000000, 0)" for w
    by (simp flip: blk_xor)
  ultimately show ?thesis
    by (simp add: gf_x_def sel_masks bit_blk r del: blk_xor)
qed

lemma gmult_loop:
  "n \<le> 64 \<Longrightarrow> (gmult_step ^^ n) (z0, z1, v0, v1, y) = (a, b, c, d, e) \<Longrightarrow>
    blk (c, d) = (gf_x ^^ n) (blk (v0, v1)) \<and> e = push_bit n y \<and>
    blk (a, b) = blk (z0, z1) XOR gf_acc (\<lambda>i. bit y (63 - i)) (blk (v0, v1)) n"
proof (induction n arbitrary: a b c d e)
  case (Suc n)
  obtain a' b' c' d' e' where s: "(gmult_step ^^ n) (z0, z1, v0, v1, y) = (a', b', c', d', e')"
    by (cases "(gmult_step ^^ n) (z0, z1, v0, v1, y)") auto
  have ih: "blk (c', d') = (gf_x ^^ n) (blk (v0, v1))" "e' = push_bit n y"
    "blk (a', b') = blk (z0, z1) XOR gf_acc (\<lambda>i. bit y (63 - i)) (blk (v0, v1)) n"
    using Suc.IH [OF _ s] Suc.prems(1) by simp_all
  have "bit e' 63 = bit y (63 - n)" using Suc.prems(1) by (auto simp: ih(2) bit_simps)
  then have "blk (a, b) = blk (a', b') XOR (if bit y (63 - n) then blk (c', d') else 0)"
    "blk (c, d) = gf_x (blk (c', d'))" "e = push_bit 1 e'"
    using Suc.prems(2) by (auto simp: s Let_def sel_masks(1) blk_xor gf_x_blk)
  then show ?case using ih by (auto simp: ac_simps)
qed simp

lemma gf_acc_add:
  "gf_acc p y (m + n) = gf_acc p y m XOR gf_acc (\<lambda>i. p (m + i)) ((gf_x ^^ m) y) n"
  by (induction n) (simp_all add: ac_simps funpow_add [THEN fun_cong, unfolded comp_def] add.commute)

lemma GMULT_gf_mul: "blk (GMULT X Y) = gf_mul (blk X) (blk Y)"
proof -
  obtain x0 x1 y0 y1 where xy: "X = (x0, x1)" "Y = (y0, y1)" by fastforce
  obtain a b c d e where 1: "(gmult_step ^^ 64) (0, 0, x0, x1, y0) = (a, b, c, d, e)"
    by (cases "(gmult_step ^^ 64) (0, 0, x0, x1, y0)") auto
  obtain a' b' c' d' e' where 2: "(gmult_step ^^ 64) (a, b, c, d, y1) = (a', b', c', d', e')"
    by (cases "(gmult_step ^^ 64) (a, b, c, d, y1)") auto
  have "blk (a', b') = gf_acc (\<lambda>i. bit y0 (63 - i)) (blk X) 64 XOR gf_acc (\<lambda>i. bit y1 (63 - i)) ((gf_x ^^ 64) (blk X)) 64"
    using gmult_loop [OF _ 1] gmult_loop [OF _ 2] by (simp add: xy)
  also have "\<dots> = gf_acc (\<lambda>i. bit (blk Y) (127 - i)) (blk X) (64 + 64)"
    unfolding gf_acc_add by (intro arg_cong2 [where f = "(XOR)"] gf_acc_cong) (auto simp: xy bit_blk)
  also have "\<dots> = gf_mul (blk Y) (blk X)" by (simp add: gf_mul_def)
  finally show ?thesis by (simp add: GMULT_def xy 1 2 gf_mul_commute)
qed

section \<open>Blocks and bytes\<close>

definition be128 :: "byte list \<Rightarrow> block128" where
  "be128 bs = foldr (\<lambda>i w. w OR push_bit (8 * (15 - i)) (ucast (bs ! i))) [0..<16] 0"

definition bytes128 :: "block128 \<Rightarrow> byte list" where
  "bytes128 w = map (\<lambda>i. ucast (drop_bit (8 * (15 - i)) w)) [0..<16]"

lemma length_bytes128 [simp]: "length (bytes128 w) = 16"
  by (simp add: bytes128_def)

lemma byte_of_bit_index:
  fixes n m :: nat
  assumes "n < 8 * m"
  obtains k r where "n = 8 * k + r" "k < m" "r < 8"
proof -
  show thesis using assms by (intro that [of "n div 8" "n mod 8"]) (auto simp: less_mult_imp_div_less mult.commute)
qed

lemma bit_be128:
  assumes "k < 16" "r < 8"
  shows "bit (be128 bs) (8 * k + r) = bit (bs ! (15 - k)) r"
proof -
  have "bit (foldr (\<lambda>i w. w OR push_bit (8 * (15 - i)) (ucast (bs ! i) :: block128)) xs 0) (8 * k + r) =
    (\<exists>i \<in> set xs. 8 * (15 - i) \<le> 8 * k + r \<and> bit (bs ! i) (8 * k + r - 8 * (15 - i)))" for xs
    using assms by (induction xs) (auto simp: bit_simps)
  moreover have "(8 * (15 - i) \<le> 8 * k + r \<and> bit (bs ! i) (8 * k + r - 8 * (15 - i))) = (i = 15 - k \<and> bit (bs ! i) r)"
    if i: "i < 16" for i
  proof -
    consider "i = 15 - k" | "15 - i < k" | "k < 15 - i" using i assms by linarith
    then show ?thesis
    proof cases
      case 2
      then have "8 \<le> 8 * k + r - 8 * (15 - i)" by linarith
      then show ?thesis using 2 assms by (auto simp: bit_byte_ge)
    qed (use assms i in auto)
  qed
  ultimately show ?thesis using assms by (auto simp: be128_def)
qed

lemma bytes128_be128: "length bs = 16 \<Longrightarrow> bytes128 (be128 bs) = bs"
  by (rule nth_equalityI, simp, rule bit_word_eqI) (simp add: bytes128_def bit_simps bit_be128)

lemma ByteReverseWord64_bit:
  assumes "k < 8" "r < 8"
  shows "bit (ByteReverseWord64 w) (8 * k + r) = bit w (8 * (7 - k) + r)"
proof -
  have "\<forall>n \<in> {..<64}. bit (ByteReverseWord64 w) n = bit w (8 * (7 - n div 8) + n mod 8)"
    by (simp add: lessThan_nat_numeral lessThan_Suc ByteReverseWord64_def rotlFixed64_def Let_def bit_simps
        flip: numeral_2_eq_2)
  then show ?thesis using assms by simp
qed

lemma blk_load_be64:
  assumes "length b = 16"
  shows "blk (load_be64 b) = be128 b"
proof (rule bit_word_eqI)
  fix n assume "n < LENGTH(128)"
  then have "n < 8 * 16" by simp
  then obtain k r where n: "n = 8 * k + r" "k < 16" "r < 8" by (rule byte_of_bit_index)
  have w: "bit (ByteReverseWord64 (word64_of_bytes bs)) (8 * j + r) = bit (bs ! (7 - j)) r" if "j < 8" for j bs
    using that n(3) by (simp add: ByteReverseWord64_bit bit_word64_of_bytes)
  have e: "load_be64 b = (ByteReverseWord64 (word64_of_bytes (take 8 b)), ByteReverseWord64 (word64_of_bytes (take 8 (drop 8 b))))"
    by (simp add: load_be64_def ByteReverseWords64_def)
  show "bit (blk (load_be64 b)) n = bit (be128 b) n"
  proof (cases "k < 8")
    case True
    then have "8 + (7 - k) = 15 - k" by arith
    then show ?thesis using True n assms w [of k] by (simp add: e bit_blk bit_be128)
  next
    case False
    then have "8 * k + r - 64 = 8 * (k - 8) + r" "k - 8 < 8" "7 - (k - 8) = 15 - k" "\<not> 8 * k + r < 64" using n by arith+
    then show ?thesis using n assms w [of "k - 8"] by (simp add: e bit_blk bit_be128)
  qed
qed

lemma bytes_of_reversed_words:
  "bytes_of_word64 (ByteReverseWord64 a) @ bytes_of_word64 (ByteReverseWord64 b) = bytes128 (blk (a, b))"
proof (rule nth_equalityI)
  fix i assume "i < length (bytes_of_word64 (ByteReverseWord64 a) @ bytes_of_word64 (ByteReverseWord64 b))"
  then have i: "i < 16" by simp
  show "(bytes_of_word64 (ByteReverseWord64 a) @ bytes_of_word64 (ByteReverseWord64 b)) ! i = bytes128 (blk (a, b)) ! i"
  proof (rule bit_word_eqI)
    fix r assume "r < LENGTH(8)"
    then have r: "r < 8" by simp
    show "bit ((bytes_of_word64 (ByteReverseWord64 a) @ bytes_of_word64 (ByteReverseWord64 b)) ! i) r = bit (bytes128 (blk (a, b)) ! i) r"
    proof (cases "i < 8")
      case True
      then have "\<not> 8 * (15 - i) + r < 64" "8 * (15 - i) + r - 64 = 8 * (7 - i) + r" by arith+
      then show ?thesis
        using True r ByteReverseWord64_bit [of i r a] by (simp add: nth_append bytes_of_word64_def bytes128_def bit_simps bit_blk)
    next
      case False
      then have "8 * (15 - i) + r < 64" "7 - (i - 8) = 15 - i" "i - 8 < 8" using i r by arith+
      then show ?thesis
        using False i r ByteReverseWord64_bit [of "i - 8" r b] by (simp add: nth_append bytes_of_word64_def bytes128_def bit_simps bit_blk)
    qed
  qed
qed simp

section \<open>SP 800-38D\<close>

text \<open>The blocks of a message, the last one filled up with zeros.\<close>

fun gblocks :: "byte list \<Rightarrow> block128 list" where
  "gblocks m = (if m = [] then [] else be128 (take 16 (m @ zeros 16)) # gblocks (drop 16 m))"

declare gblocks.simps [simp del]

definition len_block :: "nat \<Rightarrow> nat \<Rightarrow> block128" where
  "len_block a c = push_bit 64 (of_nat (8 * a)) OR of_nat (8 * c)"

definition ghash :: "block128 \<Rightarrow> block128 list \<Rightarrow> block128" where
  "ghash H bs = fold (\<lambda>b x. gf_mul (x XOR b) H) bs 0"

definition inc32 :: "byte list \<Rightarrow> byte list" where
  "inc32 b = take 12 b @ be32 (word32_of_bytes (rev (drop 12 b)) + 1)"

fun gctr :: "(byte list \<Rightarrow> byte list) \<Rightarrow> byte list \<Rightarrow> byte list \<Rightarrow> byte list" where
  "gctr E cb x = (if x = [] then [] else xor_bytes (E cb) (take 16 x) @ gctr E (inc32 cb) (drop 16 x))"

declare gctr.simps [simp del]

definition gcm_j0 :: "(byte list \<Rightarrow> byte list) \<Rightarrow> byte list \<Rightarrow> byte list" where
  "gcm_j0 E iv = (if length iv = 12 then iv @ [0, 0, 0, 1]
     else bytes128 (ghash (be128 (E (zeros 16))) (gblocks iv @ [len_block 0 (length iv)])))"

definition gcm_cipher :: "(byte list \<Rightarrow> byte list) \<Rightarrow> byte list \<Rightarrow> byte list \<Rightarrow> byte list" where
  "gcm_cipher E iv p = gctr E (inc32 (gcm_j0 E iv)) p"

definition gcm_tag :: "(byte list \<Rightarrow> byte list) \<Rightarrow> byte list \<Rightarrow> byte list \<Rightarrow> byte list \<Rightarrow> byte list" where
  "gcm_tag E iv aad c = xor_bytes (bytes128 (ghash (be128 (E (zeros 16)))
     (gblocks aad @ gblocks c @ [len_block (length aad) (length c)]))) (E (gcm_j0 E iv))"

section \<open>GHASH is the one of the standard\<close>

lemma ghash_block_gf:
  "length b = 16 \<Longrightarrow> blk (ghash_block h x b) = gf_mul (blk x XOR be128 b) (blk h)"
  using blk_load_be64 [of b]
  by (cases x; cases "load_be64 b") (simp add: ghash_block_def GMULT_gf_mul blk_xor Let_def)

lemma blk_ghash_data:
  "blk (ghash_data h a x) = fold (\<lambda>b x. gf_mul (x XOR b) (blk h)) (gblocks a) (blk x)"
proof (induction a arbitrary: x rule: gblocks.induct)
  case (1 a)
  consider (nil) "a = []" | (part) "a \<noteq> []" "length a < 16" | (full) "16 \<le> length a" by linarith
  then show ?case
  proof cases
    case nil
    then show ?thesis by (simp add: ghash_data_def gblocks.simps)
  next
    case part
    then have "take 16 (a @ zeros 16) = blit (zeros 16) 0 a" by (simp add: blit_def zeros_def)
    then show ?thesis using part
      by (subst gblocks.simps) (simp add: ghash_data_def ghash_block_gf gblocks.simps [of "[]"])
  next
    case full
    then have "a \<noteq> []" by auto
    moreover have "length a div 16 = Suc (length (drop 16 a) div 16)" "length a mod 16 = length (drop 16 a) mod 16"
      using full by (simp_all add: div_if mod_if)
    then have "ghash_data h a x = ghash_data h (drop 16 a) (ghash_block h x (take 16 a))"
      by (simp add: ghash_data_def)
    ultimately show ?thesis
      using 1 full by (subst gblocks.simps) (simp add: ghash_block_gf)
  qed
qed

lemma blk_lens:
  assumes "a < 2 ^ 32" "c < 2 ^ 32"
  shows "blk (of_nat a * 8, of_nat c * 8) = len_block a c"
proof -
  have "(ucast (of_nat n * 8 :: word64) :: block128) = of_nat (8 * n)" if "n < 2 ^ 32" for n
  proof -
    have "unat (of_nat n * 8 :: word64) = 8 * n"
      using that by (simp add: unat_word_ariths unat_of_nat take_bit_nat_eq_self)
    then show ?thesis by (metis of_nat_unat)
  qed
  from this [OF assms(1)] this [OF assms(2)] show ?thesis by (simp add: blk_def len_block_def)
qed

lemma ghash_append: "ghash H (as @ bs) = fold (\<lambda>b x. gf_mul (x XOR b) H) bs (ghash H as)"
  by (simp add: ghash_def)

lemma GHASH_ghash:
  assumes "length H = 16" "csize a < 2 ^ 32" "csize c < 2 ^ 32" "is_null a \<longrightarrow> csize a = 0" "is_null c \<longrightarrow> csize c = 0"
  shows "GHASH H a c s sSz = blit s 0 (take sSz (bytes128
    (ghash (be128 H) (gblocks (cbytes a) @ gblocks (cbytes c) @ [len_block (csize a) (csize c)]))))"
proof -
  let ?h = "load_be64 H" and ?G = "ghash (be128 H)"
  have d: "blk (if csize b \<noteq> 0 \<and> \<not> is_null b then ghash_data ?h (cbytes b) x else x) =
      fold (\<lambda>b x. gf_mul (x XOR b) (be128 H)) (gblocks (cbytes b)) (blk x)" for b x
    by (cases b) (auto simp: blk_ghash_data blk_load_be64 assms(1) gblocks.simps [of "[]"])
  define x1 where "x1 = (if csize a \<noteq> 0 \<and> \<not> is_null a then ghash_data ?h (cbytes a) (0, 0) else (0, 0))"
  define x2 where "x2 = (if csize c \<noteq> 0 \<and> \<not> is_null c then ghash_data ?h (cbytes c) x1 else x1)"
  have x2: "blk x2 = ?G (gblocks (cbytes a) @ gblocks (cbytes c))"
    by (simp only: x2_def x1_def d ghash_append) (simp add: ghash_def)
  define x3 where "x3 = GMULT (fst x2 XOR of_nat (csize a) * 8, snd x2 XOR of_nat (csize c) * 8) ?h"
  have x3: "blk x3 = ?G (gblocks (cbytes a) @ gblocks (cbytes c) @ [len_block (csize a) (csize c)])"
    using x2 blk_lens [OF assms(2,3)] ghash_append [of "be128 H" "gblocks (cbytes a) @ gblocks (cbytes c)" "[len_block (csize a) (csize c)]"]
    by (simp add: x3_def GMULT_gf_mul blk_xor blk_load_be64 assms(1))
  have "GHASH H a c s sSz = blit s 0 (take sSz (bytes_of_word64 (ByteReverseWord64 (fst x3)) @ bytes_of_word64 (ByteReverseWord64 (snd x3))))"
    unfolding GHASH_def Let_def x1_def [symmetric] x2_def [symmetric] x3_def [symmetric]
    by (simp add: ByteReverseWords64_def)
  then show ?thesis by (simp add: bytes_of_reversed_words x3)
qed

section \<open>The counter\<close>

lemma ByteReverse_bytes: "length bs = 4 \<Longrightarrow> ByteReverseWord32 (word32_of_bytes bs) = word32_of_bytes (rev bs)"
  by (metis ByteReverseWord32_bytes bytes_of_word32_of_bytes length_rev word32_of_bytes_of_word32)

lemma word32_of_bytes_uint:
  "word32_of_bytes [a, b, c, d] = word_of_int (uint a + 256 * (uint b + 256 * (uint c + 256 * uint d)))"
proof -
  define A B C D :: word32 where w: "A = ucast a" "B = push_bit 8 (ucast b)" "C = push_bit 16 (ucast c)" "D = push_bit 24 (ucast d)"
  have *: "C OR D = C + D" "B OR (C OR D) = B + (C OR D)" "A OR (B OR (C OR D)) = A + (B OR (C OR D))"
    by (rule disjunctive_add [symmetric], auto simp: w bit_simps bit_byte_ge)+
  have "word32_of_bytes [a, b, c, d] = A OR (B OR (C OR D))" by (simp add: word32_of_bytes_def w)
  also have "\<dots> = A + (B + (C + D))" by (subst *(3), subst *(2), subst *(1), rule refl)
  finally show ?thesis by (simp add: w push_bit_eq_mult algebra_simps)
qed

lemma byte_succ: "b + 1 \<noteq> 0 \<Longrightarrow> uint (b + 1 :: byte) = uint b + 1"
proof -
  assume "b + 1 \<noteq> 0"
  then have "uint (b + 1) \<noteq> 0" by (simp add: uint_0_iff)
  moreover have "uint (b + 1) = (uint b + 1) mod 256" by (simp add: uint_word_ariths take_bit_eq_mod)
  moreover have "0 \<le> uint b" "uint b < 256" using uint_lt2p [of b] by simp_all
  ultimately show "uint (b + 1) = uint b + 1"
    by (cases "uint b = 255") simp_all
qed

lemma byte_wrap: "b + 1 = 0 \<Longrightarrow> uint (b :: byte) = 255"
  by (simp add: eq_neg_iff_add_eq_0 [symmetric] unsigned_minus_1_eq_mask mask_eq_exp_minus_1)

lemma word32_of_bytes_succ:
  "word32_of_bytes [a, b, c, d] + 1 =
    (if a + 1 \<noteq> 0 then word32_of_bytes [a + 1, b, c, d]
     else if b + 1 \<noteq> 0 then word32_of_bytes [0, b + 1, c, d]
     else if c + 1 \<noteq> 0 then word32_of_bytes [0, 0, c + 1, d] else word32_of_bytes [0, 0, 0, d + 1])"
proof -
  define v where "v p q r s = p + 256 * (q + 256 * (r + 256 * s))" for p q r s :: int
  have w: "word32_of_bytes [p, q, r, s] = word_of_int (v (uint p) (uint q) (uint r) (uint s))" for p q r s
    by (simp only: word32_of_bytes_uint v_def)
  have s: "word32_of_bytes [a, b, c, d] + 1 = word_of_int (v (uint a + 1) (uint b) (uint c) (uint d))"
    by (simp add: w v_def)
  have c1: "v 256 q r s = v 0 (q + 1) r s" "v 0 256 r s = v 0 0 (r + 1) s" "v 0 0 256 s = v 0 0 0 (s + 1)" for q r s
    by (simp_all add: v_def)
  have top: "word_of_int (v 0 0 0 (uint (d + 1))) = (word_of_int (v 0 0 0 (uint d + 1)) :: word32)"
    by (cases "d + 1 = 0") (simp_all add: byte_succ byte_wrap v_def)
  show ?thesis
    unfolding s unfolding w using top byte_succ byte_wrap
    by (cases "a + 1 = 0"; cases "b + 1 = 0"; cases "c + 1 = 0") (simp_all add: c1)
qed

lemma inc_loop_numeral:
  "inc_loop lo (numeral k) c = (let i = pred_numeral k in if i < lo then c
     else let c' = c[i := c ! i + 1] in if c' ! i \<noteq> 0 then c' else inc_loop lo i c')"
  by (simp add: numeral_eq_Suc Let_def)

lemma length_4E:
  assumes "length q = 4"
  obtains a b c d where "q = [a, b, c, d]"
  using assms by (auto simp: numeral_eq_Suc length_Suc_conv)

lemma split_16:
  assumes "length b = 16"
  obtains p w x y z where "b = p @ [w, x, y, z]" "length p = 12"
proof -
  have "length (drop 12 b) = 4" using assms by simp
  then obtain w x y z where "drop 12 b = [w, x, y, z]" by (rule length_4E)
  then have "b = take 12 b @ [w, x, y, z]" using append_take_drop_id [of 12 b] by simp
  then show thesis using that assms by simp
qed

lemma IncrementGcmCounter_inc32:
  assumes "length b = 16"
  shows "IncrementGcmCounter b = inc32 b"
proof -
  obtain p e0 e1 e2 e3 where b: "b = p @ [e3, e2, e1, e0]" and p: "length p = 12"
    using assms by (rule split_16)
  have u: "(p @ xs)[m := x] = p @ xs[m - 12 := x]" "(p @ xs) ! m = xs ! (m - 12)" if "12 \<le> m" for xs m x
    using that p by (simp_all add: list_update_append nth_append)
  have "IncrementGcmCounter b =
    p @ (if e0 + 1 \<noteq> 0 then [e3, e2, e1, e0 + 1] else if e1 + 1 \<noteq> 0 then [e3, e2, e1 + 1, 0]
         else if e2 + 1 \<noteq> 0 then [e3, e2 + 1, 0, 0] else [e3 + 1, 0, 0, 0])"
    by (simp add: IncrementGcmCounter_def b inc_loop_numeral u Let_def)
  then show ?thesis
    using p by (simp add: inc32_def b word32_of_bytes_succ be32_def)
qed

lemma length_inc32 [simp]: "12 \<le> length b \<Longrightarrow> length (inc32 b) = 16"
  by (simp add: inc32_def)

section \<open>Counter mode over a block cipher\<close>

lemma gctr_Nil [simp]: "gctr E cb [] = []"
  by (simp add: gctr.simps)

lemma xor_bytes_cancel_left: "length a \<le> length k \<Longrightarrow> xor_bytes k (xor_bytes k a) = a"
  by (metis xor_bytes_comm xor_bytes_cancel)

lemma gctr_last: "\<lbrakk>x \<noteq> []; length x \<le> 16\<rbrakk> \<Longrightarrow> gctr E cb x = xor_bytes (E cb) x"
  by (simp add: gctr.simps)

lemma xor_bytes_take: "xor_bytes (take (length x) s) x = xor_bytes s x"
  by (induction s x rule: list_induct2') simp_all

text \<open>What counter mode asks of the cipher: outputs of one block.\<close>

locale block_cipher =
  fixes E :: "byte list \<Rightarrow> byte list"
  assumes length_E [simp]: "length (E b) = 16"
begin

lemma length_gctr [simp]: "length (gctr E cb x) = length x"
proof (induction x arbitrary: cb rule: measure_induct_rule [of length])
  case (less x)
  then show ?case by (cases "x = []") (simp_all add: gctr.simps [of E cb x])
qed

lemma gctr_involution: "gctr E cb (gctr E cb x) = x"
proof (induction x arbitrary: cb rule: measure_induct_rule [of length])
  case (less x)
  show ?case
  proof (cases "x = []")
    case False
    define y where "y = xor_bytes (E cb) (take 16 x)"
    have y: "gctr E cb x = y @ gctr E (inc32 cb) (drop 16 x)"
      using False by (simp add: gctr.simps [of E cb x] y_def)
    have ly: "length y = min 16 (length x)" by (simp add: y_def)
    have "xor_bytes (E cb) (take 16 (y @ gctr E (inc32 cb) (drop 16 x))) = take 16 x"
    proof (cases "16 \<le> length x")
      case True
      then show ?thesis
        using ly by (simp add: y_def xor_bytes_cancel_left)
    next
      case False
      then have "gctr E (inc32 cb) (drop 16 x) = []" by (simp add: gctr.simps)
      then show ?thesis using False ly by (simp add: y_def xor_bytes_cancel_left)
    qed
    moreover have "drop 16 (y @ gctr E (inc32 cb) (drop 16 x)) = gctr E (inc32 cb) (drop 16 x)"
      using ly by (cases "16 \<le> length x") (simp_all add: gctr.simps)
    moreover have "gctr E (inc32 cb) (gctr E (inc32 cb) (drop 16 x)) = drop 16 x"
      using less [of "drop 16 x"] False by simp
    moreover have "y \<noteq> []" using False ly by (auto simp: min_def split: if_splits)
    ultimately show ?thesis
      unfolding y by (subst gctr.simps) simp
  qed (simp add: gctr.simps)
qed

lemma gctr_append:
  "length x = 16 * n \<Longrightarrow> gctr E cb (x @ y) = gctr E cb x @ gctr E ((inc32 ^^ n) cb) y"
proof (induction n arbitrary: cb x)
  case 0
  then show ?case by (simp add: gctr.simps [of E cb "[]"])
next
  case (Suc n)
  then have "x \<noteq> []" "length (drop 16 x) = 16 * n" by auto
  then show ?case
    using Suc.IH [of "drop 16 x" "inc32 cb"] Suc.prems
    by (simp add: gctr.simps [of E cb x] gctr.simps [of E cb "x @ y"] funpow_swap1)
qed

lemma gctr_blocks_tail:
  assumes "length x = 16 * n + q" "q < 16"
  shows "gctr E (inc32 cb) x = gctr E (inc32 cb) (take (16 * n) x) @
    (if q = 0 then [] else xor_bytes (take q (E (inc32 ((inc32 ^^ n) cb)))) (drop (16 * n) x))"
proof -
  have "gctr E (inc32 cb) x = gctr E (inc32 cb) (take (16 * n) x) @ gctr E (inc32 ((inc32 ^^ n) cb)) (drop (16 * n) x)"
    using gctr_append [of "take (16 * n) x" n "inc32 cb" "drop (16 * n) x"] assms by (simp add: funpow_swap1)
  moreover have "gctr E (inc32 ((inc32 ^^ n) cb)) (drop (16 * n) x) =
      xor_bytes (take q (E (inc32 ((inc32 ^^ n) cb)))) (drop (16 * n) x)" if "q \<noteq> 0"
    using that assms xor_bytes_take [of "drop (16 * n) x" "E (inc32 ((inc32 ^^ n) cb))"]
    by (subst gctr_last) auto
  ultimately show ?thesis using assms by simp
qed

end

interpretation aes: block_cipher "aes_encrypt key" for key
  by unfold_locales simp

section \<open>The code computes the mode\<close>

lemma ctr_blocks_keyed:
  assumes "aes_keyed aes key"
  shows "\<lbrakk>length counter = 16; off + 16 * n \<le> length inp; off + 16 * n \<le> length out\<rbrakk> \<Longrightarrow>
    \<exists>pf'. gcm_ctr_blocks always aes n inp off out counter pf =
      (0, take off out @ gctr (aes_encrypt key) (inc32 counter) (take (16 * n) (drop off inp)) @ drop (off + 16 * n) out,
       (inc32 ^^ n) counter, pf')"
proof (induction n arbitrary: off out counter pf)
  case 0
  then show ?case by (simp add: gctr.simps)
next
  case (Suc n)
  let ?E = "aes_encrypt key" and ?c = "inc32 counter"
  define o1 where "o1 = take off out @ xor_bytes (?E ?c) (take 16 (drop off inp)) @ drop (off + 16) out"
  have ro: "take off out @ xorbufout 0 0 0 (drop off out) (?E ?c) (drop off inp) 16 = o1"
    using Suc.prems by (subst xorbufout_bytes) (simp_all add: o1_def add.commute)
  have lo: "length o1 = length out" using Suc.prems by (simp add: o1_def)
  have "\<exists>pf'. gcm_ctr_blocks always aes n inp (off + 16) o1 ?c (always \<and> pf) =
      (0, take (off + 16) o1 @ gctr ?E (inc32 ?c) (take (16 * n) (drop (off + 16) inp)) @ drop (off + 16 + 16 * n) o1,
       (inc32 ^^ n) ?c, pf')"
    using Suc.prems lo by (intro Suc.IH) simp_all
  moreover have "take (off + 16) o1 = take off out @ xor_bytes (?E ?c) (take 16 (drop off inp))"
    "drop (off + 16 + 16 * n) o1 = drop (off + 16 * Suc n) out"
    using Suc.prems by (simp_all add: o1_def add.commute add.left_commute add.assoc)
  moreover have "take (16 * Suc n) (drop off inp) \<noteq> []" using Suc.prems by auto
  then have "gctr ?E ?c (take (16 * Suc n) (drop off inp)) =
    xor_bytes (?E ?c) (take 16 (drop off inp)) @ gctr ?E (inc32 ?c) (take (16 * n) (drop (off + 16) inp))"
    by (subst gctr.simps) (simp add: drop_take add.commute)
  ultimately show ?case
    using Suc.prems by (auto simp: IncrementGcmCounter_inc32 AesEncrypt_keyed [OF assms] ro funpow_swap1)
qed

text \<open>An \<open>Aes\<close> object set up by \<open>wc_AesGcmSetKey\<close>.\<close>

definition gcm_keyed :: "Aes \<Rightarrow> byte list \<Rightarrow> bool" where
  "gcm_keyed aes key \<longleftrightarrow> aes_keyed aes key \<and> gcm_H aes = aes_encrypt key (zeros 16)"

lemma wc_AesGcmSetKey_keyed:
  assumes "length (aes_key aes) = 60" "length key \<in> {16, 24, 32}"
  obtains aes' where "wc_AesGcmSetKey aes (Buf key) = (0, aes')" "gcm_keyed aes' key"
proof -
  obtain r a1 where 1: "wc_AesSetKey aes key (length key) (Some (zeros 16)) = (r, a1)" by fastforce
  then have k: "r = 0" "aes_keyed a1 key"
    using wc_AesSetKey_keyed [OF assms, of "Some (zeros 16)"] by simp_all
  have "length key = 16 \<or> length key = 24 \<or> length key = 32" using assms(2) by simp
  then have "wc_AesGcmSetKey aes (Buf key) = (0, a1\<lparr>gcm_H := aes_encrypt key (zeros 16)\<rparr>)"
    using 1 k by (simp add: wc_AesGcmSetKey_def wc_AesEncrypt_keyed Let_def)
  moreover have "gcm_keyed (a1\<lparr>gcm_H := aes_encrypt key (zeros 16)\<rparr>) key"
    using k by (simp add: gcm_keyed_def aes_keyed_def)
  ultimately show thesis by (rule that)
qed

lemma gcm_counter_j0:
  assumes "gcm_keyed aes key" "length iv < 2 ^ 32"
  shows "gcm_counter aes iv = gcm_j0 (aes_encrypt key) iv"
proof (cases "length iv = 12")
  case True
  then show ?thesis by (simp add: gcm_counter_def gcm_j0_def zeros_def numeral_eq_Suc)
next
  case False
  have "GHASH (gcm_H aes) (Null 0) (Buf iv) (zeros 16) 16 =
    bytes128 (ghash (be128 (aes_encrypt key (zeros 16))) (gblocks iv @ [len_block 0 (length iv)]))"
    using assms by (subst GHASH_ghash) (simp_all add: gcm_keyed_def gblocks.simps [of "[]"])
  then show ?thesis using False by (simp add: gcm_counter_def gcm_j0_def)
qed

lemma length_gcm_j0 [simp]: "length (gcm_j0 E iv) = 16"
  by (simp add: gcm_j0_def)

text \<open>What \<open>GHASH\<close> reads of an optional buffer.\<close>

definition aad_ok :: "cbuf \<Rightarrow> bool" where
  "aad_ok a \<longleftrightarrow> csize a < 2 ^ 32 \<and> (is_null a \<longrightarrow> csize a = 0)"

lemma aad_okD: "aad_ok a \<Longrightarrow> length (cbytes a) = csize a"
  by (cases a) (simp_all add: aad_ok_def)

lemma length_gcm_cipher [simp]: "length (gcm_cipher (aes_encrypt key) iv p) = length p"
  by (simp add: gcm_cipher_def)

lemma length_inc32_pow [simp]: "length b = 16 \<Longrightarrow> length ((inc32 ^^ n) b) = 16"
  by (induction n) simp_all

lemma encrypt_C_keyed:
  assumes k: "gcm_keyed aes key" and iv: "length iv < 2 ^ 32" and aad: "aad_ok authIn"
    and sz: "length inp < 2 ^ 32" "length inp \<le> length out" "authTagSz \<le> 16" "authTagSz \<le> length authTag"
  shows "AES_GCM_encrypt_C aes out inp iv authTag authTagSz authIn =
    (0, gcm_cipher (aes_encrypt key) iv inp @ drop (length inp) out,
     take authTagSz (gcm_tag (aes_encrypt key) iv (cbytes authIn) (gcm_cipher (aes_encrypt key) iv inp)) @ drop authTagSz authTag)"
proof -
  let ?E = "aes_encrypt key" and ?j = "gcm_j0 (aes_encrypt key) iv" and ?C = "gcm_cipher (aes_encrypt key) iv inp"
  define n where "n = length inp div 16"
  define q where "q = length inp mod 16"
  have nq: "length inp = 16 * n + q" "q < 16" by (simp_all add: n_def q_def)
  have ak: "aes_keyed aes key" using k by (simp add: gcm_keyed_def)
  define out1 where "out1 = gctr ?E (inc32 ?j) (take (16 * n) inp) @ drop (16 * n) out"
  define scratch where "scratch = ?E (inc32 ((inc32 ^^ n) ?j))"
  obtain pf where blocks: "gcm_ctr_blocks False aes n inp 0 out ?j True = (0, out1, (inc32 ^^ n) ?j, pf)"
    using ctr_blocks_keyed [OF ak, of ?j 0 n inp out False True] sz nq by (auto simp: out1_def)
  have C: "?C = gctr ?E (inc32 ?j) (take (16 * n) inp) @ (if q = 0 then [] else xor_bytes (take q scratch) (drop (16 * n) inp))"
    unfolding gcm_cipher_def scratch_def by (rule aes.gctr_blocks_tail [OF nq])
  have out2: "(if q \<noteq> 0 then take (16 * n) out1 @ xorbufout 0 0 0 (drop (16 * n) out1) scratch (drop (16 * n) inp) q else out1) =
      ?C @ drop (length inp) out"
    using nq sz by (subst C, cases "q = 0") (simp_all add: out1_def xorbufout_bytes scratch_def add.commute)
  have tag: "xorbuf 0 0 (GHASH (gcm_H aes) authIn (Buf ?C) authTag authTagSz) (?E ?j) authTagSz =
      take authTagSz (gcm_tag ?E iv (cbytes authIn) ?C) @ drop authTagSz authTag"
    using sz k aad_okD [OF aad] aad
    by (simp add: GHASH_ghash xorbuf_bytes gcm_keyed_def aad_ok_def gcm_tag_def blit_def take_xor_bytes)
  have take2: "take (length inp) (?C @ drop (length inp) out) = ?C" by simp
  have enc: "AesEncrypt_preFetchOpt aes ?j x y = (0, ?E ?j)"
    "AesEncrypt_preFetchOpt aes (IncrementGcmCounter ((inc32 ^^ n) ?j)) x y = (0, scratch)" for x y
    by (simp_all add: AesEncrypt_keyed [OF ak] IncrementGcmCounter_inc32 scratch_def)
  show ?thesis
    unfolding AES_GCM_encrypt_C_def gcm_counter_j0 [OF k iv] WC_AES_BLOCK_SIZE_def n_def [symmetric] q_def [symmetric] Let_def
    using out2 by (cases "q = 0") (simp_all add: blocks enc take2 tag del: take_append)
qed

lemma gcm_res_mask_eq:
  assumes "0 \<le> res" "res < 256"
  shows "gcm_res_mask res = (if res = 0 then 0 else - 1)"
proof -
  have "sint (- word_of_int res :: word32) = - res"
    using assms sint_of_int_range [of "- res"] by simp
  then show ?thesis
    using assms by (auto simp: gcm_res_mask_def drop_bit_31_sign)
qed

lemma gcm_masked_ret_eq: "gcm_masked_ret 0 0 = 0" "gcm_masked_ret 0 (- 1) = AES_GCM_AUTH_E"
  by (simp_all add: gcm_masked_ret_def AES_GCM_AUTH_E_def)

lemma decrypt_C_keyed:
  assumes k: "gcm_keyed aes key" and iv: "length iv < 2 ^ 32" and aad: "aad_ok authIn"
    and sz: "length inp < 2 ^ 32" "length inp \<le> length out" "authTagSz \<le> 16" "authTagSz \<le> length authTag"
  shows "AES_GCM_decrypt_C aes out inp iv authTag authTagSz authIn =
    (if take authTagSz authTag = take authTagSz (gcm_tag (aes_encrypt key) iv (cbytes authIn) inp)
     then (0, gcm_cipher (aes_encrypt key) iv inp @ drop (length inp) out)
     else (AES_GCM_AUTH_E, zeros (length inp) @ drop (length inp) out))"
proof -
  let ?E = "aes_encrypt key" and ?j = "gcm_j0 (aes_encrypt key) iv" and ?C = "gcm_cipher (aes_encrypt key) iv inp"
  let ?T = "gcm_tag ?E iv (cbytes authIn) inp"
  define n where "n = length inp div 16"
  define q where "q = length inp mod 16"
  have nq: "length inp = 16 * n + q" "q < 16" by (simp_all add: n_def q_def)
  have ak: "aes_keyed aes key" using k by (simp add: gcm_keyed_def)
  define out1 where "out1 = gctr ?E (inc32 ?j) (take (16 * n) inp) @ drop (16 * n) out"
  define scratch where "scratch = ?E (inc32 ((inc32 ^^ n) ?j))"
  obtain pf where blocks: "gcm_ctr_blocks True aes n inp 0 out ?j True = (0, out1, (inc32 ^^ n) ?j, pf)"
    using ctr_blocks_keyed [OF ak, of ?j 0 n inp out True True] sz nq by (auto simp: out1_def)
  have C: "?C = gctr ?E (inc32 ?j) (take (16 * n) inp) @ (if q = 0 then [] else xor_bytes (take q scratch) (drop (16 * n) inp))"
    unfolding gcm_cipher_def scratch_def by (rule aes.gctr_blocks_tail [OF nq])
  have out2: "(if q \<noteq> 0 then blit out1 (16 * n) (take q (xorbuf 0 0 scratch (drop (16 * n) inp) q)) else out1) =
      ?C @ drop (length inp) out"
    using nq sz by (subst C, cases "q = 0") (simp_all add: out1_def xorbuf_bytes scratch_def add.commute blit_def)
  have tag: "xorbuf 0 0 (GHASH (gcm_H aes) authIn (Buf inp) (zeros 16) 16) (?E ?j) 16 = ?T"
    using sz k aad_okD [OF aad] aad
    by (simp add: GHASH_ghash xorbuf_bytes gcm_keyed_def aad_ok_def gcm_tag_def)
  have enc: "wc_AesEncrypt aes ?j x = (0, ?E ?j)"
    "wc_AesEncrypt aes (IncrementGcmCounter ((inc32 ^^ n) ?j)) x = (0, scratch)" for x
    by (simp_all add: wc_AesEncrypt_keyed [OF ak] IncrementGcmCounter_inc32 scratch_def)
  define res where "res = ConstantCompare authTag ?T (int authTagSz)"
  have "length ?T = 16" by (simp add: gcm_tag_def)
  then have res: "gcm_res_mask res = (if take authTagSz authTag = take authTagSz ?T then 0 else - 1)"
    using sz compare_loop_range [of authTag ?T authTagSz] compare_loop_0_iff [of authTagSz authTag ?T]
    by (simp add: gcm_res_mask_eq res_def ConstantCompare_def)
  have zs: "map (\<lambda>b. b AND - 256) xs = zeros (length xs)" for xs :: "byte list"
  proof -
    have "(- 256 :: byte) = 0" by simp
    then have "b AND - 256 = 0" for b :: byte by (simp only: bit.conj_zero_right)
    then show ?thesis by (simp add: zeros_def map_replicate_const)
  qed
  show ?thesis
    unfolding AES_GCM_decrypt_C_def gcm_counter_j0 [OF k iv] WC_AES_BLOCK_SIZE_def n_def [symmetric] q_def [symmetric] Let_def
    using out2 res by (cases "q = 0") (simp_all add: blocks enc tag res_def [symmetric] gcm_masked_ret_eq zs)
qed

lemma wc_AesGcmEncrypt_keyed:
  assumes "gcm_keyed aes key" "iv \<noteq> []" "length iv < 2 ^ 32" "aad_ok aad" "length p < 2 ^ 32" "length p \<le> length out"
    "n \<in> {12..16}" "n \<le> length tag"
  shows "wc_AesGcmEncrypt aes (Some out) (Buf p) (Buf iv) (Some tag) n aad =
    (0, Some (gcm_cipher (aes_encrypt key) iv p @ drop (length p) out),
     Some (take n (gcm_tag (aes_encrypt key) iv (cbytes aad) (gcm_cipher (aes_encrypt key) iv p)) @ drop n tag))"
proof -
  have "n \<in> {12, 13, 14, 15, 16}" "n \<le> 16" "keyInstalled aes" "\<not> (is_null aad \<and> csize aad > 0)"
    using assms by (auto simp: gcm_keyed_def aes_keyed_def aad_ok_def)
  then show ?thesis
    using assms encrypt_C_keyed [OF assms(1,3,4,5,6), of n tag]
    by (auto simp: wc_AesGcmEncrypt_def wc_local_AesGcmCheckTagSz_def simp del: insert_iff)
qed

lemma wc_AesGcmDecrypt_keyed:
  assumes "gcm_keyed aes key" "iv \<noteq> []" "length iv < 2 ^ 32" "aad_ok aad" "length c < 2 ^ 32" "length c \<le> length out"
    "n \<in> {12..16}" "n \<le> length tag"
  shows "wc_AesGcmDecrypt aes (Some out) (Buf c) (Buf iv) (Some tag) n aad =
    (if take n tag = take n (gcm_tag (aes_encrypt key) iv (cbytes aad) c)
     then (0, Some (gcm_cipher (aes_encrypt key) iv c @ drop (length c) out))
     else (AES_GCM_AUTH_E, Some (zeros (length c) @ drop (length c) out)))"
proof -
  have "n \<in> {12, 13, 14, 15, 16}" "n \<le> 16" "keyInstalled aes"
    using assms by (auto simp: gcm_keyed_def aes_keyed_def)
  then show ?thesis
    using assms decrypt_C_keyed [OF assms(1,3,4,5,6), of n tag]
    by (auto simp: wc_AesGcmDecrypt_def wc_local_AesGcmCheckTagSz_def simp del: insert_iff)
qed

lemma length_gcm_tag [simp]: "length (gcm_tag (aes_encrypt key) iv aad c) = 16"
  by (simp add: gcm_tag_def)

lemma gcm_cipher_involution: "gcm_cipher (aes_encrypt key) iv (gcm_cipher (aes_encrypt key) iv p) = p"
  by (simp add: gcm_cipher_def aes.gctr_involution)

section \<open>Nonces of the IV-managing interface\<close>

lemma byte_succ_nat: "b + 1 \<noteq> 0 \<Longrightarrow> unat (b + 1 :: byte) = unat b + 1"
  unfolding unat_eq_nat_uint by (simp add: byte_succ nat_add_distrib)

lemma byte_wrap_nat: "b + 1 = 0 \<Longrightarrow> unat (b :: byte) = 255"
  unfolding unat_eq_nat_uint by (simp add: byte_wrap)

lemma inc_loop_val:
  "length pre = n \<Longrightarrow> \<exists>pre'. inc_loop 0 n (pre @ rest) = pre' @ rest \<and> length pre' = n \<and>
     be_val pre' = (be_val pre + 1) mod 256 ^ n"
proof (induction n arbitrary: pre rest)
  case (Suc n)
  then obtain p b where pre: "pre = p @ [b]" and p: "length p = n"
    by (cases pre rule: rev_cases) auto
  have upd: "(pre @ rest)[n := (pre @ rest) ! n + 1] = p @ (b + 1) # rest"
    using p by (simp add: pre list_update_append nth_append)
  show ?case
  proof (cases "b + 1 = 0")
    case True
    obtain p' where p': "inc_loop 0 n (p @ 0 # rest) = p' @ 0 # rest" "length p' = n" "be_val p' = (be_val p + 1) mod 256 ^ n"
      using Suc.IH [OF p, of "0 # rest"] by auto
    have "be_val (p' @ [0]) = 256 * ((be_val p + 1) mod 256 ^ n)" by (simp add: be_val_snoc p'(3))
    also have "\<dots> = (256 * (be_val p + 1)) mod 256 ^ Suc n" by (simp only: mult_mod_right power_Suc)
    also have "256 * (be_val p + 1) = be_val pre + 1" by (simp add: pre be_val_snoc byte_wrap_nat [OF True])
    finally have v: "be_val (p' @ [0]) = (be_val pre + 1) mod 256 ^ Suc n" .
    have "inc_loop 0 (Suc n) (pre @ rest) = p' @ 0 # rest"
      using p'(1) True upd p by (simp add: Let_def nth_append)
    then show ?thesis
      using p'(2) v by (intro exI [of _ "p' @ [0]"]) simp
  next
    case False
    then have "be_val (p @ [b + 1]) = be_val pre + 1" by (simp add: be_val_snoc pre byte_succ_nat)
    moreover have "be_val (p @ [b + 1]) < 256 ^ Suc n" using be_val_less [of "p @ [b + 1]"] p by simp
    moreover have "inc_loop 0 (Suc n) (pre @ rest) = p @ (b + 1) # rest"
      using False upd p by (simp add: Let_def nth_append)
    ultimately show ?thesis
      using p by (intro exI [of _ "p @ [b + 1]"]) simp
  qed
qed simp

text \<open>The nonce the next call will use, and the 64-bit count of invocations.\<close>

definition next_nonce :: "Aes \<Rightarrow> byte list" where
  "next_nonce aes = take (nonceSz aes) (aes_reg aes)"

definition invocations :: "Aes \<Rightarrow> nat" where
  "invocations aes = unat (invokeCtr1 aes) * 2 ^ 32 + unat (invokeCtr0 aes)"

text \<open>A history of calls of \<open>wc_AesGcmEncrypt_ex\<close>, none of them refused for overflow: the nonces
  that were used by the successful ones, oldest first.\<close>

inductive gcm_calls :: "Aes \<Rightarrow> byte list list \<Rightarrow> Aes \<Rightarrow> bool" for aes where
  none: "gcm_calls aes [] aes"
| used: "\<lbrakk>gcm_calls aes ns a; wc_AesGcmEncrypt_ex a out inp ivOut n tag tagSz aad = (0, a', out', iv, tag'); length ivOut = n\<rbrakk>
    \<Longrightarrow> gcm_calls aes (ns @ [iv]) a'"
| failed: "\<lbrakk>gcm_calls aes ns a; wc_AesGcmEncrypt_ex a out inp ivOut n tag tagSz aad = (r, a', out', iv, tag');
    length ivOut = n; r \<noteq> 0; r \<noteq> AES_GCM_OVERFLOW_E\<rbrakk> \<Longrightarrow> gcm_calls aes ns a'"

inductive_cases gcm_callsE: "gcm_calls aes ns a"

lemma invocations_less: "invocations a < 2 ^ 64"
proof -
  have "unat (invokeCtr1 a) \<le> 2 ^ 32 - 1" "unat (invokeCtr0 a) < 2 ^ 32"
    using unsigned_less [of "invokeCtr1 a", where ?'a = nat] unsigned_less [of "invokeCtr0 a", where ?'a = nat] by simp_all
  then show ?thesis by (simp add: invocations_def)
qed

lemma word32_succ_nat: "unat (w + 1 :: word32) = (if w + 1 = 0 then 0 else unat w + 1)"
proof -
  have "unat (w + 1) = (unat w + 1) mod 2 ^ 32" by (simp add: unat_word_ariths)
  moreover have "unat w < 2 ^ 32" using unsigned_less [of w, where ?'a = nat] by simp
  moreover have "w + 1 = 0 \<longleftrightarrow> unat (w + 1) = 0" by (simp add: unat_eq_0)
  ultimately show ?thesis by (cases "unat w + 1 = 2 ^ 32") simp_all
qed

lemma word32_wrap_nat: "w + 1 = 0 \<Longrightarrow> unat (w :: word32) = 2 ^ 32 - 1"
  by (simp add: eq_neg_iff_add_eq_0 [symmetric] unsigned_minus_1_eq_mask mask_eq_exp_minus_1)

text \<open>The counter update of one invocation that does not overflow.\<close>

lemma invocations_step:
  assumes "\<not> (invokeCtr0 a + 1 = 0 \<and> invokeCtr1 a + 1 = 0)"
  shows "unat (if invokeCtr0 a + 1 = 0 then invokeCtr1 a + 1 else invokeCtr1 a) * 2 ^ 32 + unat (invokeCtr0 a + 1) = invocations a + 1"
  using assms word32_wrap_nat [of "invokeCtr0 a"] by (auto simp: invocations_def word32_succ_nat)

lemma length_inc_loop [simp]: "length (inc_loop lo n c) = length c"
  by (induction n arbitrary: c) (simp_all add: Let_def)

lemma blit_take_self: "n \<le> length b \<Longrightarrow> blit b 0 (take n b) = b"
  by (simp add: blit_def)

definition count_invocation :: "Aes \<Rightarrow> Aes" where
  "count_invocation a = (let a1 = a\<lparr>invokeCtr0 := invokeCtr0 a + 1\<rparr>
     in if invokeCtr0 a1 = 0 then a1\<lparr>invokeCtr1 := invokeCtr1 a1 + 1\<rparr> else a1)"

lemma count_invocation_simps [simp]:
  "aes_reg (count_invocation a) = aes_reg a" "nonceSz (count_invocation a) = nonceSz a"
  "invokeCtr0 (count_invocation a) = invokeCtr0 a + 1"
  "invokeCtr1 (count_invocation a) = (if invokeCtr0 a + 1 = 0 then invokeCtr1 a + 1 else invokeCtr1 a)"
  by (simp_all add: count_invocation_def Let_def)

lemma wc_AesGcmEncrypt_ex_unfold:
  assumes "length ivOut = n" "nonceSz a \<le> length (aes_reg a)"
  shows "wc_AesGcmEncrypt_ex a out inp ivOut n tag tagSz aad =
    (if (csize inp \<noteq> 0 \<and> (is_null inp \<or> out = None)) \<or> n \<noteq> nonceSz a \<or> (is_null aad \<and> csize aad \<noteq> 0)
     then (BAD_FUNC_ARG, a, out, ivOut, tag)
     else if invokeCtr0 a + 1 = 0 \<and> invokeCtr1 a + 1 = 0 then (AES_GCM_OVERFLOW_E, count_invocation a, out, ivOut, tag)
     else let (r, out', tag') = wc_AesGcmEncrypt (count_invocation a) out inp (Buf (next_nonce a)) tag tagSz aad
          in (r, (count_invocation a)\<lparr>aes_reg := if r = 0 then IncCtr (aes_reg a) n else aes_reg a\<rparr>, out', next_nonce a, tag'))"
proof -
  have "a1\<lparr>aes_reg := aes_reg a1\<rparr> = a1" for a1 :: Aes by simp
  then show ?thesis
    using assms unfolding wc_AesGcmEncrypt_ex_def Let_def count_invocation_def next_nonce_def
    by (auto simp: blit_take_self split: prod.splits)
qed

lemma wc_AesGcmEncrypt_ex_call:
  assumes "wc_AesGcmEncrypt_ex a out inp ivOut n tag tagSz aad = (r, a', out', iv, tag')"
    and "length ivOut = n" "nonceSz a \<le> length (aes_reg a)" "r \<noteq> AES_GCM_OVERFLOW_E"
  shows "nonceSz a' = nonceSz a" "length (aes_reg a') = length (aes_reg a)"
    and "r = 0 \<Longrightarrow> iv = next_nonce a \<and> invocations a' = invocations a + 1 \<and> aes_reg a' = IncCtr (aes_reg a) (nonceSz a)"
    and "r \<noteq> 0 \<Longrightarrow> aes_reg a' = aes_reg a \<and> invocations a \<le> invocations a'"
  using assms(1) [unfolded wc_AesGcmEncrypt_ex_unfold [OF assms(2,3)]] assms(4) invocations_step [of a] rc_nonzero
  by (auto simp: IncCtr_def invocations_def Let_def split: if_splits prod.splits)

lemma IncCtr_next:
  assumes "n \<le> length reg"
  shows "be_val (take n (IncCtr reg n)) = (be_val (take n reg) + 1) mod 256 ^ n"
  using inc_loop_val [of "take n reg" n "drop n reg"] assms by (auto simp: IncCtr_def)

text \<open>The nonces used are consecutive numbers, and there were no more of them than invocations
  counted.\<close>

lemma gcm_calls_invariant:
  assumes "gcm_calls aes ns a" "nonceSz aes \<le> length (aes_reg aes)"
  shows "nonceSz a = nonceSz aes \<and> length (aes_reg a) = length (aes_reg aes) \<and>
    invocations aes + length ns \<le> invocations a \<and>
    be_val (next_nonce a) = (be_val (next_nonce aes) + length ns) mod 256 ^ nonceSz aes \<and>
    map be_val ns = map (\<lambda>j. (be_val (next_nonce aes) + j) mod 256 ^ nonceSz aes) [0..<length ns]"
  using assms(1)
proof induction
  case none
  have "be_val (next_nonce aes) < 256 ^ nonceSz aes"
    using be_val_less [of "next_nonce aes"] assms(2) by (simp add: next_nonce_def)
  then show ?case by simp
next
  case (used ns a out inp ivOut n tag tagSz aad a' out' iv tag')
  have l: "nonceSz a \<le> length (aes_reg a)" using used.IH assms(2) by simp
  note c = wc_AesGcmEncrypt_ex_call [OF used.hyps(2,3) l]
  have "be_val (next_nonce a') = (be_val (next_nonce a) + 1) mod 256 ^ nonceSz a"
    using IncCtr_next [OF l] c by (simp add: next_nonce_def AES_GCM_OVERFLOW_E_def)
  then show ?case using used.IH c by (simp add: AES_GCM_OVERFLOW_E_def mod_Suc_eq)
next
  case (failed ns a out inp ivOut n tag tagSz aad r a' out' iv tag')
  have l: "nonceSz a \<le> length (aes_reg a)" using failed.IH assms(2) by simp
  show ?case
    using failed.IH wc_AesGcmEncrypt_ex_call [OF failed.hyps(2,3) l] failed.hyps(4,5) by (auto simp: next_nonce_def)
qed

lemma mod_offset_inj:
  assumes "(v + i) mod m = (v + j) mod m" "i < m" "j < m"
  shows "i = (j :: nat)"
proof -
  have "i = j" if "(v + i) mod m = (v + j) mod m" "i \<le> j" "j < m" for i j
  proof (rule ccontr)
    assume "i \<noteq> j"
    moreover have "m dvd j - i" using that mod_eq_dvd_iff_nat [of "v + i" "v + j" m] by simp
    ultimately show False using that by (auto dest: dvd_imp_le)
  qed
  from this [of i j] this [of j i] show ?thesis using assms by linarith
qed

lemma gcm_calls_distinct:
  assumes "gcm_calls aes ns a" "nonceSz aes \<le> length (aes_reg aes)" "8 \<le> nonceSz aes"
  shows "distinct ns"
proof -
  note inv = gcm_calls_invariant [OF assms(1,2)]
  have "length ns < 2 ^ 64" using inv invocations_less [of a] by linarith
  also have "(2 :: nat) ^ 64 = 256 ^ 8" by simp
  also have "\<dots> \<le> 256 ^ nonceSz aes" using assms(3) by (intro power_increasing) simp_all
  finally have "distinct (map be_val ns)"
    using inv by (auto simp: distinct_map inj_on_def dest!: mod_offset_inj)
  then show ?thesis by (simp add: distinct_map)
qed

lemma gcm_keyed_cong:
  "gcm_keyed (a\<lparr>aes_reg := g\<rparr>) key = gcm_keyed a key" "gcm_keyed (count_invocation a) key = gcm_keyed a key"
  by (simp_all add: gcm_keyed_def aes_keyed_def count_invocation_def Let_def)

lemma wc_AesGcmEncrypt_ex_keyed:
  assumes "gcm_keyed a key" "nonceSz a \<le> length (aes_reg a)" "0 < nonceSz a" "nonceSz a < 2 ^ 32" "\<not> (invokeCtr0 a + 1 = 0 \<and> invokeCtr1 a + 1 = 0)"
    "length p < 2 ^ 32" "length p \<le> length out" "aad_ok aad" "n \<in> {12..16}" "n \<le> length tag" "length iv = nonceSz a"
  obtains out' tag' where "wc_AesGcmEncrypt_ex a (Some out) (Buf p) iv (nonceSz a) (Some tag) n aad =
    (0, (count_invocation a)\<lparr>aes_reg := IncCtr (aes_reg a) (nonceSz a)\<rparr>, out', next_nonce a, tag')"
proof -
  have "next_nonce a \<noteq> []" "length (next_nonce a) < 2 ^ 32" using assms by (auto simp: next_nonce_def)
  then have "fst (wc_AesGcmEncrypt (count_invocation a) (Some out) (Buf p) (Buf (next_nonce a)) (Some tag) n aad) = 0"
    using assms by (subst wc_AesGcmEncrypt_keyed [where key = key]) (simp_all add: gcm_keyed_cong)
  then obtain out' tag' where "wc_AesGcmEncrypt (count_invocation a) (Some out) (Buf p) (Buf (next_nonce a)) (Some tag) n aad = (0, out', tag')"
    by (metis eq_fst_iff)
  then have "wc_AesGcmEncrypt_ex a (Some out) (Buf p) iv (nonceSz a) (Some tag) n aad =
    (0, (count_invocation a)\<lparr>aes_reg := IncCtr (aes_reg a) (nonceSz a)\<rparr>, out', next_nonce a, tag')"
    using assms by (auto simp: wc_AesGcmEncrypt_ex_unfold aad_ok_def)
  then show thesis by (rule that)
qed

section \<open>Properties\<close>

text \<open>C18: The bit-serial \<open>GMULT\<close> on two 64-bit words, branch-free masks and all, is multiplication
  in GF(2^128) modulo x^128 + x^7 + x^2 + x + 1, bilinear and commutative although the loop
  treats its two arguments differently.\<close>

theorem gmult_is_field_multiplication:
  "blk (GMULT X Y) = gf_mul (blk X) (blk Y) \<and>
   blk (GMULT X Y) = blk (GMULT Y X) \<and>
   gf_mul (a XOR b) c = gf_mul a c XOR gf_mul b c \<and> gf_mul c gf_one = c"
  by (metis GMULT_gf_mul gf_mul_commute gf_mul_linear_left gf_mul_one_right)

text \<open>C15: With a key set by \<open>wc_AesGcmSetKey\<close>, \<open>wc_AesGcmEncrypt\<close> returns 0 and writes exactly the
  ciphertext and the (truncated) tag of GCM in SP 800-38D under AES, for every IV length and
  every message and associated-data length below 2^32, and leaves the rest of both output
  buffers as it was.\<close>

theorem gcm_encrypt_correct:
  assumes "length (aes_key aes0) = 60" "length key \<in> {16, 24, 32}" "iv \<noteq> []" "length iv < 2 ^ 32" "length aad < 2 ^ 32"
    "length p < 2 ^ 32" "length p \<le> length out" "n \<in> {12..16}" "n \<le> length tag"
  shows "case wc_AesGcmSetKey aes0 (Buf key) of (r, aes) \<Rightarrow>
    r = 0 \<and> wc_AesGcmEncrypt aes (Some out) (Buf p) (Buf iv) (Some tag) n (Buf aad) =
      (0, Some (gcm_cipher (aes_encrypt key) iv p @ drop (length p) out),
       Some (take n (gcm_tag (aes_encrypt key) iv aad (gcm_cipher (aes_encrypt key) iv p)) @ drop n tag))"
proof -
  obtain aes where a: "wc_AesGcmSetKey aes0 (Buf key) = (0, aes)" "gcm_keyed aes key"
    using assms(1,2) by (rule wc_AesGcmSetKey_keyed)
  show ?thesis
    using wc_AesGcmEncrypt_keyed [OF a(2) assms(3,4) _ assms(6-9), of "Buf aad"] assms(5) by (simp add: a(1) aad_ok_def)
qed

theorem gcm_encrypt_correct_witness:
  "case wc_AesGcmSetKey aes_zeroed (Buf (zeros 32)) of (r, aes) \<Rightarrow>
    r = 0 \<and> wc_AesGcmEncrypt aes (Some (zeros 5)) (Buf [1, 2, 3]) (Buf (zeros 12)) (Some (zeros 16)) 16 (Buf [9]) =
      (0, Some (gcm_cipher (aes_encrypt (zeros 32)) (zeros 12) [1, 2, 3] @ zeros 2),
       Some (gcm_tag (aes_encrypt (zeros 32)) (zeros 12) [9] (gcm_cipher (aes_encrypt (zeros 32)) (zeros 12) [1, 2, 3])))"
  using gcm_encrypt_correct [where ?aes0.0 = aes_zeroed and key = "zeros 32" and iv = "zeros 12" and aad = "[9]" and p = "[1, 2, 3]"
      and out = "zeros 5" and n = 16 and tag = "zeros 16"]
  by (simp add: aes_zeroed_def zeros_def)

text \<open>C16: \<open>wc_AesGcmDecrypt\<close> accepts exactly the tags that agree with the GCM tag of the received
  ciphertext and associated data: then it returns 0 and writes the plaintext; otherwise it
  returns \<open>AES_GCM_AUTH_E\<close> and every byte of plaintext it had produced is overwritten with zeros,
  so that no unauthenticated plaintext leaves the function.\<close>

theorem gcm_decrypt_authenticates:
  assumes "gcm_keyed aes key" "iv \<noteq> []" "length iv < 2 ^ 32" "length aad < 2 ^ 32"
    "length c < 2 ^ 32" "length c \<le> length out" "n \<in> {12..16}" "n \<le> length tag"
  shows "wc_AesGcmDecrypt aes (Some out) (Buf c) (Buf iv) (Some tag) n (Buf aad) =
    (if take n tag = take n (gcm_tag (aes_encrypt key) iv aad c)
     then (0, Some (gcm_cipher (aes_encrypt key) iv c @ drop (length c) out))
     else (AES_GCM_AUTH_E, Some (zeros (length c) @ drop (length c) out)))"
  using wc_AesGcmDecrypt_keyed [OF assms(1-3) _ assms(5-8), of "Buf aad"] assms(4) by (simp add: aad_ok_def)

theorem gcm_decrypt_authenticates_witness:
  "\<exists>aes. gcm_keyed aes (zeros 16) \<and> wc_AesGcmDecrypt aes (Some (zeros 3)) (Buf [7, 7]) (Buf [1]) (Some (zeros 16)) 16 (Buf []) =
    (if take 16 (zeros 16) = take 16 (gcm_tag (aes_encrypt (zeros 16)) [1] [] [7, 7])
     then (0, Some (gcm_cipher (aes_encrypt (zeros 16)) [1] [7, 7] @ drop 2 (zeros 3)))
     else (AES_GCM_AUTH_E, Some (zeros 2 @ drop 2 (zeros 3))))"
proof -
  obtain aes where "gcm_keyed aes (zeros 16)"
    using wc_AesGcmSetKey_keyed [of aes_zeroed "zeros 16"] by (auto simp: aes_zeroed_def)
  then show ?thesis
    using gcm_decrypt_authenticates [where aes = aes and key = "zeros 16" and iv = "[1]" and aad = "[]" and c = "[7, 7]"
        and out = "zeros 3" and n = 16 and tag = "zeros 16"]
    by (intro exI [of _ aes]) (simp flip: numeral_2_eq_2)
qed

text \<open>C17: Decrypting what \<open>wc_AesGcmEncrypt\<close> wrote, with the same key object, IV and associated
  data, returns 0 and gives the plaintext back.\<close>

theorem gcm_roundtrip:
  assumes "gcm_keyed aes key" "iv \<noteq> []" "length iv < 2 ^ 32" "length aad < 2 ^ 32"
    "length p < 2 ^ 32" "length out = length p" "n \<in> {12..16}" "length tag = n" "length out2 = length p"
  shows "case wc_AesGcmEncrypt aes (Some out) (Buf p) (Buf iv) (Some tag) n (Buf aad) of (r, c, t) \<Rightarrow>
    r = 0 \<and> wc_AesGcmDecrypt aes (Some out2) (Buf (the c)) (Buf iv) t n (Buf aad) = (0, Some p)"
  using assms wc_AesGcmEncrypt_keyed [OF assms(1-3), of "Buf aad" p out n tag]
    wc_AesGcmDecrypt_keyed [OF assms(1-3), of "Buf aad" "gcm_cipher (aes_encrypt key) iv p" out2 n
      "take n (gcm_tag (aes_encrypt key) iv aad (gcm_cipher (aes_encrypt key) iv p))"]
  by (simp add: aad_ok_def gcm_cipher_involution)

theorem gcm_roundtrip_witness:
  "\<exists>aes. gcm_keyed aes (zeros 32) \<and>
    (case wc_AesGcmEncrypt aes (Some (zeros 2)) (Buf [5, 6]) (Buf [1]) (Some (zeros 12)) 12 (Buf [3]) of (r, c, t) \<Rightarrow>
      r = 0 \<and> wc_AesGcmDecrypt aes (Some [0, 0]) (Buf (the c)) (Buf [1]) t 12 (Buf [3]) = (0, Some [5, 6]))"
proof -
  obtain aes where "gcm_keyed aes (zeros 32)"
    using wc_AesGcmSetKey_keyed [of aes_zeroed "zeros 32"] by (auto simp: aes_zeroed_def)
  then show ?thesis
    using gcm_roundtrip [where aes = aes and key = "zeros 32" and iv = "[1]" and aad = "[3]" and p = "[5, 6]"
        and out = "zeros 2" and n = 12 and tag = "zeros 12" and ?out2.0 = "[0, 0]"]
    by (intro exI [of _ aes]) simp
qed

text \<open>C19: Until \<open>wc_AesGcmEncrypt_ex\<close> reports the overflow of its invocation counter, no history of
  calls, successful and failed ones in any order, uses one nonce twice; the count of invocations
  bounds the number of nonces used.\<close>

theorem gcm_nonces_never_repeat:
  assumes "gcm_calls aes ns a" "nonceSz aes \<le> length (aes_reg aes)" "8 \<le> nonceSz aes"
  shows "distinct ns \<and> length ns \<le> invocations a - invocations aes"
  using gcm_calls_distinct [OF assms] gcm_calls_invariant [OF assms(1,2)] by auto

theorem gcm_nonces_never_repeat_witness:
  "\<exists>aes ns a. gcm_calls aes ns a \<and> length ns = 2 \<and> nonceSz aes = 12 \<and> length (aes_reg aes) = 16 \<and>
    distinct ns \<and> length ns \<le> invocations a - invocations aes"
proof -
  obtain k where k: "gcm_keyed k (zeros 16)"
    using wc_AesGcmSetKey_keyed [of aes_zeroed "zeros 16"] by (auto simp: aes_zeroed_def)
  define a0 where "a0 = k\<lparr>aes_reg := zeros 16, invokeCtr0 := 0, invokeCtr1 := 0, nonceSz := 12\<rparr>"
  define a1 where "a1 = (count_invocation a0)\<lparr>aes_reg := IncCtr (aes_reg a0) 12\<rparr>"
  define a2 where "a2 = (count_invocation a1)\<lparr>aes_reg := IncCtr (aes_reg a1) 12\<rparr>"
  have k0: "gcm_keyed a0 (zeros 16)" "gcm_keyed a1 (zeros 16)"
    using k by (simp_all add: a0_def a1_def gcm_keyed_def aes_keyed_def count_invocation_def)
  have f: "nonceSz a0 = 12" "length (aes_reg a0) = 16" "nonceSz a1 = 12" "length (aes_reg a1) = 16"
    "invokeCtr0 a0 + 1 \<noteq> 0" "invokeCtr0 a1 + 1 \<noteq> 0"
    by (simp_all add: a0_def a1_def IncCtr_def count_invocation_def)
  obtain o1 t1 where 1: "wc_AesGcmEncrypt_ex a0 (Some []) (Buf []) (zeros 12) 12 (Some (zeros 16)) 16 (Buf []) = (0, a1, o1, next_nonce a0, t1)"
    using wc_AesGcmEncrypt_ex_keyed [OF k0(1), of "[]" "[]" "Buf []" 16 "zeros 16" "zeros 12"] f by (auto simp: a1_def aad_ok_def)
  obtain o2 t2 where 2: "wc_AesGcmEncrypt_ex a1 (Some []) (Buf []) (zeros 12) 12 (Some (zeros 16)) 16 (Buf []) = (0, a2, o2, next_nonce a1, t2)"
    using wc_AesGcmEncrypt_ex_keyed [OF k0(2), of "[]" "[]" "Buf []" 16 "zeros 16" "zeros 12"] f by (auto simp: a2_def aad_ok_def)
  have "gcm_calls a0 ([] @ [next_nonce a0]) a1" by (rule gcm_calls.used [OF gcm_calls.none 1]) simp
  then have c: "gcm_calls a0 (([] @ [next_nonce a0]) @ [next_nonce a1]) a2" by (rule gcm_calls.used [OF _ 2]) simp
  from c gcm_nonces_never_repeat [OF c] f show ?thesis by fastforce
qed

text \<open>C20: The overflow report of \<open>wc_AesGcmEncrypt_ex\<close> does not stick.  When the 64-bit invocation counter
  is at its last value, every call whose arguments pass the checks is refused with
  \<open>AES_GCM_OVERFLOW_E\<close> and writes nothing, but wraps the counter to zero; so the next call, for any
  message, additional data and tag length that AES-GCM takes, succeeds again on the same object,
  under the nonce that the refused call would have used.\<close>

theorem gcm_overflow_not_sticky:
  assumes "gcm_keyed a key" "nonceSz a \<in> {8, 12, 16}" "length (aes_reg a) = 16" "invokeCtr0 a = 0xFFFFFFFF" "invokeCtr1 a = 0xFFFFFFFF"
    and first: "csize inp = 0 \<or> \<not> is_null inp \<and> out \<noteq> None" "aad_ok aad" "length iv = nonceSz a"
    and second: "length p < 2 ^ 32" "length p \<le> length out'" "aad_ok aad'" "n \<in> {12..16}" "n \<le> length tag'" "length iv' = nonceSz a"
  shows "\<exists>a1. wc_AesGcmEncrypt_ex a out inp iv (nonceSz a) tag tagSz aad = (AES_GCM_OVERFLOW_E, a1, out, iv, tag) \<and> invocations a1 = 0 \<and>
    (\<exists>a2 c t. wc_AesGcmEncrypt_ex a1 (Some out') (Buf p) iv' (nonceSz a1) (Some tag') n aad' = (0, a2, c, take (nonceSz a) (aes_reg a), t))"
proof -
  let ?a1 = "count_invocation a"
  have l: "nonceSz a \<le> length (aes_reg a)" "0 < nonceSz a" "nonceSz a < 2 ^ 32" using assms(2,3) by auto
  have "wc_AesGcmEncrypt_ex a out inp iv (nonceSz a) tag tagSz aad = (AES_GCM_OVERFLOW_E, ?a1, out, iv, tag)"
    using assms(4,5) first l by (auto simp: wc_AesGcmEncrypt_ex_unfold aad_ok_def)
  moreover have "gcm_keyed ?a1 key" using assms(1) by (simp add: gcm_keyed_cong)
  then obtain c t where "wc_AesGcmEncrypt_ex ?a1 (Some out') (Buf p) iv' (nonceSz ?a1) (Some tag') n aad' =
      (0, (count_invocation ?a1)\<lparr>aes_reg := IncCtr (aes_reg ?a1) (nonceSz ?a1)\<rparr>, c, next_nonce ?a1, t)"
    using wc_AesGcmEncrypt_ex_keyed [of ?a1 key p out' aad' n tag' iv'] assms(4,5) l second by auto
  moreover have "invocations ?a1 = 0" using assms(4,5) by (simp add: invocations_def)
  ultimately show ?thesis by (auto simp: next_nonce_def)
qed

theorem gcm_overflow_not_sticky_witness:
  "\<exists>a a1 a2 c t. gcm_keyed a (zeros 16) \<and>
    wc_AesGcmEncrypt_ex a (Some [0, 0]) (Buf [5, 6]) (zeros 12) 12 (Some (zeros 16)) 16 (Buf []) =
      (AES_GCM_OVERFLOW_E, a1, Some [0, 0], zeros 12, Some (zeros 16)) \<and>
    wc_AesGcmEncrypt_ex a1 (Some [0]) (Buf [7]) (zeros 12) (nonceSz a1) (Some (zeros 16)) 12 (Buf [1]) = (0, a2, c, zeros 12, t)"
proof -
  obtain k where k: "gcm_keyed k (zeros 16)"
    using wc_AesGcmSetKey_keyed [of aes_zeroed "zeros 16"] by (auto simp: aes_zeroed_def)
  define a where "a = k\<lparr>aes_reg := zeros 16, invokeCtr0 := 0xFFFFFFFF, invokeCtr1 := 0xFFFFFFFF, nonceSz := 12\<rparr>"
  have f: "gcm_keyed a (zeros 16)" "nonceSz a = 12" "aes_reg a = zeros 16" "invokeCtr0 a = 0xFFFFFFFF" "invokeCtr1 a = 0xFFFFFFFF"
    using k by (simp_all add: a_def gcm_keyed_def aes_keyed_def)
  have "take 12 (zeros 16) = zeros 12" by (simp add: zeros_def)
  then show ?thesis
    using f gcm_overflow_not_sticky [of a "zeros 16" "Buf [5, 6]" "Some [0, 0]" "Buf []" "zeros 12" "[7]" "[0]" "Buf [1]" 12 "zeros 16" "zeros 12"
      "Some (zeros 16)" 16]
    by (simp add: aad_ok_def) blast
qed

end
