(* ===== verification/SpInt.thy ===== *)
theory SpInt
  imports Misc
begin

text \<open>
  \<open>wolfcrypt/src/sp_int.c\<close> as this build compiles it: 32-bit digits, no negative numbers,
  35 digits in a full \<open>sp_int\<close>.  The part modelled is what the elliptic-curve keys use
  (construction, wiping, conversion from and to big-endian bytes, bit counts) and the
  basic arithmetic on digits: comparison, addition, subtraction, one-digit
  multiplication, halving and shifts by whole digits.

  A number is a record of its digit array, the digits in use and the digits available;
  arguments are numbers, so the tests of the source for a NULL pointer do not arise
  (\<open>sp_cmp\<close>, which orders NULL before every number, takes options).
  Operations with a separate result read the operands and write the result's array; on
  the loops of the source, which read index \<open>i\<close> before they write it, this also covers a
  result that is one of the operands.
\<close>

section \<open>Numbers\<close>

definition SP_INT_DIGITS :: nat where [simp]: "SP_INT_DIGITS = 35"
definition SP_WORD_SIZE :: nat where [simp]: "SP_WORD_SIZE = 32"
definition SP_WORD_SIZEOF :: nat where [simp]: "SP_WORD_SIZEOF = 4"
definition MP_OKAY :: int where [simp]: "MP_OKAY = 0"
definition MP_GT :: int where [simp]: "MP_GT = 1"
definition MP_EQ :: int where [simp]: "MP_EQ = 0"
definition MP_LT :: int where [simp]: "MP_LT = -1"

record sp_int =
  used :: nat
  sp_size :: nat
  dp :: "word32 list"

definition sp_iszero :: "sp_int \<Rightarrow> bool" where
  "sp_iszero a \<longleftrightarrow> used a = 0"

definition sp_zero_raw :: "sp_int \<Rightarrow> sp_int" where
  "sp_zero_raw a = a\<lparr>used := 0, dp := (dp a)[0 := 0]\<rparr>"

definition sp_init_size_raw :: "sp_int \<Rightarrow> nat \<Rightarrow> sp_int" where
  "sp_init_size_raw a sz = (sp_zero_raw a)\<lparr>sp_size := sz\<rparr>"

definition sp_init_size :: "sp_int \<Rightarrow> nat \<Rightarrow> int \<times> sp_int" where
  "sp_init_size a sz =
     (if sz = 0 \<or> sz > SP_INT_DIGITS then (MP_VAL, a) else (MP_OKAY, sp_init_size_raw a sz))"

definition sp_init :: "sp_int \<Rightarrow> int \<times> sp_int" where
  "sp_init a = (MP_OKAY, sp_init_size_raw a SP_INT_DIGITS)"

definition sp_init_multi :: "sp_int option list \<Rightarrow> int \<times> sp_int option list" where
  "sp_init_multi ns = (MP_OKAY, map (map_option (\<lambda>n. sp_init_size_raw n SP_INT_DIGITS)) ns)"

definition sp_grow :: "sp_int \<Rightarrow> int \<Rightarrow> int \<times> sp_int" where
  "sp_grow a l =
     (if l < 0 then (MP_VAL, a)
      else if nat l > sp_size a then (MP_MEM, a)
      else (MP_OKAY, a\<lparr>dp := fold (\<lambda>i d. d[i := 0]) [used a..<nat l] (dp a)\<rparr>))"

definition sp_zero :: "sp_int \<Rightarrow> sp_int" where
  "sp_zero a = sp_zero_raw a"

definition sp_clear :: "sp_int \<Rightarrow> sp_int" where
  "sp_clear a = sp_zero_raw (a\<lparr>dp := fold (\<lambda>i d. d[i := 0]) [0..<used a] (dp a)\<rparr>)"

definition sp_forcezero :: "sp_int \<Rightarrow> sp_int" where
  "sp_forcezero a =
     sp_zero_raw (a\<lparr>dp := words_of_bytes (ForceZero 0 (bytes_of_words (dp a)) (sp_size a * SP_WORD_SIZEOF))\<rparr>)"

text \<open>The number of digits left when zero digits are dropped from the top.\<close>

fun clamp_loop :: "word32 list \<Rightarrow> nat \<Rightarrow> nat" where
  "clamp_loop d 0 = 0"
| "clamp_loop d (Suc ii) = (if d ! ii \<noteq> 0 then Suc ii else clamp_loop d ii)"

definition sp_clamp :: "sp_int \<Rightarrow> sp_int" where
  "sp_clamp a = a\<lparr>used := clamp_loop (dp a) (used a)\<rparr>"

text \<open>The constant-time variant: \<open>sp_size_t\<close> is 16 bits wide, \<open>sp_int_sword\<close> 64.\<close>

definition clamp_ct_step :: "word32 list \<Rightarrow> nat \<Rightarrow> word16 \<times> word16 \<Rightarrow> word16 \<times> word16" where
  "clamp_ct_step d i mu =
     (let zeroMask = ucast (signed_drop_bit 32 ((ucast (d ! i) :: word64) - 1)) :: word16;
          msk = fst mu AND zeroMask
      in (msk, snd mu + msk))"

definition sp_clamp_ct :: "sp_int \<Rightarrow> sp_int" where
  "sp_clamp_ct a =
     a\<lparr>used := unat (snd (fold (clamp_ct_step (dp a)) (rev [0..<used a]) (- 1, of_nat (used a))))\<rparr>"

definition sp_copy_raw :: "sp_int \<Rightarrow> sp_int \<Rightarrow> sp_int" where
  "sp_copy_raw a r =
     r\<lparr>dp := (if used a = 0 then (dp r)[0 := 0] else blit (dp r) 0 (take (used a) (dp a))), used := used a\<rparr>"

definition sp_copy :: "sp_int \<Rightarrow> sp_int \<Rightarrow> int \<times> sp_int" where
  "sp_copy a r = (if used a > sp_size r then (MP_VAL, r) else (MP_OKAY, sp_copy_raw a r))"

definition sp_init_copy :: "sp_int \<Rightarrow> sp_int \<Rightarrow> int \<times> sp_int" where
  "sp_init_copy r a = (let (err, r') = sp_init r in if err = MP_OKAY then sp_copy a r' else (err, r'))"

definition sp_set_raw :: "sp_int \<Rightarrow> word32 \<Rightarrow> sp_int" where
  "sp_set_raw a d = a\<lparr>dp := (dp a)[0 := d], used := (if d > 0 then 1 else 0)\<rparr>"

definition sp_set :: "sp_int \<Rightarrow> word32 \<Rightarrow> int \<times> sp_int" where
  "sp_set a d = (MP_OKAY, sp_set_raw a d)"

section \<open>Comparison and bits\<close>

fun cmp_loop :: "word32 list \<Rightarrow> word32 list \<Rightarrow> nat \<Rightarrow> int" where
  "cmp_loop a b 0 = MP_EQ"
| "cmp_loop a b (Suc i) =
     (if a ! i > b ! i then MP_GT else if a ! i < b ! i then MP_LT else cmp_loop a b i)"

definition sp_cmp_abs :: "sp_int \<Rightarrow> sp_int \<Rightarrow> int" where
  "sp_cmp_abs a b =
     (if used a > used b then MP_GT else if used a < used b then MP_LT
      else cmp_loop (dp a) (dp b) (used a))"

text \<open>Pointers that may be NULL; the test \<open>a == b\<close> on them only anticipates equality.\<close>

definition sp_cmp_mag :: "sp_int option \<Rightarrow> sp_int option \<Rightarrow> int" where
  "sp_cmp_mag a b =
     (case (a, b) of (None, None) \<Rightarrow> MP_EQ | (None, Some _) \<Rightarrow> MP_LT | (Some _, None) \<Rightarrow> MP_GT
      | (Some x, Some y) \<Rightarrow> sp_cmp_abs x y)"

definition sp_cmp :: "sp_int option \<Rightarrow> sp_int option \<Rightarrow> int" where
  "sp_cmp a b =
     (case (a, b) of (None, None) \<Rightarrow> MP_EQ | (None, Some _) \<Rightarrow> MP_LT | (Some _, None) \<Rightarrow> MP_GT
      | (Some x, Some y) \<Rightarrow> sp_cmp_abs x y)"

definition sp_cmp_d :: "sp_int \<Rightarrow> word32 \<Rightarrow> int" where
  "sp_cmp_d a d =
     (if used a > 1 then MP_GT
      else if used a = 0 then (if d \<noteq> 0 then MP_LT else MP_EQ)
      else if dp a ! 0 > d then MP_GT else if dp a ! 0 < d then MP_LT else MP_EQ)"

definition sp_is_bit_set :: "sp_int \<Rightarrow> nat \<Rightarrow> int" where
  "sp_is_bit_set a b =
     (let i = b div 32 in if i < used a then uint (drop_bit (b mod 32) (dp a ! i) AND 1) else 0)"

fun top_digit :: "word32 list \<Rightarrow> nat \<Rightarrow> nat" where
  "top_digit d 0 = 0"
| "top_digit d (Suc n) = (if d ! n = 0 then top_digit d n else Suc n)"

text \<open>The two loops of \<open>sp_count_bits\<close> on the top digit: leading zeros shifted out to the left, or
  all bits shifted out to the right.\<close>

fun lead_loop :: "nat \<Rightarrow> word32 \<Rightarrow> nat" where
  "lead_loop 0 d = 0"
| "lead_loop (Suc n) d = (if d AND push_bit 31 1 = 0 then lead_loop n (push_bit 1 d) else Suc n)"

function bits_loop :: "word32 \<Rightarrow> nat" where
  "bits_loop d = (if d = 0 then 0 else Suc (bits_loop (drop_bit 1 d)))"
  by auto

lemma unat_half_less: "d \<noteq> 0 \<Longrightarrow> unat (drop_bit (Suc 0) d :: word32) < unat d"
proof -
  assume "d \<noteq> 0"
  then have "0 < unat d" by (simp add: unat_gt_0)
  moreover have "unat (drop_bit (Suc 0) d) = unat d div 2" by (simp add: drop_bit_Suc unat_div)
  ultimately show ?thesis by simp
qed

termination bits_loop
  by (relation "measure unat") (simp_all add: unat_half_less)

declare bits_loop.simps [simp del]

definition sp_count_bits :: "sp_int \<Rightarrow> nat" where
  "sp_count_bits a =
     (let n = top_digit (dp a) (used a)
      in if n = 0 then 0
         else let d = dp a ! (n - 1)
              in (n - 1) * SP_WORD_SIZE + (if d > 0xFFFF then lead_loop SP_WORD_SIZE d else bits_loop d))"

definition sp_leading_bit :: "sp_int \<Rightarrow> nat" where
  "sp_leading_bit a =
     (if used a > 0
      then let d0 = dp a ! (used a - 1);
               d1 = (if d0 > 0xff then drop_bit 8 d0 else d0);
               d2 = (if d1 > 0xff then drop_bit 8 d1 else d1);
               d3 = (if d2 > 0xff then drop_bit 8 d2 else d2)
           in unat (drop_bit 7 d3)
      else 0)"

definition sp_set_bit :: "sp_int \<Rightarrow> int \<Rightarrow> int \<times> sp_int" where
  "sp_set_bit a i =
     (if i > int (SP_INT_DIGITS * SP_WORD_SIZE) then (MP_VAL, a)
      else if i < 0 \<or> nat i div 32 \<ge> sp_size a then (MP_VAL, a)
      else let w = nat i div 32;
               d = fold (\<lambda>j d. d[j := 0]) [used a..<Suc w] (dp a)
           in (MP_OKAY, a\<lparr>dp := d[w := d ! w OR push_bit (nat i mod 32) 1],
                          used := (if used a \<le> w then w + 1 else used a)\<rparr>))"

definition sp_2expt :: "sp_int \<Rightarrow> int \<Rightarrow> int \<times> sp_int" where
  "sp_2expt a e = (if e < 0 then (MP_VAL, a) else sp_set_bit (sp_zero_raw a) e)"

section \<open>Big-endian bytes\<close>

definition sp_unsigned_bin_size :: "sp_int \<Rightarrow> nat" where
  "sp_unsigned_bin_size a = (sp_count_bits a + 7) div 8"

text \<open>Whole digits from the end of the input; \<open>n\<close> is the number of bytes not yet read (\<open>i + 1\<close>).\<close>

fun read_digits :: "byte list \<Rightarrow> nat \<Rightarrow> nat \<Rightarrow> word32 list \<Rightarrow> nat \<times> word32 list" where
  "read_digits inp n j d =
     (if n \<ge> 4
      then read_digits inp (n - 4) (Suc j)
             (d[j := ucast (inp ! (n - 1)) OR push_bit 8 (ucast (inp ! (n - 2))) OR
                     push_bit 16 (ucast (inp ! (n - 3))) OR push_bit 24 (ucast (inp ! (n - 4)))])
      else (n, d))"

declare read_digits.simps [simp del]

definition sp_read_unsigned_bin :: "sp_int \<Rightarrow> cbuf \<Rightarrow> int \<times> sp_int" where
  "sp_read_unsigned_bin a inp =
     (if is_null inp \<and> csize inp > 0 then (MP_VAL, a)
      else if csize inp > sp_size a * SP_WORD_SIZEOF then (MP_VAL, a)
      else let inSz = csize inp;
               u = (inSz + SP_WORD_SIZEOF - 1) div SP_WORD_SIZEOF;
               (n, d) = read_digits (cbytes inp) inSz 0 (dp a);
               d' = (if n > 0
                     then words_of_bytes (fold (\<lambda>k bs. bs[inSz - 1 - k := cbytes inp ! k]) (rev [0..<n])
                            (bytes_of_words (d[u - 1 := 0])))
                     else d)
           in (MP_OKAY, sp_clamp_ct (a\<lparr>used := u, dp := d'\<rparr>)))"

text \<open>The inner loop of \<open>sp_to_unsigned_bin_len\<close>: \<open>jn\<close> is \<open>j + 1\<close>, \<open>rest\<close> says that digits follow.\<close>

fun put_digit :: "nat \<Rightarrow> bool \<Rightarrow> word32 \<Rightarrow> nat \<Rightarrow> byte list \<Rightarrow> int \<times> nat \<times> byte list" where
  "put_digit 0 rest d jn out = (MP_OKAY, jn, out)"
| "put_digit (Suc b) rest d jn out =
     (let out' = out[jn - 1 := ucast d]; d' = drop_bit 8 d
      in if jn - 1 = 0 then (if rest \<or> d' > 0 then MP_VAL else MP_OKAY, 0, out')
         else put_digit b rest d' (jn - 1) out')"

fun put_digits :: "word32 list \<Rightarrow> nat \<Rightarrow> byte list \<Rightarrow> int \<times> nat \<times> byte list" where
  "put_digits [] jn out = (MP_OKAY, jn, out)"
| "put_digits (d # ds) jn out =
     (if jn = 0 then (MP_OKAY, jn, out)
      else let (err, jn', out') = put_digit 4 (ds \<noteq> []) d jn out
           in if jn' = 0 then (err, jn', out') else put_digits ds jn' out')"

definition sp_to_unsigned_bin_len :: "sp_int \<Rightarrow> byte list \<Rightarrow> int \<Rightarrow> int \<times> byte list" where
  "sp_to_unsigned_bin_len a out outSz =
     (if outSz < 0 then (MP_VAL, out)
      else let (err, jn, out') = (if sp_iszero a then (MP_OKAY, nat outSz, out)
                                  else put_digits (take (used a) (dp a)) (nat outSz) out)
           in (err, zeros jn @ drop jn out'))"

definition sp_to_unsigned_bin :: "sp_int \<Rightarrow> byte list \<Rightarrow> int \<times> byte list" where
  "sp_to_unsigned_bin a out = sp_to_unsigned_bin_len a out (int (sp_unsigned_bin_size a))"

section \<open>Arithmetic\<close>

fun add_d_carry :: "word32 list \<Rightarrow> nat \<Rightarrow> nat \<Rightarrow> word32 list \<Rightarrow> nat \<times> word32 list" where
  "add_d_carry a i 0 r = (i, r)"
| "add_d_carry a i (Suc n) r =
     (let r' = r[i := a ! i + 1] in if r' ! i \<noteq> 0 then (i, r') else add_d_carry a (Suc i) n r')"

definition copy_from :: "word32 list \<Rightarrow> nat \<Rightarrow> nat \<Rightarrow> word32 list \<Rightarrow> word32 list" where
  "copy_from a i n r = fold (\<lambda>j r. r[j := a ! j]) [Suc i..<n] r"

definition sp_add_d_raw :: "sp_int \<Rightarrow> word32 \<Rightarrow> sp_int \<Rightarrow> int \<times> sp_int" where
  "sp_add_d_raw a d r =
     (if used a = 0 then (MP_OKAY, r\<lparr>dp := (dp r)[0 := d], used := (if d > 0 then 1 else 0)\<rparr>)
      else let a0 = dp a ! 0;
               r0 = (dp r)[0 := a0 + d]
           in if r0 ! 0 < a0
              then let (i, r1) = add_d_carry (dp a) 1 (used a - 1) r0
                   in if i = used a
                      then (if i < sp_size r then (MP_OKAY, r\<lparr>used := used a + 1, dp := r1[i := 1]\<rparr>)
                            else (MP_VAL, r\<lparr>used := used a, dp := r1\<rparr>))
                      else (MP_OKAY, r\<lparr>used := used a, dp := copy_from (dp a) i (used a) r1\<rparr>)
              else (MP_OKAY, r\<lparr>used := used a, dp := copy_from (dp a) 0 (used a) r0\<rparr>))"

definition sp_add_d :: "sp_int \<Rightarrow> word32 \<Rightarrow> sp_int \<Rightarrow> int \<times> sp_int" where
  "sp_add_d a d r = (if used a + 1 > sp_size r then (MP_VAL, r) else sp_add_d_raw a d r)"

fun sub_d_borrow :: "word32 list \<Rightarrow> nat \<Rightarrow> nat \<Rightarrow> word32 list \<Rightarrow> nat \<times> word32 list" where
  "sub_d_borrow a i 0 r = (i, r)"
| "sub_d_borrow a i (Suc n) r =
     (let r' = r[i := a ! i - 1] in if r' ! i \<noteq> 0xFFFFFFFF then (i, r') else sub_d_borrow a (Suc i) n r')"

definition sp_sub_d_raw :: "sp_int \<Rightarrow> word32 \<Rightarrow> sp_int \<Rightarrow> sp_int" where
  "sp_sub_d_raw a d r =
     (if used a = 0 then r\<lparr>used := 0, dp := (dp r)[0 := 0]\<rparr>
      else let a0 = dp a ! 0;
               r0 = (dp r)[0 := a0 - d];
               (i, r1) = (if r0 ! 0 > a0 then sub_d_borrow (dp a) 1 (used a - 1) r0 else (0, r0))
           in sp_clamp (r\<lparr>used := used a, dp := copy_from (dp a) i (used a) r1\<rparr>))"

definition sp_sub_d :: "sp_int \<Rightarrow> word32 \<Rightarrow> sp_int \<Rightarrow> int \<times> sp_int" where
  "sp_sub_d a d r = (if used a > sp_size r then (MP_VAL, r) else (MP_OKAY, sp_sub_d_raw a d r))"

text \<open>The loops of \<open>_sp_add_off\<close> with a 64-bit accumulator, index \<open>i\<close> running up to the longer
  operand; where one operand has ended its digits are not added.\<close>

fun add_loop :: "sp_int \<Rightarrow> sp_int \<Rightarrow> nat \<Rightarrow> nat \<Rightarrow> word64 \<Rightarrow> word32 list \<Rightarrow> word64 \<times> word32 list" where
  "add_loop a b i 0 t r = (t, r)"
| "add_loop a b i (Suc n) t r =
     (let t1 = (if i < used a then t + ucast (dp a ! i) else t);
          t2 = (if i < used b then t1 + ucast (dp b ! i) else t1)
      in add_loop a b (Suc i) n (drop_bit 32 t2) (r[i := ucast t2]))"

definition sp_add_off :: "sp_int \<Rightarrow> sp_int \<Rightarrow> sp_int \<Rightarrow> sp_int" where
  "sp_add_off a b r =
     (let n = max (used a) (used b);
          (t, d) = add_loop a b 0 n 0 (dp r)
      in sp_clamp (r\<lparr>used := n + (if t \<noteq> 0 then 1 else 0), dp := d[n := ucast t]\<rparr>))"

definition sp_add :: "sp_int \<Rightarrow> sp_int \<Rightarrow> sp_int \<Rightarrow> int \<times> sp_int" where
  "sp_add a b r =
     (if used a \<ge> sp_size r \<or> used b \<ge> sp_size r then (MP_VAL, r) else (MP_OKAY, sp_add_off a b r))"

text \<open>\<open>_sp_sub_off\<close> at offset 0: \<open>t\<close> is signed, and its right shift keeps the sign.\<close>

fun sub_loop :: "sp_int \<Rightarrow> sp_int \<Rightarrow> nat \<Rightarrow> nat \<Rightarrow> word64 \<Rightarrow> word32 list \<Rightarrow> word64 \<times> word32 list" where
  "sub_loop a b i 0 t r = (t, r)"
| "sub_loop a b i (Suc n) t r =
     (let t1 = t + ucast (dp a ! i);
          t2 = (if i < used b then t1 - ucast (dp b ! i) else t1)
      in sub_loop a b (Suc i) n (signed_drop_bit 32 t2) (r[i := ucast t2]))"

definition sp_sub_off :: "sp_int \<Rightarrow> sp_int \<Rightarrow> sp_int \<Rightarrow> sp_int" where
  "sp_sub_off a b r =
     sp_clamp (r\<lparr>used := used a, dp := snd (sub_loop a b 0 (used a) 0 (dp r))\<rparr>)"

definition sp_sub :: "sp_int \<Rightarrow> sp_int \<Rightarrow> sp_int \<Rightarrow> int \<times> sp_int" where
  "sp_sub a b r =
     (if used a > sp_size r \<or> used b > sp_size r then (MP_VAL, r) else (MP_OKAY, sp_sub_off a b r))"

fun mul_d_loop :: "word32 list \<Rightarrow> word32 \<Rightarrow> nat \<Rightarrow> nat \<Rightarrow> word64 \<Rightarrow> word32 list \<Rightarrow> word64 \<times> word32 list" where
  "mul_d_loop a d i 0 t r = (t, r)"
| "mul_d_loop a d i (Suc n) t r =
     (let t1 = t + ucast (a ! i) * ucast d
      in mul_d_loop a d (Suc i) n (drop_bit 32 t1) (r[i := ucast t1]))"

definition sp_mul_d_raw :: "sp_int \<Rightarrow> word32 \<Rightarrow> sp_int \<Rightarrow> int \<times> sp_int" where
  "sp_mul_d_raw a d r =
     (let (t, r1) = mul_d_loop (dp a) d 0 (used a) 0 (dp r);
          n = used a
      in if t > 0
         then (if n = sp_size r then (MP_VAL, sp_clamp (r\<lparr>used := n, dp := r1\<rparr>))
               else (MP_OKAY, sp_clamp (r\<lparr>used := n + 1, dp := r1[n := ucast t]\<rparr>)))
         else (MP_OKAY, sp_clamp (r\<lparr>used := n, dp := r1\<rparr>)))"

definition sp_mul_d :: "sp_int \<Rightarrow> word32 \<Rightarrow> sp_int \<Rightarrow> int \<times> sp_int" where
  "sp_mul_d a d r = (if used a > sp_size r then (MP_VAL, r) else sp_mul_d_raw a d r)"

definition sp_lshd :: "sp_int \<Rightarrow> int \<Rightarrow> int \<times> sp_int" where
  "sp_lshd a s =
     (if s < 0 then (MP_VAL, a)
      else if used a + nat s > sp_size a then (MP_VAL, a)
      else (MP_OKAY, sp_clamp (a\<lparr>dp := blit (blit (dp a) (nat s) (take (used a) (dp a))) 0 (replicate (nat s) 0),
                                 used := used a + nat s\<rparr>)))"

definition sp_rshd :: "sp_int \<Rightarrow> int \<Rightarrow> sp_int" where
  "sp_rshd a c =
     (if c > 0
      then (if nat c \<ge> used a then sp_zero_raw a
            else a\<lparr>used := used a - nat c, dp := fold (\<lambda>i d. d[i := d ! (i + nat c)]) [0..<used a - nat c] (dp a)\<rparr>)
      else a)"

section \<open>Values and the representation invariant\<close>

text \<open>The number that digits write, least significant first, and that a record holds.\<close>

primrec dval :: "word32 list \<Rightarrow> nat" where
  "dval [] = 0"
| "dval (w # ws) = unat w + 2 ^ 32 * dval ws"

definition sp_val :: "sp_int \<Rightarrow> nat" where
  "sp_val a = dval (take (used a) (dp a))"

definition sp_ok :: "sp_int \<Rightarrow> bool" where
  "sp_ok a \<longleftrightarrow> used a \<le> sp_size a \<and> 0 < sp_size a \<and> sp_size a \<le> length (dp a) \<and> length (dp a) \<le> SP_INT_DIGITS"

definition clamped :: "sp_int \<Rightarrow> bool" where
  "clamped a \<longleftrightarrow> used a = 0 \<or> dp a ! (used a - 1) \<noteq> 0"

lemma dval_append: "dval (xs @ ys) = dval xs + 2 ^ (32 * length xs) * dval ys"
  by (induction xs) (simp_all add: algebra_simps power_add)

lemma dval_less: "dval ws < 2 ^ (32 * length ws)"
proof (induction ws)
  case (Cons w ws)
  have "unat w + 2 ^ 32 * dval ws < 2 ^ 32 * Suc (dval ws)"
    using unsigned_less [of w, where ?'a = nat] by simp
  also have "\<dots> \<le> 2 ^ 32 * 2 ^ (32 * length ws)"
    using Cons by (intro mult_left_mono) (simp_all add: Suc_leI)
  also have "\<dots> = 2 ^ (32 * length (w # ws))" by (simp add: power_add)
  finally show ?case by (simp only: dval.simps)
qed simp

lemma dval_take_Suc: "n < length d \<Longrightarrow> dval (take (Suc n) d) = dval (take n d) + 2 ^ (32 * n) * unat (d ! n)"
  by (simp add: take_Suc_conv_app_nth dval_append)

lemma clamp_loop_le: "clamp_loop d n \<le> n"
  by (induction d n rule: clamp_loop.induct) auto

lemma clamp_loop_top: "clamp_loop d n = 0 \<or> d ! (clamp_loop d n - 1) \<noteq> 0"
  by (induction d n rule: clamp_loop.induct) auto

lemma dval_clamp_loop: "n \<le> length d \<Longrightarrow> dval (take (clamp_loop d n) d) = dval (take n d)"
  by (induction d n rule: clamp_loop.induct) (auto simp: dval_take_Suc)

lemma sp_clamp_val [simp]: "used a \<le> length (dp a) \<Longrightarrow> sp_val (sp_clamp a) = sp_val a"
  by (simp add: sp_val_def sp_clamp_def dval_clamp_loop)

lemma sp_clamp_clamped [simp]: "clamped (sp_clamp a)"
  using clamp_loop_top [of "dp a" "used a"] by (auto simp: clamped_def sp_clamp_def)

lemma sp_clamp_ok [simp]: "sp_ok a \<Longrightarrow> sp_ok (sp_clamp a)"
  using clamp_loop_le [of "dp a" "used a"] by (auto simp: sp_ok_def sp_clamp_def)

lemma sp_clamp_sel [simp]: "dp (sp_clamp a) = dp a" "sp_size (sp_clamp a) = sp_size a"
  by (simp_all add: sp_clamp_def)

text \<open>The arithmetic shift of the constant-time clamp: all ones below a zero digit, zero otherwise.\<close>

lemma zero_mask: "(ucast (signed_drop_bit 32 ((ucast (w :: word32) :: word64) - 1)) :: word16) = (if w = 0 then - 1 else 0)"
proof (cases "w = 0")
  case False
  then have "(ucast w :: word64) - 1 = ucast (w - 1)"
    using unsigned_less [of w, where ?'a = nat]
    by (simp add: word_unat_eq_iff unat_minus_one unsigned_ucast_eq take_bit_nat_eq_self unsigned_0)
  then have "signed_drop_bit 32 ((ucast w :: word64) - 1) = 0"
    by (auto intro!: bit_word_eqI simp: bit_signed_drop_bit_iff bit_ucast_iff impossible_bit split: if_splits)
  then show ?thesis using False by simp
next
  case True
  have "(ucast (- 1 :: word64) :: word16) = - 1" by (rule bit_word_eqI) (simp add: bit_ucast_iff)
  then show ?thesis using True by simp
qed

lemma clamp_ct_step: "clamp_ct_step d i (m, u) = (if d ! i = 0 then (m, u + m) else (0, u))"
  by (simp add: clamp_ct_step_def zero_mask)

lemma clamp_ct_done: "snd (fold (clamp_ct_step d) is (0, u)) = u"
  by (induction "is") (simp_all add: clamp_ct_step)

lemma clamp_ct_loop: "snd (fold (clamp_ct_step d) (rev [0..<n]) (- 1, of_nat n)) = of_nat (clamp_loop d n)"
  by (induction n) (simp_all add: clamp_ct_step clamp_ct_done)

lemma sp_clamp_ct_eq: "used a < 2 ^ 16 \<Longrightarrow> sp_clamp_ct a = sp_clamp a"
  using clamp_loop_le [of "dp a" "used a"]
  by (simp add: sp_clamp_ct_def sp_clamp_def clamp_ct_loop unat_of_nat)

section \<open>Bytes in and out\<close>

text \<open>Little-endian bytes, and how they group into digits.\<close>

primrec le_val :: "byte list \<Rightarrow> nat" where
  "le_val [] = 0"
| "le_val (b # bs) = unat b + 256 * le_val bs"

lemma le_val_rev: "le_val (rev bs) = be_val bs"
proof -
  have "le_val (xs @ ys) = le_val xs + 256 ^ length xs * le_val ys" for xs ys
    by (induction xs) (simp_all add: algebra_simps)
  then show ?thesis by (induction bs) (simp_all add: algebra_simps)
qed

lemma le_val_zeros: "le_val (bs @ replicate n 0) = le_val bs"
  by (induction bs) (simp_all, induction n, simp_all)

lemma unat_word32_of_bytes:
  assumes "length bs = 4"
  shows "unat (word32_of_bytes bs) = le_val bs"
proof -
  obtain a b c d where bs: "bs = [a, b, c, d]" using assms by (auto simp: eval_nat_numeral length_Suc_conv)
  have *: "word32_of_bytes [a, b, c, d] = word_of_nat (le_val [a, b, c, d])"
  proof -
    have "word32_of_bytes [a, b, c, d] = ucast a + (push_bit 8 (ucast b) + (push_bit 16 (ucast c) + push_bit 24 (ucast d)))"
      unfolding word32_of_bytes_def
      by (simp, (subst disjunctive_add, force simp: bit_simps dest: bit_imp_le_length)+) simp
    then show ?thesis by (simp add: push_bit_eq_mult of_nat_unat algebra_simps)
  qed
  have "le_val [a, b, c, d] < 2 ^ 32"
    using be_val_less [of "[d, c, b, a]"] le_val_rev [of "[d, c, b, a]"] by simp
  then show ?thesis unfolding bs * unat_of_nat by simp
qed

lemma dval_words_of_bytes: "4 dvd length bs \<Longrightarrow> dval (words_of_bytes bs) = le_val bs"
proof (induction bs rule: words_of_bytes.induct)
  case (1 a b c d bs)
  then have "4 dvd length bs" by simp presburger
  then show ?case using 1 by (simp add: unat_word32_of_bytes)
qed (auto dest!: dvd_imp_le)

text \<open>The read loop stores the whole digits of the input's tail and leaves the length modulo four.\<close>

lemma blit_Cons: "j < length d \<Longrightarrow> blit d j (w # ws) = blit (d[j := w]) (Suc j) ws"
  by (simp add: blit_def take_Suc_conv_app_nth)

lemma read_digits_eq:
  "\<lbrakk>n \<le> length inp; j + n div 4 \<le> length d\<rbrakk> \<Longrightarrow>
   read_digits inp n j d = (n mod 4, blit d j (words_of_bytes (rev (drop (n mod 4) (take n inp)))))"
proof (induction inp n j d rule: read_digits.induct)
  case (1 inp n j d)
  show ?case
  proof (cases "n \<ge> 4")
    case True
    define w where "w = word32_of_bytes [inp ! (n - 1), inp ! (n - 2), inp ! (n - 3), inp ! (n - 4)]"
    have w: "ucast (inp ! (n - 1)) OR push_bit 8 (ucast (inp ! (n - 2))) OR
        push_bit 16 (ucast (inp ! (n - 3))) OR push_bit 24 (ucast (inp ! (n - 4))) = w"
      by (simp add: w_def word32_of_bytes_def)
    have m: "(n - 4) mod 4 = n mod 4" using True by (simp add: le_mod_geq)
    have d4: "n div 4 = Suc ((n - 4) div 4)" using True by (simp add: le_div_geq)
    define m where "m = n - 4"
    have n: "n = Suc (Suc (Suc (Suc m)))" using True by (simp add: m_def)
    have "take n inp = take (n - 4) inp @ [inp ! (n - 4), inp ! (n - 3), inp ! (n - 2), inp ! (n - 1)]"
      using 1(2) by (simp add: n take_Suc_conv_app_nth eval_nat_numeral)
    then have r: "rev (drop (n mod 4) (take n inp)) =
        [inp ! (n - 1), inp ! (n - 2), inp ! (n - 3), inp ! (n - 4)] @ rev (drop (n mod 4) (take (n - 4) inp))"
      using 1(2) mod_less_eq_dividend [of "n - 4" 4] unfolding m by (simp del: mod_less_eq_dividend)
    have "read_digits inp n j d = read_digits inp (n - 4) (Suc j) (d[j := w])"
      using True by (simp only: read_digits.simps [of inp n j d] w if_True)
    also have "\<dots> = (n mod 4, blit (d[j := w]) (Suc j) (words_of_bytes (rev (drop (n mod 4) (take (n - 4) inp)))))"
      using 1 True m d4 w by simp
    finally show ?thesis
      using 1(3) d4 by (simp only: r words_of_bytes_append4 length_Cons list.size w_def [symmetric] blit_Cons)
  next
    case False
    then show ?thesis by (subst read_digits.simps) (simp add: blit_def)
  qed
qed

lemma be_val_append: "be_val (xs @ ys) = be_val xs * 256 ^ length ys + be_val ys"
  by (induction xs) (simp_all add: algebra_simps power_add)

lemma leftover_bytes:
  "\<lbrakk>n \<le> Suc s; n \<le> length inp; s < length B\<rbrakk> \<Longrightarrow>
   fold (\<lambda>k bs. bs[s - k := inp ! k]) (rev [0..<n]) B = blit B (Suc s - n) (rev (take n inp))"
proof (induction n arbitrary: B)
  case (Suc n)
  then show ?case by (simp add: take_Suc_conv_app_nth blit_Cons Suc_diff_le)
qed simp

lemma leftover_digit:
  assumes q: "q < length d" and r: "length r \<le> 4"
  shows "words_of_bytes (blit (bytes_of_words (d[q := 0])) (4 * q) r) =
         d[q := word32_of_bytes (r @ replicate (4 - length r) 0)]"
proof -
  obtain pre x post where d: "d = pre @ x # post" "length pre = q"
    using id_take_nth_drop [OF q] q by (metis length_take min.absorb4)
  have z: "bytes_of_word32 0 = replicate 4 0" by (simp add: bytes_of_word32_def eval_nat_numeral)
  have "blit (bytes_of_words (d[q := 0])) (4 * q) r =
      bytes_of_words pre @ (r @ replicate (4 - length r) 0) @ bytes_of_words post"
    using r by (simp add: d(1) blit_def z list_update_append flip: d(2))
  then show ?thesis
    using r by (simp add: d(1) words_of_bytes_append list_update_append
        words_of_bytes_append4 [of "r @ replicate (4 - length r) 0", simplified] flip: d(2))
qed

lemma sp_read_unsigned_bin_ok:
  assumes a: "sp_ok a" and l: "length bs \<le> 4 * sp_size a"
  obtains a' where "sp_read_unsigned_bin a (Buf bs) = (0, a')" "sp_ok a'" "clamped a'"
    "sp_val a' = be_val bs" "sp_size a' = sp_size a"
proof -
  define n q where "n = length bs mod 4" and "q = length bs div 4"
  have nq: "length bs = 4 * q + n" "n < 4" by (simp_all add: n_def q_def)
  define ws where "ws = words_of_bytes (rev (drop n bs))"
  have ws: "length ws = q" "dval ws = be_val (drop n bs)"
    using nq by (simp_all add: ws_def dval_words_of_bytes le_val_rev)
  define D where "D = blit (dp a) 0 ws"
  have qa: "q \<le> length (dp a)" using a l nq(1) by (simp add: sp_ok_def)
  then have D: "length D = length (dp a)" "take q D = ws"
    using ws(1) take_blit [of 0 ws "dp a"] by (simp_all add: D_def)
  have rd: "read_digits bs (length bs) 0 (dp a) = (n, D)"
    using qa by (simp add: read_digits_eq D_def ws_def n_def q_def)
  define u where "u = (length bs + 3) div 4"
  have u: "u \<le> sp_size a" "u = (if n = 0 then q else Suc q)" using l nq(2) unfolding u_def nq(1) by auto
  define E where "E = (if n > 0 then D[q := word32_of_bytes (rev (take n bs) @ replicate (4 - n) 0)] else D)"
  have qD: "q < length D" if "n > 0" using that u a D(1) by (simp add: sp_ok_def)
  have E: "(if n > 0 then words_of_bytes (fold (\<lambda>k bs'. bs'[length bs - 1 - k := bs ! k]) (rev [0..<n])
      (bytes_of_words (D[u - 1 := 0]))) else D) = E"
  proof (cases "n > 0")
    case True
    then have "Suc (length bs - 1) - n = 4 * q" "n \<le> Suc (length bs - 1)" "length bs - 1 < length (bytes_of_words (D[q := 0]))"
      using nq qD [OF True] by simp_all
    then show ?thesis
      using True leftover_digit [OF qD [OF True], of "rev (take n bs)"]
        leftover_bytes [of n "length bs - 1" bs "bytes_of_words (D[q := 0])"] nq u(2)
      by (simp add: E_def)
  qed (simp add: E_def)
  have "sp_read_unsigned_bin a (Buf bs) = (0, sp_clamp_ct (a\<lparr>used := u, dp := E\<rparr>))"
    using l unfolding E [symmetric] by (simp add: sp_read_unsigned_bin_def rd u_def add.commute Let_def)
  moreover have "used (a\<lparr>used := u, dp := E\<rparr>) < 2 ^ 16" using u(1) a by (simp add: sp_ok_def)
  moreover have ok: "sp_ok (a\<lparr>used := u, dp := E\<rparr>)" using u(1) a D(1) by (auto simp: sp_ok_def E_def)
  moreover have v: "dval (take u E) = be_val bs"
  proof (cases "n > 0")
    case True
    let ?w = "word32_of_bytes (rev (take n bs) @ replicate (4 - n) 0)"
    have "take u E = ws @ [?w]"
      using True qD u(2) D(2) by (simp add: E_def take_Suc_conv_app_nth)
    moreover have "unat ?w = be_val (take n bs)"
      using nq by (subst unat_word32_of_bytes) (simp_all add: le_val_zeros le_val_rev)
    moreover have "(256 :: nat) ^ (4 * q) = 2 ^ (32 * q)" by (simp add: power_mult)
    ultimately show ?thesis
      using be_val_append [of "take n bs" "drop n bs"] ws nq by (simp add: dval_append)
  qed (use ws D(2) u(2) in \<open>simp add: E_def\<close>)
  then have "sp_val (sp_clamp (a\<lparr>used := u, dp := E\<rparr>)) = be_val bs"
    using sp_clamp_val [of "a\<lparr>used := u, dp := E\<rparr>"] ok by (simp add: sp_val_def [of "a\<lparr>used := u, dp := E\<rparr>"] sp_ok_def)
  ultimately show thesis
    using that [of "sp_clamp (a\<lparr>used := u, dp := E\<rparr>)"] by (simp add: sp_clamp_ct_eq)
qed

text \<open>The bytes of a number at a fixed width, least and most significant first.\<close>

primrec le_bytes :: "nat \<Rightarrow> nat \<Rightarrow> byte list" where
  "le_bytes 0 v = []"
| "le_bytes (Suc n) v = word_of_nat v # le_bytes n (v div 256)"

definition be_bytes :: "nat \<Rightarrow> nat \<Rightarrow> byte list" where
  "be_bytes n v = rev (le_bytes n v)"

lemma length_le_bytes [simp]: "length (le_bytes n v) = n"
  by (induction n arbitrary: v) simp_all

lemma length_be_bytes [simp]: "length (be_bytes n v) = n"
  by (simp add: be_bytes_def)

lemma le_bytes_0 [simp]: "le_bytes n 0 = replicate n 0"
  by (induction n) simp_all

lemma le_bytes_add: "le_bytes (m + n) v = le_bytes m v @ le_bytes n (v div 256 ^ m)"
  by (induction m arbitrary: v) (simp_all add: div_mult2_eq)

lemma le_bytes_mod: "n \<le> m \<Longrightarrow> le_bytes n (v mod 256 ^ m) = le_bytes n v"
proof (induction n arbitrary: v m)
  case (Suc n)
  then obtain k where m: "m = Suc k" by (cases m) auto
  have "(word_of_nat (v mod 256 ^ m) :: byte) = word_of_nat v"
    by (simp add: m word_of_nat_eq_iff take_bit_eq_mod mod_mod_cancel)
  moreover have "(v mod 256 ^ m) div 256 = (v div 256) mod 256 ^ k"
    by (simp add: m mod_mult2_eq)
  ultimately show ?case using Suc.IH [of k "v div 256"] Suc.prems by (simp add: m)
qed simp

lemma le_bytes_le_val: "le_bytes (length bs) (le_val bs) = bs"
proof (induction bs)
  case (Cons b bs)
  have "(word_of_nat (256 * le_val bs) :: byte) = 0" by (simp only: word_of_nat_eq_0_iff) simp
  then have "(word_of_nat (unat b + 256 * le_val bs) :: byte) = b"
    by (simp only: of_nat_add of_nat_unat ucast_id add_0_right)
  moreover have "(unat b + 256 * le_val bs) div 256 = le_val bs"
    using unsigned_less [of b, where ?'a = nat] by simp
  ultimately show ?case using Cons by simp
qed simp

lemma be_bytes_be_val [simp]: "be_bytes (length bs) (be_val bs) = bs"
  using le_bytes_le_val [of "rev bs"] by (simp add: be_bytes_def le_val_rev)

lemma be_val_be_bytes: "v < 256 ^ n \<Longrightarrow> be_val (be_bytes n v) = v"
proof -
  have "le_val (le_bytes n v) = v mod 256 ^ n"
    by (induction n arbitrary: v) (simp_all add: unat_of_nat mod_mult2_eq)
  then show "v < 256 ^ n \<Longrightarrow> ?thesis" by (simp add: be_bytes_def flip: le_val_rev)
qed

lemma put_digit_eq:
  "\<lbrakk>0 < jn; jn \<le> length out\<rbrakk> \<Longrightarrow>
   put_digit b rest d jn out =
     (if b < jn then (0, jn - b, take (jn - b) out @ rev (le_bytes b (unat d)) @ drop jn out)
      else (if rest \<or> unat d \<ge> 256 ^ jn then MP_VAL else 0, 0, rev (le_bytes jn (unat d)) @ drop jn out))"
proof (induction b arbitrary: d jn out)
  case (Suc b)
  have s: "unat (drop_bit 8 d) = unat d div 256" by (simp add: drop_bit_eq_div unat_div)
  obtain k where k: "jn = Suc k" using Suc.prems by (cases jn) auto
  show ?case
  proof (cases k)
    case 0
    then show ?thesis using k Suc.prems by (cases out) (auto simp: s word_less_nat_alt of_nat_unat)
  next
    case (Suc k')
    have u: "take (k - b) (out[k := x]) = take (k - b) out" "drop k (out[k := x]) = x # drop (Suc k) out" for x
      using Suc.prems k by (simp_all add: upd_conv_take_nth_drop)
    then show ?thesis
      using k Suc.prems Suc by (simp add: Suc.IH s of_nat_unat less_eq_div_iff_mult_less_eq)
  qed
qed simp

lemma dval_Cons_split: "dval (d # ds) mod 256 ^ 4 = unat d" "dval (d # ds) div 256 ^ 4 = dval ds"
  using unsigned_less [of d, where ?'a = nat] by simp_all

lemma dval_pos: "ds \<noteq> [] \<Longrightarrow> last ds \<noteq> 0 \<Longrightarrow> 0 < dval ds"
  by (induction ds) (auto simp: unat_gt_0 split: if_splits)

lemma dval_single: "dval [d] = unat d"
  by simp

lemma put_digits_eq:
  assumes "put_digits ds jn out = (err, jn', out')" "jn \<le> length out"
  shows "zeros jn' @ drop jn' out' = rev (le_bytes jn (dval ds)) @ drop jn out \<and> length out' = length out \<and> jn' \<le> jn \<and>
    err \<in> {0, MP_VAL} \<and> (0 < jn \<longrightarrow> ds \<noteq> [] \<longrightarrow> last ds \<noteq> 0 \<longrightarrow> (err = 0 \<longleftrightarrow> dval ds < 256 ^ jn))"
  using assms
proof (induction ds arbitrary: jn out)
  case (Cons d ds)
  let ?v = "dval (d # ds)"
  note v = dval_Cons_split [of d ds]
  consider (none) "jn = 0" | (stop) "0 < jn" "jn \<le> 4" | (go) "4 < jn" by linarith
  then show ?case
  proof cases
    case stop
    have le: "(256 :: nat) ^ jn \<le> 256 ^ 4" using stop(2) by (intro power_increasing) simp_all
    have big: "256 ^ 4 \<le> ?v" if "ds \<noteq> []" "last ds \<noteq> 0"
      using dval_pos [OF that] by simp
    have "put_digits (d # ds) jn out =
        (if ds \<noteq> [] \<or> unat d \<ge> 256 ^ jn then MP_VAL else 0, 0, rev (le_bytes jn (unat d)) @ drop jn out)"
      using stop Cons.prems(2) by (simp add: put_digit_eq)
    then have r: "err = (if ds \<noteq> [] \<or> unat d \<ge> 256 ^ jn then MP_VAL else 0)" "jn' = 0"
        "out' = rev (le_bytes jn (unat d)) @ drop jn out"
      using Cons.prems(1) by simp_all
    have "?v < 256 ^ jn \<longleftrightarrow> \<not> (ds \<noteq> [] \<or> unat d \<ge> 256 ^ jn)" if "last (d # ds) \<noteq> 0"
      using that big le by (cases "ds = []") (auto simp del: dval.simps(2) simp: dval_single)
    moreover have "le_bytes jn ?v = le_bytes jn (unat d)"
      using le_bytes_mod [OF stop(2), of ?v] unfolding v by simp
    ultimately show ?thesis using Cons.prems(2) by (simp add: r rc_defs zeros_def)
  next
    case go
    then obtain k where k: "jn = 4 + k" "0 < k" by (metis add_diff_inverse_nat less_imp_not_less zero_less_diff)
    define o2 where "o2 = take k out @ rev (le_bytes 4 (unat d)) @ drop jn out"
    have "put_digits (d # ds) jn out = put_digits ds k o2"
      using k Cons.prems(2) by (simp add: put_digit_eq o2_def)
    note IH = Cons.IH [of k o2, folded this, OF Cons.prems(1)]
    have "le_bytes jn ?v = le_bytes 4 (unat d) @ le_bytes k (dval ds)"
      unfolding k le_bytes_add using le_bytes_mod [of 4 4 ?v] unfolding v by simp
    moreover have "?v < 256 ^ jn \<longleftrightarrow> dval ds < 256 ^ k"
      unfolding k power_add using div_less_iff_less_mult [of "256 ^ 4" ?v "256 ^ k"] unfolding v by (simp add: mult.commute)
    moreover have "err = 0 \<and> dval ds < 256 ^ k" if "ds = []"
      using that Cons.prems(1) \<open>put_digits (d # ds) jn out = put_digits ds k o2\<close> by simp
    moreover have "length o2 = length out" "drop k o2 = rev (le_bytes 4 (unat d)) @ drop jn out"
      using k Cons.prems(2) by (simp_all add: o2_def)
    ultimately show ?thesis
      using IH k Cons.prems(2) by (auto simp del: dval.simps le_bytes.simps)
  qed (use Cons.prems in simp)
qed (simp add: zeros_def)

lemma sp_to_unsigned_bin_len_ok:
  assumes a: "sp_ok a" "clamped a" and n: "n \<le> length out"
  shows "snd (sp_to_unsigned_bin_len a out (int n)) = be_bytes n (sp_val a) @ drop n out"
    and "sp_val a < 256 ^ n \<Longrightarrow> fst (sp_to_unsigned_bin_len a out (int n)) = 0"
    and "\<lbrakk>0 < n; 256 ^ n \<le> sp_val a\<rbrakk> \<Longrightarrow> fst (sp_to_unsigned_bin_len a out (int n)) = MP_VAL"
proof -
  obtain err jn' out' where p: "put_digits (take (used a) (dp a)) n out = (err, jn', out')"
    by (metis prod_cases3)
  note q = put_digits_eq [OF p n]
  have ne: "take (used a) (dp a) \<noteq> []" if "used a \<noteq> 0"
    using a that by (auto simp: sp_ok_def)
  have l: "last (take (used a) (dp a)) \<noteq> 0" if "used a \<noteq> 0"
    using a that last_conv_nth [OF ne [OF that]] by (simp add: sp_ok_def clamped_def)
  have z: "sp_val a = 0" if "used a = 0" using that by (simp add: sp_val_def)
  have run: "sp_to_unsigned_bin_len a out (int n) =
      (if used a = 0 then (0, zeros n @ drop n out) else (err, zeros jn' @ drop jn' out'))"
    by (simp add: sp_to_unsigned_bin_len_def sp_iszero_def p)
  have e: "n = 0 \<Longrightarrow> err = 0" using p by (cases "take (used a) (dp a)") simp_all
  have w: "used a \<noteq> 0 \<Longrightarrow> zeros jn' @ drop jn' out' = be_bytes n (sp_val a) @ drop n out"
    "err \<in> {0, MP_VAL}" "used a \<noteq> 0 \<Longrightarrow> 0 < n \<Longrightarrow> err = 0 \<longleftrightarrow> sp_val a < 256 ^ n"
    using q l ne unfolding be_bytes_def sp_val_def by blast+
  show "snd (sp_to_unsigned_bin_len a out (int n)) = be_bytes n (sp_val a) @ drop n out"
    using w(1) z by (simp add: run be_bytes_def zeros_def)
  show "fst (sp_to_unsigned_bin_len a out (int n)) = 0" if "sp_val a < 256 ^ n"
    using w(3) e that unfolding run by (cases "n = 0") simp_all
  show "fst (sp_to_unsigned_bin_len a out (int n)) = MP_VAL" if "0 < n" "256 ^ n \<le> sp_val a"
    using w(2,3) z that by (cases "used a = 0") (simp_all add: run)
qed

text \<open>\<open>m\<close> is the number of base-\<open>b\<close> digits of \<open>v\<close>.\<close>

definition is_len :: "nat \<Rightarrow> nat \<Rightarrow> nat \<Rightarrow> bool" where
  "is_len b v m \<longleftrightarrow> v < b ^ m \<and> (0 < m \<longrightarrow> b ^ (m - 1) \<le> v)"

lemma is_len_unique: "\<lbrakk>1 < b; is_len b v m; is_len b v n\<rbrakk> \<Longrightarrow> m = n"
proof (rule ccontr)
  have *: False if "1 < b" "is_len b v m" "is_len b v n" "m < n" for m n
  proof -
    have "b ^ m \<le> b ^ (n - 1)" using that by (intro power_increasing) auto
    moreover have "v < b ^ m" "b ^ (n - 1) \<le> v" using that by (auto simp: is_len_def)
    ultimately show False by linarith
  qed
  assume "1 < b" "is_len b v m" "is_len b v n" "m \<noteq> n"
  then show False using * [of m n] * [of n m] by linarith
qed

lemma top_digit_eq: "top_digit d n = clamp_loop d n"
  by (induction d n rule: top_digit.induct) auto

lemma bits_loop_len: "is_len 2 (unat d) (bits_loop d)"
proof (induction d rule: bits_loop.induct)
  case (1 d)
  show ?case
  proof (cases "d = 0")
    case False
    have h: "unat (drop_bit (Suc 0) d) = unat d div 2" by (simp add: drop_bit_Suc unat_div)
    then have "is_len 2 (unat d div 2) (bits_loop (drop_bit (Suc 0) d))" using 1 False by simp
    moreover have "bits_loop d = Suc (bits_loop (drop_bit (Suc 0) d))" using False by (subst bits_loop.simps) simp
    moreover have "0 < unat d" using False by (simp add: unat_gt_0)
    ultimately show ?thesis
      by (cases "bits_loop (drop_bit (Suc 0) d)") (auto simp: is_len_def)
  qed (simp add: is_len_def bits_loop.simps)
qed

lemma lead_loop_len:
  "\<lbrakk>unat e < 2 ^ n; n \<le> 32\<rbrakk> \<Longrightarrow> is_len 2 (unat e) (lead_loop n (push_bit (32 - n) e))"
proof (induction n)
  case (Suc n)
  have b: "push_bit (32 - Suc n) e AND push_bit 31 1 = 0 \<longleftrightarrow> \<not> bit e n"
    unfolding push_bit_of_1 and_exp_eq_0_iff_not_bit
    using Suc.prems(2) by (simp add: bit_push_bit_iff)
  have u: "bit e n \<longleftrightarrow> 2 ^ n \<le> unat e"
  proof -
    have "unat e div 2 ^ n < 2" using Suc.prems(1) by (simp add: less_mult_imp_div_less)
    moreover have "bit e n \<longleftrightarrow> odd (unat e div 2 ^ n)"
      by (simp add: bit_unsigned_iff flip: bit_iff_odd)
    moreover have "2 ^ n \<le> unat e \<longleftrightarrow> 0 < unat e div 2 ^ n" by (simp add: div_greater_zero_iff)
    ultimately show ?thesis by (cases "unat e div 2 ^ n") auto
  qed
  have s: "push_bit 1 (push_bit (32 - Suc n) e) = push_bit (32 - n) e"
  proof -
    have "1 + (32 - Suc n) = 32 - n" using Suc.prems(2) by simp
    then show ?thesis by (simp only: push_bit_push_bit)
  qed
  have "lead_loop (Suc n) (push_bit (32 - Suc n) e) = (if bit e n then Suc n else lead_loop n (push_bit (32 - n) e))"
    by (simp only: lead_loop.simps b s if_not_P split: if_split) simp
  then show ?case
    using Suc u by (cases "bit e n") (simp_all add: is_len_def)
qed (simp add: is_len_def)

lemma is_len_scale:
  assumes "v = lo + b ^ k * hi" "lo < b ^ k" "is_len b hi m" "0 < m" "0 < b"
  shows "is_len b v (k + m)"
proof -
  have "v < b ^ k * (hi + 1)" using assms(1,2) by (simp add: algebra_simps)
  also have "\<dots> \<le> b ^ k * b ^ m" using assms(3) by (intro mult_left_mono) (simp_all add: is_len_def Suc_leI)
  finally have "v < b ^ (k + m)" by (simp add: power_add)
  moreover have "b ^ k * b ^ (m - 1) \<le> b ^ k * hi" using assms(3,4) by (intro mult_left_mono) (simp_all add: is_len_def)
  then have "b ^ (k + m - 1) \<le> v" using assms(1,4) by (simp flip: power_add)
  ultimately show ?thesis using assms(4) by (simp add: is_len_def)
qed

lemma sp_count_bits_len: "sp_ok a \<Longrightarrow> is_len 2 (sp_val a) (sp_count_bits a)"
proof -
  assume a: "sp_ok a"
  define n where "n = clamp_loop (dp a) (used a)"
  have v: "sp_val a = dval (take n (dp a))"
    using a dval_clamp_loop [of "used a" "dp a"] by (simp add: sp_val_def n_def sp_ok_def)
  show ?thesis
  proof (cases n)
    case 0
    then show ?thesis using v by (simp add: sp_count_bits_def top_digit_eq n_def is_len_def)
  next
    case (Suc k)
    let ?d = "dp a ! k"
    have k: "k < length (dp a)"
      using a clamp_loop_le [of "dp a" "used a"] Suc by (simp add: sp_ok_def flip: n_def)
    have "?d \<noteq> 0" using clamp_loop_top [of "dp a" "used a"] Suc by (simp flip: n_def)
    define m where "m = (if ?d > 0xFFFF then lead_loop SP_WORD_SIZE ?d else bits_loop ?d)"
    have m: "is_len 2 (unat ?d) m"
      using bits_loop_len [of ?d] lead_loop_len [of ?d 32] unsigned_less [of ?d, where ?'a = nat] by (simp add: m_def)
    then have "0 < m" using \<open>?d \<noteq> 0\<close> by (cases m) (simp_all add: is_len_def unat_eq_zero)
    moreover have "sp_val a = dval (take k (dp a)) + 2 ^ (k * 32) * unat ?d"
      using k by (simp add: v Suc dval_take_Suc mult.commute)
    moreover have "dval (take k (dp a)) < 2 ^ (k * 32)"
      using dval_less [of "take k (dp a)"] k by (simp add: mult.commute)
    moreover have "sp_count_bits a = k * 32 + m"
      using Suc by (simp add: sp_count_bits_def top_digit_eq m_def Let_def flip: n_def)
    ultimately show ?thesis using m by (auto intro: is_len_scale)
  qed
qed

lemma sp_unsigned_bin_size_len: "sp_ok a \<Longrightarrow> is_len 256 (sp_val a) (sp_unsigned_bin_size a)"
proof -
  assume "sp_ok a"
  define c k where "c = sp_count_bits a" and "k = (c + 7) div 8"
  have c: "is_len 2 (sp_val a) c" using sp_count_bits_len [OF \<open>sp_ok a\<close>] by (simp add: c_def)
  have p: "(256 :: nat) ^ i = 2 ^ (8 * i)" for i by (simp add: power_mult)
  have "(2 :: nat) ^ c \<le> 2 ^ (8 * k)" by (intro power_increasing) (simp_all add: k_def)
  moreover have "(2 :: nat) ^ (8 * (k - 1)) \<le> 2 ^ (c - 1)" if "0 < k" using that by (intro power_increasing) (auto simp: k_def)
  moreover have "0 < k \<longleftrightarrow> 0 < c" by (auto simp: k_def)
  ultimately have "is_len 256 (sp_val a) k" using c unfolding is_len_def p by (meson le_trans less_le_trans)
  then show ?thesis by (simp add: sp_unsigned_bin_size_def k_def c_def)
qed

lemma be_val_strip: "be_val (dropWhile (\<lambda>b. b = 0) bs) = be_val bs"
  by (induction bs) auto

lemma is_len_strip: "is_len 256 (be_val bs) (length (dropWhile (\<lambda>b. b = 0) bs))"
proof -
  have "256 ^ (length zs - 1) \<le> be_val zs" if "zs \<noteq> []" "hd zs \<noteq> 0" for zs
    using that by (cases zs) (auto simp: Suc_le_eq unat_gt_0 intro!: trans_le_add1)
  moreover have "hd (dropWhile (\<lambda>b. b = 0) bs) \<noteq> 0" if "dropWhile (\<lambda>b. b = 0) bs \<noteq> []"
    using hd_dropWhile [OF that] .
  ultimately show ?thesis
    using be_val_less [of "dropWhile (\<lambda>b. b = 0) bs"] unfolding is_len_def be_val_strip
    by (metis be_val_strip length_greater_0_conv)
qed

text \<open>C37: Reading big-endian bytes into a number and writing it back is the identity: with room for
  the input, \<open>sp_read_unsigned_bin\<close> succeeds, keeps the representation invariant, leaves no zero
  digit on top and holds exactly the number the bytes write; at the input's width
  \<open>sp_to_unsigned_bin_len\<close> gives the same bytes back, and \<open>sp_to_unsigned_bin\<close> gives them without
  their leading zeros, as many as \<open>sp_unsigned_bin_size\<close> says.\<close>

theorem sp_bin_roundtrip:
  assumes a: "sp_ok a" and room: "length bs \<le> 4 * sp_size a" and out: "length out = length bs"
  shows "case sp_read_unsigned_bin a (Buf bs) of (err, a') \<Rightarrow>
    err = MP_OKAY \<and> sp_ok a' \<and> clamped a' \<and> sp_val a' = be_val bs \<and>
    sp_to_unsigned_bin_len a' out (int (length bs)) = (MP_OKAY, bs) \<and>
    (let sig = dropWhile (\<lambda>b. b = 0) bs
     in sp_unsigned_bin_size a' = length sig \<and>
        sp_to_unsigned_bin a' out = (MP_OKAY, sig @ drop (length sig) out))"
proof -
  let ?sig = "dropWhile (\<lambda>b. b = 0) bs"
  obtain a' where r: "sp_read_unsigned_bin a (Buf bs) = (0, a')" "sp_ok a'" "clamped a'" "sp_val a' = be_val bs"
    using sp_read_unsigned_bin_ok [OF a room] by blast
  have w: "sp_to_unsigned_bin_len a' out (int n) = (0, be_bytes n (be_val bs) @ drop n out)"
    if "n \<le> length bs" "be_val bs < 256 ^ n" for n
    using sp_to_unsigned_bin_len_ok [OF r(2,3), of n out] that out r(4) by (simp add: prod_eq_iff)
  have s: "sp_unsigned_bin_size a' = length ?sig"
    using is_len_unique [OF _ sp_unsigned_bin_size_len [OF r(2)]] is_len_strip [of bs] r(4) by simp
  have "be_bytes (length ?sig) (be_val bs) = ?sig" using be_bytes_be_val [of ?sig] by (simp only: be_val_strip)
  moreover have "be_val bs < 256 ^ length ?sig" using is_len_strip [of bs] by (simp add: is_len_def)
  ultimately have "sp_to_unsigned_bin a' out = (0, ?sig @ drop (length ?sig) out)"
    using w [of "length ?sig"] length_dropWhile_le [of "\<lambda>b. b = 0" bs] by (simp add: sp_to_unsigned_bin_def s)
  moreover have "sp_to_unsigned_bin_len a' out (int (length bs)) = (0, bs)"
    using w [of "length bs"] be_val_less [of bs] out by simp
  ultimately show ?thesis using r s by simp
qed

theorem sp_bin_roundtrip_witness:
  "case sp_read_unsigned_bin \<lparr>used = 1, sp_size = 2, dp = [7, 9]\<rparr> (Buf [0, 1, 2, 3, 4]) of (err, a') \<Rightarrow>
     err = MP_OKAY \<and> sp_to_unsigned_bin_len a' (zeros 5) 5 = (MP_OKAY, [0, 1, 2, 3, 4]) \<and>
     sp_to_unsigned_bin a' (zeros 5) = (MP_OKAY, [1, 2, 3, 4, 0])"
  using sp_bin_roundtrip [of "\<lparr>used = 1, sp_size = 2, dp = [7, 9]\<rparr>" "[0, 1, 2, 3, 4]" "zeros 5"]
  by (auto simp: sp_ok_def zeros_def split: prod.splits)

section \<open>Comparison, sums and differences\<close>

lemma cmp_loop_ok:
  "\<lbrakk>n \<le> length a; n \<le> length b\<rbrakk> \<Longrightarrow>
   cmp_loop a b n = (if dval (take n a) > dval (take n b) then MP_GT
                     else if dval (take n a) < dval (take n b) then MP_LT else MP_EQ)"
proof (induction n)
  case (Suc n)
  have lt: "lo + 2 ^ (32 * n) * hi < lo' + 2 ^ (32 * n) * hi'" if "hi < hi'" "lo < 2 ^ (32 * n)" for lo lo' hi hi' :: nat
  proof -
    have "lo + 2 ^ (32 * n) * hi < 2 ^ (32 * n) * Suc hi" using that(2) by simp
    also have "\<dots> \<le> 2 ^ (32 * n) * hi'" using that(1) by (intro mult_left_mono) simp_all
    finally show ?thesis by simp
  qed
  have "dval (take n a) < 2 ^ (32 * n)" "dval (take n b) < 2 ^ (32 * n)"
    using dval_less [of "take n a"] dval_less [of "take n b"] Suc.prems by (simp_all add: min_def)
  then have "unat (a ! n) < unat (b ! n) \<Longrightarrow> dval (take (Suc n) a) < dval (take (Suc n) b)"
    "unat (b ! n) < unat (a ! n) \<Longrightarrow> dval (take (Suc n) b) < dval (take (Suc n) a)"
    using Suc.prems lt by (simp_all add: dval_take_Suc)
  moreover have "dval (take (Suc n) b) < dval (take (Suc n) a) \<longleftrightarrow> dval (take n b) < dval (take n a)"
    "dval (take (Suc n) a) < dval (take (Suc n) b) \<longleftrightarrow> dval (take n a) < dval (take n b)" if "a ! n = b ! n"
    using that Suc.prems by (simp_all add: dval_take_Suc)
  ultimately show ?case
    using Suc by (cases "a ! n" "b ! n" rule: linorder_cases) (auto simp: word_less_nat_alt)
qed simp

lemma sp_val_less: "sp_ok a \<Longrightarrow> sp_val a < 2 ^ (32 * used a)"
  using dval_less [of "take (used a) (dp a)"] by (simp add: sp_val_def sp_ok_def min_absorb2)

lemma sp_val_ge: "\<lbrakk>sp_ok a; clamped a; 0 < used a\<rbrakk> \<Longrightarrow> 2 ^ (32 * (used a - 1)) \<le> sp_val a"
proof -
  assume a: "sp_ok a" "clamped a" "0 < used a"
  then obtain k where k: "used a = Suc k" by (cases "used a") auto
  have "0 < unat (dp a ! k)" using a(2) k by (simp add: clamped_def unat_gt_0)
  then show ?thesis using a(1) k by (simp add: sp_val_def sp_ok_def dval_take_Suc trans_le_add2)
qed

lemma sp_val_used_less:
  assumes "sp_ok a" "sp_ok b" "clamped b" "used a < used b"
  shows "sp_val a < sp_val b"
proof -
  have "sp_val a < 2 ^ (32 * used a)" using assms(1) by (rule sp_val_less)
  also have "\<dots> \<le> 2 ^ (32 * (used b - 1))" using assms(4) by (intro power_increasing) auto
  also have "\<dots> \<le> sp_val b" using assms by (intro sp_val_ge) auto
  finally show ?thesis .
qed

lemma sp_cmp_abs_ok:
  assumes "sp_ok a" "sp_ok b" "clamped a" "clamped b"
  shows "sp_cmp_abs a b = (if sp_val a > sp_val b then MP_GT else if sp_val a < sp_val b then MP_LT else MP_EQ)"
proof (cases "used a" "used b" rule: linorder_cases)
  case equal
  then show ?thesis
    using assms(1,2) cmp_loop_ok [of "used a" "dp a" "dp b"] by (simp add: sp_cmp_abs_def sp_ok_def sp_val_def)
qed (use assms sp_val_used_less [of a b] sp_val_used_less [of b a] in \<open>simp_all add: sp_cmp_abs_def\<close>)

text \<open>The digits of a number below position \<open>i\<close>, with zeros above its used digits.\<close>

definition dig :: "sp_int \<Rightarrow> nat \<Rightarrow> word32" where
  "dig a i = (if i < used a then dp a ! i else 0)"

definition low :: "sp_int \<Rightarrow> nat \<Rightarrow> nat" where
  "low a i = (\<Sum>j<i. 2 ^ (32 * j) * unat (dig a j))"

lemma low_Suc [simp]: "low a (Suc i) = low a i + 2 ^ (32 * i) * unat (dig a i)"
  by (simp add: low_def)

lemma low_0 [simp]: "low a 0 = 0"
  by (simp add: low_def)

lemma low_used: "\<lbrakk>sp_ok a; used a \<le> n\<rbrakk> \<Longrightarrow> low a n = sp_val a"
proof -
  assume a: "sp_ok a" "used a \<le> n"
  have "low a i = dval (take i (dp a))" if "i \<le> used a" for i
    using that a(1) by (induction i) (simp_all add: dval_take_Suc sp_ok_def dig_def)
  then have "low a (used a) = sp_val a" by (simp add: sp_val_def)
  moreover have "low a (used a + k) = low a (used a)" for k by (induction k) (simp_all add: dig_def)
  ultimately show ?thesis using a(2) by (metis le_add_diff_inverse)
qed

lemma add_step:
  assumes "unat t \<le> 1"
  shows "unat ((t :: word64) + ucast (x :: word32) + ucast (y :: word32)) = unat t + unat x + unat y"
proof -
  have "unat (ucast z :: word64) = unat z" for z :: word32
    using unsigned_less [of z, where ?'a = nat] by (simp add: unsigned_ucast_eq take_bit_nat_eq_self)
  then show ?thesis
    using assms unsigned_less [of x, where ?'a = nat] unsigned_less [of y, where ?'a = nat]
    by (simp add: unat_word_ariths)
qed

lemma unat_low_high: "unat (ucast (t :: word64) :: word32) = unat t mod 2 ^ 32" "unat (drop_bit 32 t) = unat t div 2 ^ 32"
  by (simp_all add: unsigned_ucast_eq take_bit_eq_mod drop_bit_eq_div unat_div)

lemma add_loop_ok:
  "\<lbrakk>add_loop a b i n t r = (t', r'); i + n \<le> length r; unat t \<le> 1\<rbrakk> \<Longrightarrow>
   unat t' \<le> 1 \<and> length r' = length r \<and>
   dval (take (i + n) r') + 2 ^ (32 * (i + n)) * unat t' + low a i + low b i =
   dval (take i r) + 2 ^ (32 * i) * unat t + low a (i + n) + low b (i + n)"
proof (induction n arbitrary: i t r)
  case (Suc n)
  define t2 where "t2 = t + ucast (dig a i) + ucast (dig b i)"
  have u: "unat t2 = unat t + unat (dig a i) + unat (dig b i)" using add_step [OF Suc.prems(3)] by (simp add: t2_def)
  have step: "add_loop a b i (Suc n) t r = add_loop a b (Suc i) n (drop_bit 32 t2) (r[i := ucast t2])"
    by (simp add: t2_def dig_def Let_def)
  have "unat (drop_bit 32 t2) \<le> 1"
    using u Suc.prems(3) unsigned_less [of "dig a i", where ?'a = nat] unsigned_less [of "dig b i", where ?'a = nat]
    by (simp add: unat_low_high)
  note IH = Suc.IH [OF Suc.prems(1) [unfolded step] _ this]
  have "dval (take (Suc i) (r[i := ucast t2])) = dval (take i r) + 2 ^ (32 * i) * (unat t2 mod 2 ^ 32)"
    using Suc.prems(2) by (simp add: dval_take_Suc unat_low_high)
  moreover have "2 ^ (32 * i) * (unat t2 mod 2 ^ 32) + 2 ^ (32 * Suc i) * unat (drop_bit 32 t2) = 2 ^ (32 * i) * unat t2"
  proof -
    have "unat t2 = unat t2 mod 2 ^ 32 + 2 ^ 32 * (unat t2 div 2 ^ 32)" by simp
    then have "2 ^ (32 * i) * unat t2 = 2 ^ (32 * i) * (unat t2 mod 2 ^ 32) + 2 ^ (32 * i) * (2 ^ 32 * (unat t2 div 2 ^ 32))"
      by (metis distrib_left)
    also have "2 ^ (32 * i) * (2 ^ 32 * (unat t2 div 2 ^ 32)) = 2 ^ (32 * Suc i) * unat (drop_bit 32 t2)"
      by (simp only: unat_low_high(2) mult_Suc_right power_add mult.assoc mult.left_commute)
    finally show ?thesis by simp
  qed
  ultimately show ?case
    using IH Suc.prems(2) u by (simp add: algebra_simps)
qed simp

lemma sub_step:
  fixes t :: word64 and x y :: word32
  assumes "sint t \<in> {-1, 0}"
  defines "k \<equiv> sint t + int (unat x) - int (unat y)"
  defines "t2 \<equiv> t + ucast x - ucast y"
  shows "int (unat (ucast t2 :: word32)) = k mod 2 ^ 32" "sint (signed_drop_bit 32 t2) = k div 2 ^ 32"
    "k div 2 ^ 32 \<in> {-1, 0}"
proof -
  have b: "0 \<le> int (unat z)" "int (unat z) < 2 ^ 32" for z :: word32
    using unsigned_less [of z, where ?'a = int] by simp_all
  have t2: "t2 = word_of_int k" by (simp add: t2_def k_def of_nat_unat)
  show "int (unat (ucast t2 :: word32)) = k mod 2 ^ 32"
    by (simp add: t2 unsigned_ucast_eq unsigned_of_int take_bit_eq_mod mod_mod_cancel nat_mod_distrib)
  have "sint t2 = k"
  proof -
    have "- 1 \<le> sint t" "sint t \<le> 0" using assms(1) by auto
    moreover have "(2 :: int) ^ 32 \<le> 2 ^ 62" "(2 :: int) ^ 63 = 2 ^ 62 + 2 ^ 62" "(1 :: int) \<le> 2 ^ 62" by simp_all
    ultimately have "- (2 ^ 63) \<le> k" "k < 2 ^ 63" using b [of x] b [of y] unfolding k_def by - linarith+
    then show ?thesis unfolding t2 by (simp add: signed_of_int signed_take_bit_int_eq_self)
  qed
  then show "sint (signed_drop_bit 32 t2) = k div 2 ^ 32"
    by (simp add: sint_signed_drop_bit_eq drop_bit_eq_div)
  have "- 1 \<le> sint t" "sint t \<le> 0" using assms(1) by auto
  then have "- (2 ^ 32) \<le> k" "k \<le> 2 ^ 32 - 1" using b [of x] b [of y] unfolding k_def by - linarith+
  then have "- 1 \<le> k div 2 ^ 32" "k div 2 ^ 32 \<le> 0"
    using zdiv_mono1 [of "- (2 ^ 32)" k "2 ^ 32"] zdiv_mono1 [of k "2 ^ 32 - 1" "2 ^ 32"] by simp_all
  then show "k div 2 ^ 32 \<in> {-1, 0}" by auto
qed

lemma sub_loop_ok:
  "\<lbrakk>sub_loop a b i n t r = (t', r'); i + n \<le> length r; i + n \<le> used a; sint t \<in> {-1, 0}\<rbrakk> \<Longrightarrow>
   sint t' \<in> {-1, 0} \<and> length r' = length r \<and>
   int (dval (take (i + n) r')) + 2 ^ (32 * (i + n)) * sint t' + int (low a i) + int (low b (i + n)) =
   int (dval (take i r)) + 2 ^ (32 * i) * sint t + int (low a (i + n)) + int (low b i)"
proof (induction n arbitrary: i t r)
  case (Suc n)
  define t2 where "t2 = t + ucast (dig a i) - ucast (dig b i)"
  define k where "k = sint t + int (unat (dig a i)) - int (unat (dig b i))"
  note st = sub_step [OF Suc.prems(4), of "dig a i" "dig b i", folded t2_def k_def]
  have step: "sub_loop a b i (Suc n) t r = sub_loop a b (Suc i) n (signed_drop_bit 32 t2) (r[i := ucast t2])"
    using Suc.prems(3) by (simp add: t2_def dig_def Let_def)
  have IH: "sint t' \<in> {-1, 0} \<and> length r' = length r \<and>
      int (dval (take (i + Suc n) r')) + 2 ^ (32 * (i + Suc n)) * sint t' + int (low a (Suc i)) + int (low b (i + Suc n)) =
      int (dval (take (Suc i) (r[i := ucast t2]))) + 2 ^ (32 * Suc i) * (k div 2 ^ 32) + int (low a (i + Suc n)) + int (low b (Suc i))"
    using Suc.IH [of "Suc i" "signed_drop_bit 32 t2" "r[i := ucast t2]"] Suc.prems(1-3) st(2,3) unfolding step by simp
  have "int (dval (take (Suc i) (r[i := ucast t2]))) = int (dval (take i r)) + 2 ^ (32 * i) * (k mod 2 ^ 32)"
    using Suc.prems(2) st(1) by (simp add: dval_take_Suc)
  moreover have "2 ^ (32 * i) * (k mod 2 ^ 32) + 2 ^ (32 * Suc i) * (k div 2 ^ 32) = 2 ^ (32 * i) * k"
  proof -
    have "2 ^ (32 * i) * k = 2 ^ (32 * i) * (k mod 2 ^ 32 + 2 ^ 32 * (k div 2 ^ 32))" by simp
    also have "\<dots> = 2 ^ (32 * i) * (k mod 2 ^ 32) + 2 ^ (32 * Suc i) * (k div 2 ^ 32)"
      by (simp only: distrib_left mult_Suc_right power_add mult.assoc mult.left_commute)
    finally show ?thesis by simp
  qed
  ultimately show ?case
    using IH by (simp add: k_def algebra_simps)
qed simp

lemma sp_add_ok:
  assumes ok: "sp_ok a" "sp_ok b" "sp_ok r" and room: "used a < sp_size r" "used b < sp_size r"
  obtains s where "sp_add a b r = (0, s)" "sp_ok s" "clamped s" "sp_size s = sp_size r"
    "sp_val s = sp_val a + sp_val b"
proof -
  define n where "n = max (used a) (used b)"
  obtain t d where l: "add_loop a b 0 n 0 (dp r) = (t, d)" by fastforce
  have n: "n < sp_size r" using room by (simp add: n_def)
  then have nr: "n < length (dp r)" using ok(3) by (simp add: sp_ok_def)
  have s: "unat t \<le> 1" "length d = length (dp r)" "dval (take n d) + 2 ^ (32 * n) * unat t = sp_val a + sp_val b"
    using add_loop_ok [OF l] nr low_used [OF ok(1), of n] low_used [OF ok(2), of n] by (simp_all add: n_def)
  define x where "x = r\<lparr>used := n + (if t \<noteq> 0 then 1 else 0), dp := d[n := ucast t]\<rparr>"
  have "sp_add a b r = (0, sp_clamp x)"
    using room l by (simp add: sp_add_def sp_add_off_def x_def n_def Let_def split: prod.split)
  moreover have x: "sp_ok x" using ok(3) n s(2) by (simp add: sp_ok_def x_def)
  moreover have "unat (ucast t :: word32) = unat t" using s(1) by (simp add: unat_low_high)
  then have "sp_val x = sp_val a + sp_val b"
    using s nr unfolding sp_val_def [of x] by (auto simp: x_def dval_take_Suc)
  then have "sp_val (sp_clamp x) = sp_val a + sp_val b" using x by (simp add: sp_ok_def)
  ultimately show thesis using that [of "sp_clamp x"] by (simp add: x_def)
qed

lemma sp_sub_ok:
  assumes ok: "sp_ok a" "sp_ok b" "clamped b" "sp_ok r"
    and room: "used a \<le> sp_size r" "used b \<le> sp_size r" and le: "sp_val b \<le> sp_val a"
  obtains s where "sp_sub a b r = (0, s)" "sp_ok s" "clamped s" "sp_size s = sp_size r"
    "sp_val s = sp_val a - sp_val b"
proof -
  obtain t d where l: "sub_loop a b 0 (used a) 0 (dp r) = (t, d)" by fastforce
  have "used b \<le> used a" using sp_val_used_less [OF ok(1-3)] le by linarith
  then have s: "sint t \<in> {-1, 0}" "length d = length (dp r)"
      "int (dval (take (used a) d)) + 2 ^ (32 * used a) * sint t = int (sp_val a) - int (sp_val b)"
    using sub_loop_ok [OF l] room ok(4) low_used [OF ok(1), of "used a"] low_used [OF ok(2), of "used a"]
    by (auto simp: sp_ok_def)
  have lt: "int (dval (take (used a) d)) < 2 ^ (32 * used a)"
    using dval_less [of "take (used a) d"] s(2) room(1) ok(4) by (simp add: sp_ok_def min_absorb2)
  have "sint t \<noteq> -1"
  proof
    assume "sint t = -1"
    then have "int (dval (take (used a) d)) - 2 ^ (32 * used a) = int (sp_val a) - int (sp_val b)" using s(3) by simp
    then show False using lt le by linarith
  qed
  then have v: "dval (take (used a) d) = sp_val a - sp_val b" using s(1,3) le by auto
  define x where "x = r\<lparr>used := used a, dp := d\<rparr>"
  have "sp_sub a b r = (0, sp_clamp x)" using room l by (simp add: sp_sub_def sp_sub_off_def x_def)
  moreover have x: "sp_ok x" using ok(4) room s(2) by (simp add: sp_ok_def x_def)
  moreover have "sp_val (sp_clamp x) = sp_val a - sp_val b"
    using x v by (simp add: sp_ok_def) (simp add: sp_val_def x_def)
  ultimately show thesis using that [of "sp_clamp x"] by (simp add: x_def)
qed

text \<open>C38: \<open>sp_add\<close> and \<open>sp_sub\<close> compute sums and differences of the numbers the records hold.
  When the result has a digit to spare beyond both operands the sum is exact, no carry is lost, the
  result satisfies the representation invariant without zero digits on top, and subtracting the
  second operand gives the first one's value back; otherwise \<open>sp_add\<close> refuses with \<open>MP_VAL\<close> and
  leaves the result as it was.\<close>

theorem sp_add_sub_exact:
  assumes "sp_ok a" "sp_ok b" "clamped b" "sp_ok r"
  shows "case sp_add a b r of (err, s) \<Rightarrow>
    if used a < sp_size r \<and> used b < sp_size r
    then err = MP_OKAY \<and> sp_ok s \<and> clamped s \<and> sp_val s = sp_val a + sp_val b \<and>
         (case sp_sub s b r of (err', d) \<Rightarrow> err' = MP_OKAY \<and> sp_ok d \<and> clamped d \<and> sp_val d = sp_val a)
    else err = MP_VAL \<and> s = r"
proof (cases "used a < sp_size r \<and> used b < sp_size r")
  case True
  then obtain s where s: "sp_add a b r = (0, s)" "sp_ok s" "clamped s" "sp_size s = sp_size r"
      "sp_val s = sp_val a + sp_val b"
    using sp_add_ok [OF assms(1,2,4)] by blast
  have "used s \<le> sp_size r" "used b \<le> sp_size r" "sp_val b \<le> sp_val s" using s True by (simp_all add: sp_ok_def)
  then obtain d where "sp_sub s b r = (0, d)" "sp_ok d" "clamped d" "sp_val d = sp_val s - sp_val b"
    using sp_sub_ok [OF s(2) assms(2-4)] by blast
  then show ?thesis using s True by simp
qed (auto simp: sp_add_def)

theorem sp_add_sub_exact_witness:
  "case sp_add \<lparr>used = 1, sp_size = 2, dp = [0xFFFFFFFF, 0]\<rparr> \<lparr>used = 1, sp_size = 2, dp = [1, 0]\<rparr>
         \<lparr>used = 0, sp_size = 2, dp = [0, 0]\<rparr> of (err, s) \<Rightarrow> err = MP_OKAY \<and> sp_val s = 2 ^ 32"
  using sp_add_sub_exact [of "\<lparr>used = 1, sp_size = 2, dp = [0xFFFFFFFF, 0]\<rparr>" "\<lparr>used = 1, sp_size = 2, dp = [1, 0]\<rparr>"
      "\<lparr>used = 0, sp_size = 2, dp = [0, 0]\<rparr>"]
  by (auto simp: sp_ok_def clamped_def sp_val_def split: prod.splits)

section \<open>Hexadecimal strings\<close>

definition CharIsWhiteSpace :: "int \<Rightarrow> byte" where
  "CharIsWhiteSpace ch =
     (ctMaskEq (word_of_int ch) 32 OR ctMaskEq (word_of_int ch) 9 OR ctMaskEq (word_of_int ch) 10) AND 1"

text \<open>\<open>_sp_read_radix_16\<close>: the characters from the end of the string, the shift \<open>s\<close> within the
  digit \<open>d\<close> being filled, and the index \<open>j\<close> of the digit to store next.\<close>

fun radix16_loop :: "string \<Rightarrow> bool \<Rightarrow> nat \<Rightarrow> nat \<Rightarrow> word32 \<Rightarrow> sp_int \<Rightarrow> int \<times> nat \<times> word32 \<times> sp_int" where
  "radix16_loop [] eol_done s j d a = (MP_OKAY, j, d, a)"
| "radix16_loop (c # cs) eol_done s j d a =
     (let ch = HexCharToByte (of_char c)
      in if ch < 0
         then (if \<not> eol_done \<and> CharIsWhiteSpace (of_char c) \<noteq> 0 then radix16_loop cs eol_done s j d a
               else (MP_VAL, j, d, a))
         else if s = SP_WORD_SIZE
         then let a' = a\<lparr>dp := (dp a)[j := d]\<rparr>
              in if Suc j \<ge> sp_size a then (MP_VAL, Suc j, d, a')
                 else radix16_loop cs True 4 (Suc j) (word_of_int ch) a'
         else radix16_loop cs True (s + 4) j (d OR push_bit s (word_of_int ch)) a)"

definition sp_read_radix_16 :: "sp_int \<Rightarrow> string \<Rightarrow> int \<times> sp_int" where
  "sp_read_radix_16 a inp =
     (let (err, j, d, a') = radix16_loop (rev inp) False 0 0 0 a
      in if err = MP_OKAY
         then (err, sp_clamp (a'\<lparr>dp := (if j < sp_size a' then (dp a')[j := d] else dp a'), used := j + 1\<rparr>))
         else (err, a'))"

definition sp_read_radix :: "sp_int \<Rightarrow> string \<Rightarrow> int \<Rightarrow> int \<times> sp_int" where
  "sp_read_radix a inp radix =
     (if take 1 inp = ''-'' then (MP_VAL, a)
      else let inp' = dropWhile (\<lambda>c. c = CHR ''0'') inp
           in if radix = 16 then sp_read_radix_16 a inp' else (MP_VAL, a))"

text \<open>The number hexadecimal digits write, least significant first.\<close>

definition hex_digit :: "char \<Rightarrow> nat" where
  "hex_digit c = nat (HexCharToByte (of_char c))"

definition is_hex :: "char \<Rightarrow> bool" where
  "is_hex c \<longleftrightarrow> 0 \<le> HexCharToByte (of_char c)"

primrec le_hex :: "string \<Rightarrow> nat" where
  "le_hex [] = 0"
| "le_hex (c # cs) = hex_digit c + 16 * le_hex cs"

lemma hex_digit_less: "hex_digit c < 16"
  by (auto simp: hex_digit_def HexCharToByte_def)

lemma unat_or_nibble:
  assumes "unat (d :: word32) < 2 ^ s" "s + 4 \<le> 32" "x < 16"
  shows "unat (d OR push_bit s (word_of_nat x)) = unat d + 2 ^ s * x"
proof -
  have low: "bit d n \<Longrightarrow> n < s" for n
  proof -
    assume "bit d n"
    then have "bit (take_bit s (unat d)) n" using assms(1) by (simp add: take_bit_nat_eq_self bit_unsigned_iff)
    then show "n < s" by (simp add: bit_take_bit_iff)
  qed
  have "d OR push_bit s (word_of_nat x) = d + push_bit s (word_of_nat x)"
    by (intro disjunctive_add [symmetric]) (auto simp: bit_push_bit_iff dest: low)
  also have "\<dots> = word_of_nat (unat d + 2 ^ s * x)"
    by (simp add: push_bit_eq_mult mult.commute of_nat_unat)
  finally have "d OR push_bit s (word_of_nat x) = word_of_nat (unat d + 2 ^ s * x)" .
  moreover have "unat d + 2 ^ s * x < 2 ^ 32"
  proof -
    have "unat d + 2 ^ s * x < 2 ^ s * Suc x" using assms(1) by simp
    also have "\<dots> \<le> 2 ^ s * 2 ^ 4" using assms(3) by (intro mult_left_mono) simp_all
    also have "\<dots> = 2 ^ (s + 4)" by (simp add: power_add)
    also have "\<dots> \<le> 2 ^ 32" using assms(2) by (intro power_increasing) simp_all
    finally show ?thesis .
  qed
  ultimately show ?thesis by (simp only: unat_of_nat len_of_numeral_defs mod_less) simp
qed

lemma radix16_loop_ok:
  "\<lbrakk>list_all is_hex cs; j < sp_size a; sp_size a \<le> length (dp a); s \<le> 32; 4 dvd s; unat d < 2 ^ s;
    8 * j + s div 4 + length cs \<le> 8 * sp_size a\<rbrakk> \<Longrightarrow>
   \<exists>j' d' D. radix16_loop cs e s j d a = (0, j', d', a\<lparr>dp := D\<rparr>) \<and> length D = length (dp a) \<and> j' < sp_size a \<and>
     dval (take j' D) + 2 ^ (32 * j') * unat d' =
     dval (take j (dp a)) + 2 ^ (32 * j) * unat d + 2 ^ (32 * j + s) * le_hex cs"
proof (induction cs arbitrary: e s j d a)
  case Nil
  then show ?case by (intro exI [of _ j] exI [of _ d] exI [of _ "dp a"]) simp
next
  case (Cons c cs)
  let ?x = "hex_digit c"
  have ch: "HexCharToByte (of_char c) = int ?x" "\<not> HexCharToByte (of_char c) < 0"
    using Cons.prems(1) by (simp_all add: hex_digit_def is_hex_def)
  show ?case
  proof (cases "s = 32")
    case True
    let ?a = "a\<lparr>dp := (dp a)[j := d]\<rparr>"
    have j: "Suc j < sp_size a" using Cons.prems(7) True by simp
    have step: "radix16_loop (c # cs) e s j d a = radix16_loop cs True 4 (Suc j) (word_of_nat ?x) ?a"
      using True j ch by simp
    have x: "unat (word_of_nat ?x :: word32) = ?x" using hex_digit_less [of c] by (simp add: unat_of_nat)
    have "dval (take (Suc j) (dp ?a)) = dval (take j (dp a)) + 2 ^ (32 * j) * unat d"
      using j Cons.prems(3) by (simp add: dval_take_Suc)
    moreover have "2 ^ (32 * Suc j) * ?x + 2 ^ (32 * Suc j + 4) * le_hex cs = 2 ^ (32 * j + s) * le_hex (c # cs)"
      by (simp add: True power_add algebra_simps)
    moreover have "\<exists>j' d' D. radix16_loop cs True 4 (Suc j) (word_of_nat ?x) ?a = (0, j', d', ?a\<lparr>dp := D\<rparr>) \<and>
        length D = length (dp ?a) \<and> j' < sp_size ?a \<and>
        dval (take j' D) + 2 ^ (32 * j') * unat d' =
        dval (take (Suc j) (dp ?a)) + 2 ^ (32 * Suc j) * unat (word_of_nat ?x :: word32) + 2 ^ (32 * Suc j + 4) * le_hex cs"
      using Cons.prems j True hex_digit_less [of c] x by (intro Cons.IH) simp_all
    ultimately show ?thesis unfolding step x by (simp add: add.assoc)
  next
    case False
    then have s4: "s + 4 \<le> 32" using Cons.prems(4,5) by presburger
    let ?d = "d OR push_bit s (word_of_nat ?x)"
    have step: "radix16_loop (c # cs) e s j d a = radix16_loop cs True (s + 4) j ?d a"
      using False ch by simp
    note u = unat_or_nibble [OF Cons.prems(6) s4 hex_digit_less [of c]]
    have "unat d + 2 ^ s * ?x < 2 ^ s * 16"
    proof -
      have "unat d + 2 ^ s * ?x < 2 ^ s * Suc ?x" using Cons.prems(6) by simp
      also have "\<dots> \<le> 2 ^ s * 16" using hex_digit_less [of c] by (intro mult_left_mono) simp_all
      finally show ?thesis .
    qed
    then have "\<exists>j' d' D. radix16_loop cs True (s + 4) j ?d a = (0, j', d', a\<lparr>dp := D\<rparr>) \<and> length D = length (dp a) \<and>
        j' < sp_size a \<and> dval (take j' D) + 2 ^ (32 * j') * unat d' =
        dval (take j (dp a)) + 2 ^ (32 * j) * unat ?d + 2 ^ (32 * j + (s + 4)) * le_hex cs"
      using Cons.prems s4 u by (intro Cons.IH) (simp_all add: power_add div_add)
    then show ?thesis unfolding step u by (simp add: power_add algebra_simps)
  qed
qed

lemma sp_read_radix_16_ok:
  assumes "sp_ok a" "list_all is_hex cs" "length cs \<le> 8 * sp_size a"
  obtains a' where "sp_read_radix_16 a cs = (0, a')" "sp_ok a'" "clamped a'" "sp_val a' = le_hex (rev cs)"
proof -
  obtain j d D where l: "radix16_loop (rev cs) False 0 0 0 a = (0, j, d, a\<lparr>dp := D\<rparr>)" "length D = length (dp a)"
      "j < sp_size a" "dval (take j D) + 2 ^ (32 * j) * unat d = le_hex (rev cs)"
    using radix16_loop_ok [of "rev cs" 0 a 0 0 False] assms by (auto simp: sp_ok_def list_all_iff)
  define b where "b = a\<lparr>dp := D[j := d], used := j + 1\<rparr>"
  have "sp_read_radix_16 a cs = (0, sp_clamp b)" using l by (simp add: sp_read_radix_16_def b_def)
  moreover have b: "sp_ok b" using assms(1) l by (simp add: sp_ok_def b_def)
  moreover have "sp_val b = le_hex (rev cs)"
    using l assms(1) unfolding sp_val_def by (simp add: b_def dval_take_Suc sp_ok_def)
  then have "sp_val (sp_clamp b) = le_hex (rev cs)" using b by (simp add: sp_ok_def)
  ultimately show thesis using that by simp
qed

end
