(* ===== verification/World.thy ===== *)
theory World
  imports Prelude
begin

text \<open>
  Commands that act on the world as well as on the heap.  The prelude's \<open>clean\<close> is for
  calls that leave the world alone; \<open>cleanw\<close> below lets a call change it, keeps an
  invariant of it on every path, the failing ones included, and lets the outcome speak
  about it.  Every \<open>clean\<close> call is a \<open>cleanw\<close> call.
\<close>

section \<open>Chains of guarded calls\<close>

text \<open>The style \<open>if (ret == 0) ret = f(...)\<close>: after a failure the rest of the chain only passes the
  code on, which the second premise discharges by simplification.\<close>

lemma clean_chain:
  assumes "clean Z 0 h m (succeeds P)"
    and "\<And>x h'. \<not> alloc_ok h' \<Longrightarrow> clean Z d h' (f (MEMORY_E, x)) Q"
    and "\<And>x h'. P x \<Longrightarrow> alloc_ok h' = alloc_ok h \<Longrightarrow> clean Z d h' (f (0, x)) Q"
  shows "clean Z d h (State_Monad.bind m f) Q"
  by (rule clean_bind [OF assms(1)]) (auto intro: assms(2,3))

text \<open>The rules for allocation and sequencing that keep track, on the failing paths, of the request
  that was refused; for calls that report it by a code of their own.\<close>

lemma clean_malloc_eq:
  assumes "\<And>h'. alloc_ok h' = alloc_ok h \<Longrightarrow> clean Z (d - 1) h' (f True) Q"
    and "\<And>h'. \<not> alloc_ok h \<Longrightarrow> \<not> alloc_ok h' \<Longrightarrow> clean Z d h' (f False) Q"
  shows "clean Z d h (State_Monad.bind XMALLOC f) Q"
proof (cases "alloc_ok h")
  case True
  let ?h = "h\<lparr>hp_next := Suc (hp_next h), hp_live := hp_live h + 1\<rparr>"
  have ok: "hp_ok h (hp_next h)" using True by (simp add: alloc_ok_def)
  then have "frame Z 1 h ?h" by (rule frame_malloc)
  moreover have "clean Z (d - 1) ?h (f True) Q" by (rule assms(1)) (simp add: alloc_ok_def)
  ultimately show ?thesis using clean_step [of Z 1 h ?h "d - 1" "f True" Q] ok by (simp add: clean_def)
qed (rule clean_malloc, use assms in auto)

lemma clean_bind_eq:
  assumes m: "clean Z 0 h m P"
    and ok: "\<And>r x h'. P r x \<Longrightarrow> alloc_ok h' = alloc_ok h \<Longrightarrow> clean Z d h' (f (r, x)) Q"
    and fail: "\<And>x h'. \<not> alloc_ok h \<Longrightarrow> \<not> alloc_ok h' \<Longrightarrow> clean Z d h' (f (MEMORY_E, x)) Q"
  shows "clean Z d h (State_Monad.bind m f) Q"
proof (cases "alloc_ok h")
  case True
  have "wp m (\<lambda>(r, x) h'. frame Z 0 h h' \<and> P r x) h"
    using m True unfolding clean_def by (auto elim!: wp_conseq)
  then show ?thesis
    unfolding clean_def wp_bind
  proof (rule wp_conseq)
    fix rx h' assume *: "(case rx of (r, x) \<Rightarrow> \<lambda>h'. frame Z 0 h h' \<and> P r x) h'"
    then have fr: "frame Z 0 h h'" and "clean Z d h' (f rx) Q"
      using ok by (auto simp: frame_alloc_ok split: prod.splits)
    from clean_step [OF this]
    show "wp (f rx) (\<lambda>(r, x) h''. frame Z d h h'' \<and> (Q r x \<or> r = MEMORY_E \<and> \<not> alloc_ok h)) h'" by simp
  qed
qed (rule clean_bind [OF m], use ok fail in auto)

section \<open>Frames of the heap alone\<close>

definition hframe :: "(freed \<Rightarrow> bool) \<Rightarrow> int \<Rightarrow> 'w env \<Rightarrow> 'w env \<Rightarrow> bool" where
  "hframe P d h h' \<longleftrightarrow>
     hp_ok h' = hp_ok h \<and> hp_next h \<le> hp_next h' \<and> hp_live h' = hp_live h + d \<and>
     (\<exists>zs. hp_freed h' = hp_freed h @ zs \<and> list_all P zs)"

lemma frame_hframe: "frame P d h h' \<longleftrightarrow> hframe P d h h' \<and> world h' = world h"
  by (auto simp: frame_def hframe_def)

lemma hframe_refl [simp, intro]: "hframe P 0 h h"
  by (simp add: hframe_def)

lemma hframe_trans: "hframe P d h h' \<Longrightarrow> hframe P e h' h'' \<Longrightarrow> hframe P (d + e) h h''"
  by (fastforce simp: hframe_def)

lemma hframe_mono: "hframe P d h h' \<Longrightarrow> (\<And>b. P b \<Longrightarrow> Q b) \<Longrightarrow> hframe Q d h h'"
  by (fastforce simp: hframe_def list_all_iff)

lemma hframe_alloc_ok: "hframe P d h h' \<Longrightarrow> alloc_ok h' = alloc_ok h"
  by (simp add: hframe_def alloc_ok_def)

text \<open>Lifting a command on the world alone.\<close>

definition on_world :: "('w, 'a) state \<Rightarrow> ('w, 'a) cmd" where
  "on_world m = State (\<lambda>h. case run_state m (world h) of (x, w) \<Rightarrow> (x, h\<lparr>world := w\<rparr>))"

lemma wp_on_world [simp]:
  "wp (on_world m) Q h = wp m (\<lambda>x w. Q x (h\<lparr>world := w\<rparr>)) (world h)"
  by (simp add: wp_def on_world_def split: prod.splits)

section \<open>Clean commands with a world\<close>

definition cleanw ::
  "(freed \<Rightarrow> bool) \<Rightarrow> int \<Rightarrow> ('w \<Rightarrow> bool) \<Rightarrow> 'w env \<Rightarrow> ('w, int \<times> 'a) cmd \<Rightarrow> (int \<Rightarrow> 'a \<Rightarrow> 'w \<Rightarrow> bool) \<Rightarrow> bool" where
  "cleanw Z d I h m Q \<longleftrightarrow>
     wp m (\<lambda>(r, x) h'. hframe Z d h h' \<and> I (world h') \<and>
        (Q r x (world h') \<or> r = MEMORY_E \<and> \<not> alloc_ok h)) h"

lemma cleanw_run:
  assumes "cleanw Z d I h m Q" "run_state m h = ((r, x), h')"
  shows "hframe Z d h h'" "I (world h')" "Q r x (world h') \<or> r = MEMORY_E \<and> \<not> alloc_ok h"
  using assms by (auto simp: cleanw_def wp_def)

lemma cleanw_of_clean:
  "clean Z d h m Q \<Longrightarrow> I (world h) \<Longrightarrow> cleanw Z d I h m (\<lambda>r x w. Q r x \<and> w = world h)"
  unfolding clean_def cleanw_def by (erule wp_conseq) (auto simp: frame_hframe)

lemma cleanw_ret: "Q r x (world h) \<Longrightarrow> I (world h) \<Longrightarrow> cleanw Z 0 I h (ret (r, x)) Q"
  by (simp add: cleanw_def)

lemma cleanw_fail: "\<not> alloc_ok h \<Longrightarrow> I (world h) \<Longrightarrow> cleanw Z 0 I h (ret (MEMORY_E, x)) Q"
  by (simp add: cleanw_def)

lemma cleanw_conseq:
  "\<lbrakk>cleanw Z d J h m P; \<And>r x w. P r x w \<Longrightarrow> J w \<Longrightarrow> Q r x w; \<And>w. J w \<Longrightarrow> I w\<rbrakk> \<Longrightarrow> cleanw Z d I h m Q"
  unfolding cleanw_def by (erule wp_conseq) auto

lemma cleanw_mono:
  "cleanw Z d I h m Q \<Longrightarrow> (\<And>b. Z b \<Longrightarrow> Y b) \<Longrightarrow> cleanw Y d I h m Q"
  unfolding cleanw_def by (erule wp_conseq) (auto intro: hframe_mono)

lemma cleanw_step:
  assumes "hframe Z e h h'" "cleanw Z d I h' m Q"
  shows "wp m (\<lambda>(r, x) h''. hframe Z (e + d) h h'' \<and> I (world h'') \<and>
     (Q r x (world h'') \<or> r = MEMORY_E \<and> \<not> alloc_ok h)) h'"
  using assms(2) unfolding cleanw_def
  by (rule wp_conseq) (use assms(1) in \<open>auto simp: hframe_alloc_ok intro: hframe_trans\<close>)

lemma cleanw_malloc:
  assumes "\<And>h'. world h' = world h \<Longrightarrow> alloc_ok h' = alloc_ok h \<Longrightarrow> cleanw Z (d - 1) I h' (f True) Q"
    and "\<And>h'. world h' = world h \<Longrightarrow> \<not> alloc_ok h' \<Longrightarrow> cleanw Z d I h' (f False) Q"
  shows "cleanw Z d I h (State_Monad.bind XMALLOC f) Q"
proof (cases "hp_ok h (hp_next h)")
  case True
  let ?h = "h\<lparr>hp_next := Suc (hp_next h), hp_live := hp_live h + 1\<rparr>"
  have "hframe Z 1 h ?h" by (simp add: hframe_def)
  moreover have "cleanw Z (d - 1) I ?h (f True) Q"
    by (rule assms(1)) (simp_all add: alloc_ok_def)
  ultimately show ?thesis
    using cleanw_step [of Z 1 h ?h "d - 1" I "f True" Q] by (simp add: cleanw_def True)
next
  case False
  let ?h = "h\<lparr>hp_next := Suc (hp_next h)\<rparr>"
  have "hframe Z 0 h ?h" by (simp add: hframe_def)
  moreover have "cleanw Z d I ?h (f False) Q"
    by (rule assms(2)) (use False in \<open>auto simp: alloc_ok_def\<close>)
  ultimately show ?thesis
    using cleanw_step [of Z 0 h ?h d I "f False" Q] by (simp add: cleanw_def False)
qed

lemma cleanw_free:
  assumes "Z b" "\<And>h'. world h' = world h \<Longrightarrow> alloc_ok h' = alloc_ok h \<Longrightarrow> cleanw Z (d + 1) I h' (f ()) Q"
  shows "cleanw Z d I h (State_Monad.bind (XFREE b) f) Q"
proof -
  let ?h = "h\<lparr>hp_live := hp_live h - 1, hp_freed := hp_freed h @ [b]\<rparr>"
  have "hframe Z (- 1) h ?h" using assms(1) by (simp add: hframe_def)
  moreover have "cleanw Z (d + 1) I ?h (f ()) Q"
    by (rule assms(2)) (simp_all add: alloc_ok_def)
  ultimately show ?thesis
    using cleanw_step [of Z "- 1" h ?h "d + 1" I "f ()" Q] by (simp add: cleanw_def)
qed

lemma cleanw_bind:
  assumes m: "cleanw Z e J h m P"
    and ok: "\<And>r x h'. P r x (world h') \<Longrightarrow> J (world h') \<Longrightarrow> alloc_ok h' = alloc_ok h \<Longrightarrow>
      cleanw Z (d - e) I h' (f (r, x)) Q"
    and fail: "\<And>x h'. J (world h') \<Longrightarrow> \<not> alloc_ok h' \<Longrightarrow> cleanw Z (d - e) I h' (f (MEMORY_E, x)) Q"
  shows "cleanw Z d I h (State_Monad.bind m f) Q"
  unfolding cleanw_def wp_bind
  using m [unfolded cleanw_def]
proof (rule wp_conseq)
  fix rx h'
  assume *: "(case rx of (r, x) \<Rightarrow> \<lambda>h'. hframe Z e h h' \<and> J (world h') \<and>
      (P r x (world h') \<or> r = MEMORY_E \<and> \<not> alloc_ok h)) h'"
  then have fr: "hframe Z e h h'" by (simp split: prod.splits)
  have "cleanw Z (d - e) I h' (f rx) Q"
    using * ok fail by (auto simp: hframe_alloc_ok split: prod.splits)
  from cleanw_step [OF fr this]
  show "wp (f rx) (\<lambda>(r, x) h''. hframe Z d h h'' \<and> I (world h'') \<and>
      (Q r x (world h'') \<or> r = MEMORY_E \<and> \<not> alloc_ok h)) h'"
    by simp
qed

lemma cleanw_on_world:
  assumes "wp m (\<lambda>(r, x) w. I w \<and> Q r x w) (world h)"
  shows "cleanw Z 0 I h (on_world m) Q"
  unfolding cleanw_def wp_on_world
  by (rule wp_conseq [OF assms]) (auto simp: hframe_def alloc_ok_def)

text \<open>Passing a failure on at once.\<close>

lemma cleanw_then:
  assumes "cleanw Z 0 J h m (\<lambda>r x w. if r = 0 then P x w else F r)"
    and "\<And>x h'. P x (world h') \<Longrightarrow> J (world h') \<Longrightarrow> alloc_ok h' = alloc_ok h \<Longrightarrow> cleanw Z 0 I h' (k x) Q"
    and "\<And>r x w. r \<noteq> 0 \<Longrightarrow> F r \<Longrightarrow> J w \<Longrightarrow> Q r (g x) w" "\<And>w. J w \<Longrightarrow> I w"
  shows "cleanw Z 0 I h (State_Monad.bind m (\<lambda>(r, x). if r \<noteq> 0 then ret (r, g x) else k x)) Q"
  by (rule cleanw_bind [OF assms(1)]) (auto intro: assms(2-) cleanw_fail cleanw_ret split: if_splits)

lemma cleanw_clean_then:
  assumes "clean Z 0 h m (succeeds P)"
    and "\<And>x h'. P x \<Longrightarrow> world h' = world h \<Longrightarrow> alloc_ok h' = alloc_ok h \<Longrightarrow> cleanw Z 0 I h' (k x) Q"
    and "I (world h)"
  shows "cleanw Z 0 I h (State_Monad.bind m (\<lambda>(r, x). if r \<noteq> 0 then ret (r, g x) else k x)) Q"
  by (rule cleanw_bind [OF cleanw_of_clean [OF assms(1), where I = "\<lambda>w. w = world h"]])
     (use assms(2,3) in \<open>auto intro!: cleanw_fail\<close>)

lemma cleanw_env0:
  assumes "cleanw Z d I (env0 w) m Q"
  shows "\<exists>r x h'. run_state m (env0 w) = ((r, x), h') \<and> Q r x (world h') \<and> I (world h') \<and>
    hp_live h' = d \<and> list_all Z (hp_freed h')"
proof -
  obtain r x h' where run: "run_state m (env0 w) = ((r, x), h')"
    by (cases "run_state m (env0 w)") auto
  have "hp_live (env0 w) = 0" "hp_freed (env0 w) = []"
    by (simp_all add: env0_def)
  with cleanw_run [OF assms run] run show ?thesis
    by (auto simp: hframe_def)
qed

end
