(* ===== verification/Drbg.thy ===== *)
theory Drbg
  imports Gcm SpInt World
begin

text \<open>
  \<open>wolfcrypt/src/random.c\<close>: the SHA-256 \<open>Hash_DRBG\<close>, its known-answer and seed health tests, the
  reading of a seed from the system and the construction and release of a \<open>WC_RNG\<close>.
  The operating system is a parameter: whether a device opens and what a read returns,
  per call.  The second half states the generator as SP 800-90A does and proves that the
  code computes it.
\<close>

section \<open>State\<close>

definition DRBG_SUCCESS :: int where [simp]: "DRBG_SUCCESS = 0"
definition DRBG_FAILURE :: int where [simp]: "DRBG_FAILURE = 1"
definition DRBG_NEED_RESEED :: int where [simp]: "DRBG_NEED_RESEED = 2"
definition DRBG_CONT_FAILURE :: int where [simp]: "DRBG_CONT_FAILURE = 3"
definition drbgInitC :: byte where [simp]: "drbgInitC = 0"
definition drbgReseed :: byte where [simp]: "drbgReseed = 1"
definition drbgGenerateW :: byte where [simp]: "drbgGenerateW = 2"
definition drbgGenerateH :: byte where [simp]: "drbgGenerateH = 3"
definition drbgInitV :: byte where [simp]: "drbgInitV = 4"
definition DRBG_SEED_LEN :: nat where [simp]: "DRBG_SEED_LEN = 55"
definition OUTPUT_BLOCK_LEN :: nat where [simp]: "OUTPUT_BLOCK_LEN = 32"
definition WC_RESEED_INTERVAL :: word64 where [simp]: "WC_RESEED_INTERVAL = 1000000"
definition RNG_MAX_BLOCK_LEN :: nat where [simp]: "RNG_MAX_BLOCK_LEN = 0x10000"
definition SEED_SZ :: nat where [simp]: "SEED_SZ = 32"
definition SEED_BLOCK_SZ :: nat where [simp]: "SEED_BLOCK_SZ = 4"
definition MAX_SEED_SZ :: nat where [simp]: "MAX_SEED_SZ = 52"
definition RNG_HEALTH_TEST_CHECK_SIZE :: nat where [simp]: "RNG_HEALTH_TEST_CHECK_SIZE = 128"
definition DRBG_NOT_INIT :: int where [simp]: "DRBG_NOT_INIT = 0"
definition DRBG_OK :: int where [simp]: "DRBG_OK = 1"
definition DRBG_FAILED :: int where [simp]: "DRBG_FAILED = 2"
definition DRBG_CONT_FAILED :: int where [simp]: "DRBG_CONT_FAILED = 3"
definition OPEN_RAN_E :: int where [rc_defs]: "OPEN_RAN_E = -101"
definition READ_RAN_E :: int where [rc_defs]: "READ_RAN_E = -102"
definition RAN_BLOCK_E :: int where [rc_defs]: "RAN_BLOCK_E = -105"
definition DRBG_CONT_FIPS_E :: int where [rc_defs]: "DRBG_CONT_FIPS_E = -209"
definition ENTROPY_RT_E :: int where [rc_defs]: "ENTROPY_RT_E = -294"
definition ENTROPY_APT_E :: int where [rc_defs]: "ENTROPY_APT_E = -295"
definition WRONG_TYPE_OBJECT_E :: int where [rc_defs]: "WRONG_TYPE_OBJECT_E = -1032"

record DRBG_internal =
  reseedCtr :: word64
  drbg_V :: "byte list"
  drbg_C :: "byte list"

definition drbg_zeroed :: DRBG_internal where
  "drbg_zeroed = \<lparr>reseedCtr = 0, drbg_V = zeros DRBG_SEED_LEN, drbg_C = zeros DRBG_SEED_LEN\<rparr>"

record WC_RNG =
  rng_drbg :: "DRBG_internal option"
  rng_status :: int

text \<open>The system's random devices, call by call, and the part of the process state the
  generator uses.\<close>

record os_dev =
  os_open :: "string \<Rightarrow> nat \<Rightarrow> bool"
  os_read :: "nat \<Rightarrow> nat \<Rightarrow> byte list option"

record rng_world =
  sha256DrbgDisabled :: int
  os :: os_dev
  os_time :: nat

section \<open>Hash derivation function\<close>

text \<open>One digest of \<open>Hash_df\<close>; every update runs only while the return code is 0, and the context
  is freed at the end on every path.\<close>

definition Hash_df_block ::
  "byte \<Rightarrow> byte list \<Rightarrow> byte \<Rightarrow> cbuf \<Rightarrow> cbuf \<Rightarrow> cbuf \<Rightarrow> byte list \<Rightarrow> ('w, int \<times> byte list) cmd" where
  "Hash_df_block ctr bits type inA inB inC dgst = do {
     let (r0, s0) = wc_InitSha256_ex sha256_zeroed;
     if r0 \<noteq> 0 then ret (r0, dgst) else do {
       (r1, s1) \<leftarrow> wc_Sha256Update s0 (Buf [ctr]);
       (r2, s2) \<leftarrow> (if r1 = 0 then wc_Sha256Update s1 (Buf bits) else ret (r1, s1));
       (r3, s3) \<leftarrow> (if r2 = 0 \<and> type \<noteq> drbgInitV then wc_Sha256Update s2 (Buf [type]) else ret (r2, s2));
       (r4, s4) \<leftarrow> (if r3 = 0 then wc_Sha256Update s3 inA else ret (r3, s3));
       (r5, s5) \<leftarrow> (if r4 = 0 \<and> \<not> is_null inB \<and> csize inB > 0 then wc_Sha256Update s4 inB else ret (r4, s4));
       (r6, s6) \<leftarrow> (if r5 = 0 \<and> \<not> is_null inC \<and> csize inC > 0 then wc_Sha256Update s5 inC else ret (r5, s5));
       (r7, s7, dgst') \<leftarrow> (if r6 = 0 then wc_Sha256Final s6 dgst else ret (r6, s6, dgst));
       ret (r7, dgst')
     }
   }"

text \<open>The loop over the blocks: \<open>n\<close> of them left, \<open>outSz\<close> bytes of output left from position \<open>pos\<close>.\<close>

fun Hash_df_loop ::
  "nat \<Rightarrow> byte \<Rightarrow> byte list \<Rightarrow> byte \<Rightarrow> cbuf \<Rightarrow> cbuf \<Rightarrow> cbuf \<Rightarrow> int \<Rightarrow> byte list \<Rightarrow> nat \<Rightarrow> nat \<Rightarrow> byte list \<Rightarrow>
   ('w, int \<times> byte list \<times> byte list) cmd" where
  "Hash_df_loop 0 ctr bits type inA inB inC r dgst outSz pos out = ret (r, dgst, out)"
| "Hash_df_loop (Suc n) ctr bits type inA inB inC r dgst outSz pos out = do {
     (r', dgst') \<leftarrow> Hash_df_block ctr bits type inA inB inC dgst;
     if r' \<noteq> 0 then ret (r', dgst', out)
     else if outSz > OUTPUT_BLOCK_LEN
     then Hash_df_loop n (ctr + 1) bits type inA inB inC r' dgst' (outSz - OUTPUT_BLOCK_LEN)
            (pos + OUTPUT_BLOCK_LEN) (blit out pos (take OUTPUT_BLOCK_LEN dgst'))
     else Hash_df_loop n (ctr + 1) bits type inA inB inC r' dgst' outSz pos (blit out pos (take outSz dgst'))
   }"

definition Hash_df ::
  "byte list \<Rightarrow> nat \<Rightarrow> byte \<Rightarrow> cbuf \<Rightarrow> cbuf \<Rightarrow> cbuf \<Rightarrow> ('w, int \<times> byte list) cmd" where
  "Hash_df out outSz type inA inB inC = do {
     ok \<leftarrow> XMALLOC;
     if \<not> ok then ret (DRBG_FAILURE, out)
     else do {
       let bits = bytes_of_word32 (ByteReverseWord32 (of_nat outSz * 8));
       let len = outSz div OUTPUT_BLOCK_LEN + (if outSz mod OUTPUT_BLOCK_LEN \<noteq> 0 then 1 else 0);
       (r, dgst, out') \<leftarrow> Hash_df_loop len 1 bits type inA inB inC DRBG_FAILURE (zeros 32) outSz 0 out;
       XFREE (Freed_bytes (ForceZero 0 dgst WC_SHA256_DIGEST_SIZE));
       ret (if r = 0 then DRBG_SUCCESS else DRBG_FAILURE, out')
     }
   }"

definition Hash256_DRBG_Reseed :: "DRBG_internal \<Rightarrow> cbuf \<Rightarrow> cbuf \<Rightarrow> ('w, int \<times> DRBG_internal) cmd" where
  "Hash256_DRBG_Reseed drbg seed additional = do {
     ok \<leftarrow> XMALLOC;
     if \<not> ok then ret (DRBG_FAILURE, drbg)
     else do {
       (r1, newV) \<leftarrow> Hash_df (zeros DRBG_SEED_LEN) DRBG_SEED_LEN drbgReseed (Buf (drbg_V drbg)) seed additional;
       (r2, newC) \<leftarrow> (if r1 = DRBG_SUCCESS
          then Hash_df (zeros DRBG_SEED_LEN) DRBG_SEED_LEN drbgInitC (Buf newV) (Null 0) (Null 0)
          else ret (r1, zeros DRBG_SEED_LEN));
       XFREE (Freed_bytes (ForceZero 0 (newV @ newC) (DRBG_SEED_LEN * 2)));
       ret (r2, if r2 = DRBG_SUCCESS then drbg\<lparr>drbg_V := newV, drbg_C := newC, reseedCtr := 1\<rparr> else drbg)
     }
   }"

section \<open>Output\<close>

fun add_one_loop :: "nat \<Rightarrow> byte list \<Rightarrow> byte list" where
  "add_one_loop 0 d = d"
| "add_one_loop (Suc i) d = (let d' = d[i := d ! i + 1] in if d' ! i \<noteq> 0 then d' else add_one_loop i d')"

definition array_add_one :: "byte list \<Rightarrow> nat \<Rightarrow> byte list" where
  "array_add_one d dataSz = add_one_loop dataSz d"

text \<open>The two loops of \<open>array_add\<close>, down to index 0 of the source and then of the destination; the
  carry is 16 bits wide.\<close>

fun array_add_src :: "nat \<Rightarrow> nat \<Rightarrow> word16 \<Rightarrow> byte list \<Rightarrow> byte list \<Rightarrow> nat \<times> word16 \<times> byte list" where
  "array_add_src 0 dn carry d s = (dn, carry, d)"
| "array_add_src (Suc sn) dn carry d s =
     (let c = carry + ucast (d ! (dn - 1)) + ucast (s ! sn)
      in array_add_src sn (dn - 1) (drop_bit 8 c) (d[dn - 1 := ucast c]) s)"

fun array_add_rest :: "nat \<Rightarrow> word16 \<Rightarrow> byte list \<Rightarrow> byte list" where
  "array_add_rest 0 carry d = d"
| "array_add_rest (Suc dn) carry d =
     (let c = carry + ucast (d ! dn) in array_add_rest dn (drop_bit 8 c) (d[dn := ucast c]))"

definition array_add :: "byte list \<Rightarrow> nat \<Rightarrow> byte list \<Rightarrow> nat \<Rightarrow> byte list" where
  "array_add d dLen s sLen =
     (if dLen > 0 \<and> sLen > 0 \<and> dLen \<ge> sLen
      then let (dn, carry, d') = array_add_src sLen dLen 0 d s in array_add_rest dn carry d'
      else d)"

definition Hash_gen_block :: "byte list \<Rightarrow> byte list \<Rightarrow> ('w, int \<times> byte list) cmd" where
  "Hash_gen_block data dgst = do {
     let (r0, s0) = wc_InitSha256_ex sha256_zeroed;
     (r1, s1) \<leftarrow> (if r0 = 0 then wc_Sha256Update s0 (Buf (take DRBG_SEED_LEN data)) else ret (r0, s0));
     (r2, s2, dgst') \<leftarrow> (if r1 = 0 then wc_Sha256Final s1 dgst else ret (r1, s1, dgst));
     ret (r2, dgst')
   }"

fun Hash_gen_loop ::
  "nat \<Rightarrow> int \<Rightarrow> byte list \<Rightarrow> byte list \<Rightarrow> nat \<Rightarrow> nat \<Rightarrow> byte list option \<Rightarrow>
   ('w, int \<times> byte list \<times> byte list \<times> byte list option) cmd" where
  "Hash_gen_loop 0 r data dgst outSz pos out = ret (r, data, dgst, out)"
| "Hash_gen_loop (Suc n) r data dgst outSz pos out = do {
     (r', dgst') \<leftarrow> Hash_gen_block data dgst;
     if r' \<noteq> 0 then ret (r', data, dgst', out)
     else case out of
       None \<Rightarrow> Hash_gen_loop n r' data dgst' outSz pos out
     | Some ob \<Rightarrow>
         if outSz = 0 then Hash_gen_loop n r' data dgst' outSz pos out
         else if outSz \<ge> OUTPUT_BLOCK_LEN
         then Hash_gen_loop n r' (array_add_one data DRBG_SEED_LEN) dgst' (outSz - OUTPUT_BLOCK_LEN)
                (pos + OUTPUT_BLOCK_LEN) (Some (blit ob pos (take OUTPUT_BLOCK_LEN dgst')))
         else Hash_gen_loop n r' data dgst' 0 pos (Some (blit ob pos (take outSz dgst')))
   }"

definition Hash_gen :: "byte list option \<Rightarrow> nat \<Rightarrow> byte list \<Rightarrow> ('w, int \<times> byte list option) cmd" where
  "Hash_gen out outSz V = do {
     ok1 \<leftarrow> XMALLOC;
     ok2 \<leftarrow> XMALLOC;
     if \<not> ok1 \<or> \<not> ok2 then do {
       _ \<leftarrow> (if ok2 then XFREE (Freed_bytes (zeros WC_SHA256_DIGEST_SIZE)) else ret ());
       _ \<leftarrow> (if ok1 then XFREE (Freed_bytes (zeros DRBG_SEED_LEN)) else ret ());
       ret (DRBG_FAILURE, out)
     }
     else do {
       let sz = (if outSz = 0 then 1 else outSz);
       let len = sz div OUTPUT_BLOCK_LEN + (if sz mod OUTPUT_BLOCK_LEN \<noteq> 0 then 1 else 0);
       (r, data, dgst, out') \<leftarrow> Hash_gen_loop len DRBG_FAILURE (take DRBG_SEED_LEN V) (zeros 32) sz 0 out;
       XFREE (Freed_bytes dgst);
       XFREE (Freed_bytes (ForceZero 0 data DRBG_SEED_LEN));
       ret (if r = 0 then DRBG_SUCCESS else DRBG_FAILURE, out')
     }
   }"

text \<open>The digest of a type byte and \<open>V\<close>, and of the additional input when there is some.\<close>

definition Hash_type_V :: "byte \<Rightarrow> byte list \<Rightarrow> cbuf \<Rightarrow> byte list \<Rightarrow> ('w, int \<times> byte list) cmd" where
  "Hash_type_V type V add dgst = do {
     let (r0, s0) = wc_InitSha256_ex sha256_zeroed;
     (r1, s1) \<leftarrow> (if r0 = 0 then wc_Sha256Update s0 (Buf [type]) else ret (r0, s0));
     (r2, s2) \<leftarrow> (if r1 = 0 then wc_Sha256Update s1 (Buf (take DRBG_SEED_LEN V)) else ret (r1, s1));
     (r3, s3) \<leftarrow> (if r2 = 0 \<and> type = drbgGenerateW then wc_Sha256Update s2 add else ret (r2, s2));
     (r4, s4, dgst') \<leftarrow> (if r3 = 0 then wc_Sha256Final s3 dgst else ret (r3, s3, dgst));
     ret (r4, dgst')
   }"

definition drbg_commit :: "DRBG_internal \<Rightarrow> byte list \<Rightarrow> byte list \<Rightarrow> DRBG_internal" where
  "drbg_commit drbg thisV dgst =
     (let v1 = array_add thisV DRBG_SEED_LEN dgst WC_SHA256_DIGEST_SIZE;
          v2 = array_add v1 DRBG_SEED_LEN (drbg_C drbg) DRBG_SEED_LEN;
          v3 = array_add v2 DRBG_SEED_LEN (bytes_of_word64 (ByteReverseWord64 (reseedCtr drbg))) 8
      in drbg\<lparr>drbg_V := v3, reseedCtr := reseedCtr drbg + 1\<rparr>)"

text \<open>The part of \<open>Hash_DRBG_Generate\<close> after \<open>thisV\<close> is chosen; \<open>shadow\<close> says that it is the heap copy.\<close>

definition Generate_from ::
  "DRBG_internal \<Rightarrow> byte list \<Rightarrow> nat \<Rightarrow> byte list \<Rightarrow> byte list \<Rightarrow> bool \<Rightarrow> ('w, int \<times> DRBG_internal \<times> byte list) cmd" where
  "Generate_from drbg out outSz thisV dgst shadow = do {
     (r, out') \<leftarrow> Hash_gen (Some out) outSz thisV;
     (r', dgst') \<leftarrow> (if r = DRBG_SUCCESS then Hash_type_V drbgGenerateH thisV (Null 0) dgst else ret (r, dgst));
     XFREE (Freed_bytes (ForceZero 0 dgst' WC_SHA256_DIGEST_SIZE));
     _ \<leftarrow> (if shadow then XFREE (Freed_bytes (ForceZero 0 thisV DRBG_SEED_LEN)) else ret ());
     ret (if r' = 0 then (DRBG_SUCCESS, drbg_commit drbg thisV dgst', the out')
          else (DRBG_FAILURE, drbg, ForceZero 0 (the out') outSz))
   }"

definition Hash_DRBG_Generate ::
  "DRBG_internal \<Rightarrow> byte list \<Rightarrow> nat \<Rightarrow> cbuf \<Rightarrow> ('w, int \<times> DRBG_internal \<times> byte list) cmd" where
  "Hash_DRBG_Generate drbg out outSz additional =
     (if reseedCtr drbg \<ge> WC_RESEED_INTERVAL then ret (DRBG_NEED_RESEED, drbg, out)
      else do {
        ok \<leftarrow> XMALLOC;
        if \<not> ok then ret (DRBG_FAILURE, drbg, out)
        else if \<not> is_null additional \<and> csize additional > 0 then do {
          ok2 \<leftarrow> XMALLOC;
          if \<not> ok2 then do { XFREE (Freed_bytes (zeros WC_SHA256_DIGEST_SIZE)); ret (DRBG_FAILURE, drbg, out) }
          else do {
            (r, dgst) \<leftarrow> Hash_type_V drbgGenerateW (drbg_V drbg) additional (zeros WC_SHA256_DIGEST_SIZE);
            if r = 0
            then Generate_from drbg out outSz
                   (array_add (drbg_V drbg) DRBG_SEED_LEN dgst WC_SHA256_DIGEST_SIZE) dgst True
            else do {
              XFREE (Freed_bytes (zeros DRBG_SEED_LEN));
              XFREE (Freed_bytes (ForceZero 0 dgst WC_SHA256_DIGEST_SIZE));
              ret (DRBG_FAILURE, drbg, out)
            }
          }
        }
        else Generate_from drbg out outSz (drbg_V drbg) (zeros WC_SHA256_DIGEST_SIZE) False
      })"

section \<open>Instantiation\<close>

definition Hash_DRBG_Init :: "DRBG_internal \<Rightarrow> cbuf \<Rightarrow> cbuf \<Rightarrow> cbuf \<Rightarrow> ('w, int \<times> DRBG_internal) cmd" where
  "Hash_DRBG_Init drbg seed nonce perso =
     (if is_null seed then ret (DRBG_FAILURE, drbg)
      else do {
        (r1, V) \<leftarrow> Hash_df (drbg_V drbg) DRBG_SEED_LEN drbgInitV seed nonce perso;
        let d1 = drbg\<lparr>drbg_V := V\<rparr>;
        if r1 = DRBG_SUCCESS then do {
          (r2, C) \<leftarrow> Hash_df (drbg_C d1) DRBG_SEED_LEN drbgInitC (Buf V) (Null 0) (Null 0);
          let d2 = d1\<lparr>drbg_C := C\<rparr>;
          ret (if r2 = DRBG_SUCCESS then (DRBG_SUCCESS, d2\<lparr>reseedCtr := 1\<rparr>) else (DRBG_FAILURE, d2))
        }
        else ret (DRBG_FAILURE, d1)
      })"

definition Hash_DRBG_Instantiate :: "DRBG_internal \<Rightarrow> cbuf \<Rightarrow> cbuf \<Rightarrow> cbuf \<Rightarrow> ('w, int \<times> DRBG_internal) cmd" where
  "Hash_DRBG_Instantiate drbg seed nonce perso =
     (if is_null seed then ret (DRBG_FAILURE, drbg_zeroed)
      else Hash_DRBG_Init drbg_zeroed seed nonce perso)"

text \<open>\<open>ForceZero\<close> on the structure, then the OR of its bytes, over the fields of the model.\<close>

definition Hash_DRBG_Uninstantiate :: "DRBG_internal \<Rightarrow> int \<times> DRBG_internal" where
  "Hash_DRBG_Uninstantiate drbg =
     (let d = drbg_zeroed;
          compareSum = fold (\<lambda>b acc. acc OR b) (bytes_of_word64 (reseedCtr d) @ drbg_V d @ drbg_C d) 0
      in (if compareSum = 0 then DRBG_SUCCESS else DRBG_FAILURE, d))"

section \<open>Health tests\<close>

definition rct_step :: "byte \<Rightarrow> int \<times> byte \<times> bool \<Rightarrow> int \<times> byte \<times> bool" where
  "rct_step b st =
     (let (repCount, prevByte, rctFailed) = st;
          m = (if b = prevByte then 1 else 0);
          repCount' = m * (repCount + 1) + (1 - m) * 1;
          prevByte' = (if m = 1 then prevByte else b)
      in (repCount', prevByte', rctFailed \<or> repCount' \<ge> 31))"

text \<open>The first window of the adaptive proportion test, then the window moving by one byte.\<close>

definition apt_slide :: "byte list \<Rightarrow> nat \<Rightarrow> nat \<Rightarrow> word16 list \<times> bool \<Rightarrow> word16 list \<times> bool" where
  "apt_slide seed windowSize windowStart st =
     (let (cnt, aptFailed) = st;
          i = unat (seed ! windowStart);
          cnt1 = cnt[i := cnt ! i - 1];
          k = unat (seed ! (windowStart + windowSize));
          cnt2 = cnt1[k := cnt1 ! k + 1]
      in (cnt2, aptFailed \<or> cnt2 ! k \<ge> 325))"

definition wc_RNG_TestSeed :: "cbuf \<Rightarrow> ('w, int \<times> unit) cmd" where
  "wc_RNG_TestSeed seed =
     (if is_null seed \<or> csize seed < SEED_BLOCK_SZ then ret (BAD_FUNC_ARG, ())
      else do {
        let s = cbytes seed;
        let (repCount, prevByte, rctFailed) = fold rct_step (tl s) (1, hd s, False);
        let windowSize = min (length s) 512;
        ok \<leftarrow> XMALLOC;
        if \<not> ok then ret (MEMORY_E, ())
        else do {
          let cnt0 = fold (\<lambda>b cnt. cnt[unat b := cnt ! unat b + 1]) (take windowSize s) (replicate 256 (0 :: word16));
          let apt0 = list_ex (\<lambda>c. c \<ge> 325) cnt0;
          let (cnt, aptFailed) = fold (apt_slide s windowSize) [0..<length s - windowSize] (cnt0, apt0);
          XFREE (Freed_obj ''byteCounts'' False);
          ret (if rctFailed then ENTROPY_RT_E else if aptFailed then ENTROPY_APT_E else 0, ())
        }
      })"

definition seedA_data :: "byte list" where
  "seedA_data = [0x63, 0x36, 0x33, 0x77, 0xe4, 0x1e, 0x86, 0x46, 0x8d, 0xeb, 0x0a, 0xb4,
    0xa8, 0xed, 0x68, 0x3f, 0x6a, 0x13, 0x4e, 0x47, 0xe0, 0x14, 0xc7, 0x00,
    0x45, 0x4e, 0x81, 0xe9, 0x53, 0x58, 0xa5, 0x69, 0x80, 0x8a, 0xa3, 0x8f,
    0x2a, 0x72, 0xa6, 0x23, 0x59, 0x91, 0x5a, 0x9f, 0x8a, 0x04, 0xca, 0x68]"

definition reseedSeedA_data :: "byte list" where
  "reseedSeedA_data = [0xe6, 0x2b, 0x8a, 0x8e, 0xe8, 0xf1, 0x41, 0xb6, 0x98, 0x05, 0x66, 0xe3,
    0xbf, 0xe3, 0xc0, 0x49, 0x03, 0xda, 0xd4, 0xac, 0x2c, 0xdf, 0x9f, 0x22,
    0x80, 0x01, 0x0a, 0x67, 0x39, 0xbc, 0x83, 0xd3]"

definition outputA_data :: "byte list" where
  "outputA_data = [0x04, 0xee, 0xc6, 0x3b, 0xb2, 0x31, 0xdf, 0x2c, 0x63, 0x0a, 0x1a, 0xfb,
    0xe7, 0x24, 0x94, 0x9d, 0x00, 0x5a, 0x58, 0x78, 0x51, 0xe1, 0xaa, 0x79,
    0x5e, 0x47, 0x73, 0x47, 0xc8, 0xb0, 0x56, 0x62, 0x1c, 0x18, 0xbd, 0xdc,
    0xdd, 0x8d, 0x99, 0xfc, 0x5f, 0xc2, 0xb9, 0x20, 0x53, 0xd8, 0xcf, 0xac,
    0xfb, 0x0b, 0xb8, 0x83, 0x12, 0x05, 0xfa, 0xd1, 0xdd, 0xd6, 0xc0, 0x71,
    0x31, 0x8a, 0x60, 0x18, 0xf0, 0x3b, 0x73, 0xf5, 0xed, 0xe4, 0xd4, 0xd0,
    0x71, 0xf9, 0xde, 0x03, 0xfd, 0x7a, 0xea, 0x10, 0x5d, 0x92, 0x99, 0xb8,
    0xaf, 0x99, 0xaa, 0x07, 0x5b, 0xdb, 0x4d, 0xb9, 0xaa, 0x28, 0xc1, 0x8d,
    0x17, 0x4b, 0x56, 0xee, 0x2a, 0x01, 0x4d, 0x09, 0x88, 0x96, 0xff, 0x22,
    0x82, 0xc9, 0x55, 0xa8, 0x19, 0x69, 0xe0, 0x69, 0xfa, 0x8c, 0xe0, 0x07,
    0xa1, 0x80, 0x18, 0x3a, 0x07, 0xdf, 0xae, 0x17]"

definition seedB_data :: "byte list" where
  "seedB_data = [0xa6, 0x5a, 0xd0, 0xf3, 0x45, 0xdb, 0x4e, 0x0e, 0xff, 0xe8, 0x75, 0xc3,
    0xa2, 0xe7, 0x1f, 0x42, 0xc7, 0x12, 0x9d, 0x62, 0x0f, 0xf5, 0xc1, 0x19,
    0xa9, 0xef, 0x55, 0xf0, 0x51, 0x85, 0xe0, 0xfb,
    0x85, 0x81, 0xf9, 0x31, 0x75, 0x17, 0x27, 0x6e, 0x06, 0xe9, 0x60, 0x7d,
    0xdb, 0xcb, 0xcc, 0x2e]"

definition outputB_data :: "byte list" where
  "outputB_data = [0xd3, 0xe1, 0x60, 0xc3, 0x5b, 0x99, 0xf3, 0x40, 0xb2, 0x62, 0x82, 0x64,
    0xd1, 0x75, 0x10, 0x60, 0xe0, 0x04, 0x5d, 0xa3, 0x83, 0xff, 0x57, 0xa5,
    0x7d, 0x73, 0xa6, 0x73, 0xd2, 0xb8, 0xd8, 0x0d, 0xaa, 0xf6, 0xa6, 0xc3,
    0x5a, 0x91, 0xbb, 0x45, 0x79, 0xd7, 0x3f, 0xd0, 0xc8, 0xfe, 0xd1, 0x11,
    0xb0, 0x39, 0x13, 0x06, 0x82, 0x8a, 0xdf, 0xed, 0x52, 0x8f, 0x01, 0x81,
    0x21, 0xb3, 0xfe, 0xbd, 0xc3, 0x43, 0xe7, 0x97, 0xb8, 0x7d, 0xbb, 0x63,
    0xdb, 0x13, 0x33, 0xde, 0xd9, 0xd1, 0xec, 0xe1, 0x77, 0xcf, 0xa6, 0xb7,
    0x1f, 0xe8, 0xab, 0x1d, 0xa4, 0x66, 0x24, 0xed, 0x64, 0x15, 0xe5, 0x1c,
    0xcd, 0xe2, 0xc7, 0xca, 0x86, 0xe2, 0x83, 0x99, 0x0e, 0xea, 0xeb, 0x91,
    0x12, 0x04, 0x15, 0x52, 0x8b, 0x22, 0x95, 0x91, 0x02, 0x81, 0xb0, 0x2d,
    0xd4, 0x31, 0xf4, 0xc9, 0xf7, 0x04, 0x27, 0xdf]"

definition wc_RNG_HealthTest_ex_internal ::
  "DRBG_internal \<Rightarrow> bool \<Rightarrow> cbuf \<Rightarrow> cbuf \<Rightarrow> cbuf \<Rightarrow> byte list \<Rightarrow> nat \<Rightarrow> ('w, int \<times> DRBG_internal \<times> byte list) cmd" where
  "wc_RNG_HealthTest_ex_internal drbg reseed nonce seedA seedB output outputSz =
     (if is_null seedA then ret (BAD_FUNC_ARG, drbg, output)
      else if reseed \<and> is_null seedB then ret (BAD_FUNC_ARG, drbg, output)
      else if outputSz \<noteq> RNG_HEALTH_TEST_CHECK_SIZE then ret (BAD_FUNC_ARG, drbg, output)
      else do {
        (r1, d1) \<leftarrow> Hash_DRBG_Instantiate drbg seedA nonce (Null 0);
        (r2, d2) \<leftarrow> (if r1 = 0 \<and> reseed then Hash256_DRBG_Reseed d1 seedB (Null 0) else ret (r1, d1));
        (r3, d3, o3) \<leftarrow> (if r2 = 0 then Hash_DRBG_Generate d2 output outputSz (Null 0) else ret (r2, d2, output));
        (r4, d4, o4) \<leftarrow> (if r3 = 0 then Hash_DRBG_Generate d3 o3 outputSz (Null 0) else ret (r3, d3, o3));
        let (u, d5) = Hash_DRBG_Uninstantiate d4;
        let r = (if r4 = 0 then 0 else DRBG_FAILURE);
        ret (if u \<noteq> 0 \<and> r = 0 then DRBG_FAILURE else r, d5, o4)
      })"

definition free_drbg :: "DRBG_internal \<Rightarrow> ('w, unit) cmd" where
  "free_drbg d = XFREE (Freed_obj ''DRBG_internal'' (d = drbg_zeroed))"

definition wc_RNG_HealthTestLocal :: "bool \<Rightarrow> ('w, int \<times> unit) cmd" where
  "wc_RNG_HealthTestLocal reseed = do {
     ok1 \<leftarrow> XMALLOC;
     if \<not> ok1 then ret (MEMORY_E, ())
     else do {
       ok2 \<leftarrow> XMALLOC;
       if \<not> ok2 then do { XFREE (Freed_bytes (zeros RNG_HEALTH_TEST_CHECK_SIZE)); ret (MEMORY_E, ()) }
       else do {
         let check0 = zeros RNG_HEALTH_TEST_CHECK_SIZE;
         (r, d, check) \<leftarrow>
           (if reseed then do {
              (r, d, check) \<leftarrow> wc_RNG_HealthTest_ex_internal drbg_zeroed True (Null 0) (Buf seedA_data)
                 (Buf reseedSeedA_data) check0 RNG_HEALTH_TEST_CHECK_SIZE;
              ret (if r = 0 \<and> ConstantCompare check outputA_data (int RNG_HEALTH_TEST_CHECK_SIZE) \<noteq> 0
                   then DRBG_CONT_FAILURE else r, d, check)
            }
            else do {
              (r1, d1, check1) \<leftarrow> wc_RNG_HealthTest_ex_internal drbg_zeroed False (Null 0) (Buf seedB_data)
                 (Null 0) check0 RNG_HEALTH_TEST_CHECK_SIZE;
              let r2 = (if r1 \<noteq> 0 then r1
                        else if ConstantCompare check1 outputB_data (int RNG_HEALTH_TEST_CHECK_SIZE) \<noteq> 0
                        then DRBG_CONT_FAILURE else 0);
              if r2 = 0 then do {
                (r3, d3, check3) \<leftarrow> wc_RNG_HealthTest_ex_internal d1 False (Buf (drop 32 seedB_data))
                   (Buf (take 32 seedB_data)) (Null 0) check1 RNG_HEALTH_TEST_CHECK_SIZE;
                ret (if r3 = 0 \<and> ConstantCompare check3 outputB_data (int (length outputB_data)) \<noteq> 0
                     then DRBG_CONT_FAILURE else r3, d3, check3)
              }
              else ret (r2, d1, check1)
            });
         XFREE (Freed_bytes check);
         free_drbg d;
         ret (r, ())
       }
     }
   }"

section \<open>Seeds from the system\<close>

definition open_dev :: "string \<Rightarrow> ('z rng_world_scheme, bool) cmd" where
  "open_dev path = on_world (State (\<lambda>w. (os_open (os w) path (os_time w), w\<lparr>os_time := Suc (os_time w)\<rparr>)))"

text \<open>A read of at most \<open>sz\<close> bytes; \<open>None\<close> is a length that is not positive.\<close>

definition read_dev :: "nat \<Rightarrow> ('z rng_world_scheme, byte list option) cmd" where
  "read_dev sz = on_world (State (\<lambda>w.
     (case os_read (os w) sz (os_time w) of
        None \<Rightarrow> None | Some bs \<Rightarrow> if bs = [] then None else Some (take sz bs),
      w\<lparr>os_time := Suc (os_time w)\<rparr>)))"

definition wc_GenerateSeed :: "byte list \<Rightarrow> nat \<Rightarrow> ('z rng_world_scheme, int \<times> byte list) cmd" where
  "wc_GenerateSeed output sz = do {
     fd1 \<leftarrow> open_dev ''/dev/urandom'';
     fd2 \<leftarrow> (if fd1 then ret True else open_dev ''/dev/random'');
     if \<not> fd2 then ret (OPEN_RAN_E, output)
     else if sz = 0 then ret (0, output)
     else do {
       bs \<leftarrow> read_dev sz;
       ret (case bs of
              None \<Rightarrow> (READ_RAN_E, output)
            | Some b \<Rightarrow> (if length b < sz then RAN_BLOCK_E else 0, blit output 0 b))
     }
   }"

section \<open>The generator object\<close>

definition WC_RNG_INIT_FLAG_USE_FULL_MUTEX :: word32 where "WC_RNG_INIT_FLAG_USE_FULL_MUTEX = 4"
definition WC_RNG_INIT_FLAG_RECOVER_AND_PROMOTE_FROM_NEXT_SEED :: word32 where
  "WC_RNG_INIT_FLAG_RECOVER_AND_PROMOTE_FROM_NEXT_SEED = 8"
definition WC_RNG_INIT_FLAG_USE_AUTO_LOCK :: word32 where "WC_RNG_INIT_FLAG_USE_AUTO_LOCK = 16"
definition WC_RNG_INIT_FLAG_NO_AUTO_LOCK :: word32 where "WC_RNG_INIT_FLAG_NO_AUTO_LOCK = 32"

text \<open>The seed buffer is allocated: gather the seed, test it, instantiate, burn the buffer.\<close>

definition InitRng_seed ::
  "cbuf \<Rightarrow> cbuf \<Rightarrow> nat \<Rightarrow> DRBG_internal \<Rightarrow> ('z rng_world_scheme, int \<times> DRBG_internal) cmd" where
  "InitRng_seed nonce perso seedSz drbg = do {
     (r1, seed) \<leftarrow> wc_GenerateSeed (zeros MAX_SEED_SZ) seedSz;
     (r2, _) \<leftarrow> (if r1 \<noteq> 0 then ret (DRBG_FAILURE, ()) else wc_RNG_TestSeed (Buf (take seedSz seed)));
     (r3, d3) \<leftarrow> (if r2 = DRBG_SUCCESS
        then Hash_DRBG_Instantiate drbg (Buf (drop SEED_BLOCK_SZ (take seedSz seed))) nonce perso
        else ret (r2, drbg));
     XFREE (Freed_bytes (ForceZero 0 seed seedSz));
     ret (r3, d3)
   }"

text \<open>The return code and status an initialisation ends with.\<close>

definition InitRng_code :: "int \<Rightarrow> int" where
  "InitRng_code r =
     (if r = DRBG_SUCCESS then 0 else if r = DRBG_CONT_FAILURE then DRBG_CONT_FIPS_E
      else if r = DRBG_FAILURE then RNG_FAILURE_E else r)"

definition InitRng_status :: "int \<Rightarrow> int" where
  "InitRng_status r =
     (if r = DRBG_SUCCESS then DRBG_OK else if r = DRBG_CONT_FAILURE then DRBG_CONT_FAILED else DRBG_FAILED)"

definition InitRng :: "cbuf \<Rightarrow> cbuf \<Rightarrow> word32 \<Rightarrow> ('z rng_world_scheme, int \<times> WC_RNG) cmd" where
  "InitRng nonce perso flags = do {
     let rng0 = \<lparr>rng_drbg = None, rng_status = DRBG_NOT_INIT\<rparr>;
     if is_null nonce \<and> csize nonce \<noteq> 0 then ret (BAD_FUNC_ARG, rng0)
     else if is_null perso \<and> csize perso \<noteq> 0 then ret (BAD_FUNC_ARG, rng0)
     else if flags AND WC_RNG_INIT_FLAG_USE_AUTO_LOCK \<noteq> 0 \<and>
             flags AND (WC_RNG_INIT_FLAG_NO_AUTO_LOCK OR WC_RNG_INIT_FLAG_USE_FULL_MUTEX) \<noteq> 0
       then ret (BAD_FUNC_ARG, rng0)
     else if flags AND WC_RNG_INIT_FLAG_RECOVER_AND_PROMOTE_FROM_NEXT_SEED \<noteq> 0 then ret (NOT_COMPILED_IN, rng0)
     else if flags AND WC_RNG_INIT_FLAG_USE_FULL_MUTEX \<noteq> 0 then ret (NOT_COMPILED_IN, rng0)
     else if flags AND WC_RNG_INIT_FLAG_USE_AUTO_LOCK \<noteq> 0 then ret (NOT_COMPILED_IN, rng0)
     else do {
       disabled \<leftarrow> State (\<lambda>h. (sha256DrbgDisabled (world h) \<noteq> 0, h));
       if disabled then ret (BAD_STATE_E, rng0)
       else do {
         let seedSz = (if csize nonce = 0 then MAX_SEED_SZ else SEED_SZ + SEED_BLOCK_SZ);
         ok \<leftarrow> XMALLOC;
         (r1, _) \<leftarrow> (if ok then wc_RNG_HealthTestLocal False else ret (MEMORY_E, ()));
         ok2 \<leftarrow> (if r1 = 0 then XMALLOC else ret False);
         (r, d) \<leftarrow> (if r1 \<noteq> 0 then ret (r1, drbg_zeroed)
                   else if \<not> ok2 then ret (MEMORY_E, drbg_zeroed)
                   else InitRng_seed nonce perso seedSz drbg_zeroed);
         if InitRng_code r = 0 then ret (0, \<lparr>rng_drbg = Some d, rng_status = DRBG_OK\<rparr>)
         else do {
           _ \<leftarrow> (if ok then free_drbg d else ret ());
           ret (InitRng_code r, rng0\<lparr>rng_status := InitRng_status r\<rparr>)
         }
       }
     }
   }"

definition wc_FreeRng :: "WC_RNG \<Rightarrow> ('w, int \<times> WC_RNG) cmd" where
  "wc_FreeRng rng =
     (case rng_drbg rng of
        None \<Rightarrow> ret (0, rng\<lparr>rng_status := DRBG_NOT_INIT\<rparr>)
      | Some d \<Rightarrow> do {
          let (u, d') = Hash_DRBG_Uninstantiate d;
          free_drbg d';
          ret (if u \<noteq> DRBG_SUCCESS then RNG_FAILURE_E else 0, rng\<lparr>rng_drbg := None, rng_status := DRBG_NOT_INIT\<rparr>)
        })"

definition wc_rng_new_ex :: "cbuf \<Rightarrow> ('z rng_world_scheme, int \<times> WC_RNG option) cmd" where
  "wc_rng_new_ex nonce = do {
     ok \<leftarrow> XMALLOC;
     if \<not> ok then ret (MEMORY_E, None)
     else do {
       (r, rng) \<leftarrow> InitRng nonce (Null 0) 0;
       if r \<noteq> 0 then do { XFREE (Freed_obj ''WC_RNG'' (rng_drbg rng = None)); ret (r, None) }
       else ret (0, Some rng)
     }
   }"

definition wc_rng_new :: "cbuf \<Rightarrow> ('z rng_world_scheme, WC_RNG option) cmd" where
  "wc_rng_new nonce = do {
     (r, rng) \<leftarrow> wc_rng_new_ex nonce;
     ret (if r \<noteq> 0 then None else rng)
   }"

definition wc_rng_free :: "WC_RNG option \<Rightarrow> ('w, unit) cmd" where
  "wc_rng_free rng =
     (case rng of
        None \<Rightarrow> ret ()
      | Some r \<Rightarrow> do { (_, r') \<leftarrow> wc_FreeRng r; XFREE (Freed_obj ''WC_RNG'' True) })"

text \<open>Reseeding from the system when the counter is exhausted, and the block generator.\<close>

definition Hash_DRBG_Reseed :: "WC_RNG \<Rightarrow> cbuf \<Rightarrow> cbuf \<Rightarrow> ('w, int \<times> WC_RNG) cmd" where
  "Hash_DRBG_Reseed rng seed additional =
     (case rng_drbg rng of
        None \<Rightarrow> ret (BAD_FUNC_ARG, rng)
      | Some d \<Rightarrow> do { (r, d') \<leftarrow> Hash256_DRBG_Reseed d seed additional; ret (r, rng\<lparr>rng_drbg := Some d'\<rparr>) })"

definition PollAndReSeed :: "WC_RNG \<Rightarrow> cbuf \<Rightarrow> ('z rng_world_scheme, int \<times> WC_RNG) cmd" where
  "PollAndReSeed rng additional = do {
     (r0, _) \<leftarrow> wc_RNG_HealthTestLocal True;
     if r0 \<noteq> 0 then ret (r0, rng)
     else do {
       ok \<leftarrow> XMALLOC;
       if \<not> ok then ret (MEMORY_E, rng)
       else do {
         (r1, newSeed) \<leftarrow> wc_GenerateSeed (zeros (SEED_SZ + SEED_BLOCK_SZ)) (SEED_SZ + SEED_BLOCK_SZ);
         (r2, _) \<leftarrow> (if r1 = DRBG_SUCCESS then wc_RNG_TestSeed (Buf newSeed) else ret (r1, ()));
         (r3, rng') \<leftarrow> (if r2 = DRBG_SUCCESS
            then Hash_DRBG_Reseed rng (Buf (drop SEED_BLOCK_SZ newSeed)) additional else ret (r2, rng));
         XFREE (Freed_bytes (ForceZero 0 newSeed (SEED_SZ + SEED_BLOCK_SZ)));
         ret (r3, rng')
       }
     }
   }"

text \<open>\<open>Hash_DRBG_Generate\<close> on the generator's object; it fails when there is none.\<close>

definition rng_generate :: "WC_RNG \<Rightarrow> byte list \<Rightarrow> nat \<Rightarrow> ('w, int \<times> WC_RNG \<times> byte list) cmd" where
  "rng_generate rng output sz =
     (case rng_drbg rng of
        None \<Rightarrow> ret (DRBG_FAILURE, rng, output)
      | Some d \<Rightarrow> do {
          (r, d', output') \<leftarrow> Hash_DRBG_Generate d output sz (Null 0);
          ret (r, rng\<lparr>rng_drbg := Some d'\<rparr>, output')
        })"

definition wc_RNG_GenerateBlock :: "WC_RNG \<Rightarrow> byte list \<Rightarrow> nat \<Rightarrow> ('z rng_world_scheme, int \<times> WC_RNG \<times> byte list) cmd" where
  "wc_RNG_GenerateBlock rng output sz =
     (if sz = 0 then ret (0, rng, output)
      else if sz > RNG_MAX_BLOCK_LEN then ret (BAD_FUNC_ARG, rng, output)
      else if rng_status rng \<noteq> DRBG_OK then ret (RNG_FAILURE_E, rng, output)
      else do {
        (r1, rng1, out1) \<leftarrow> rng_generate rng output sz;
        (r, rng2, out2) \<leftarrow>
          (if r1 = DRBG_NEED_RESEED then do {
             (r2, rng2) \<leftarrow> PollAndReSeed rng1 (Null 0);
             if r2 \<noteq> DRBG_SUCCESS
             then ret (r2, rng2\<lparr>rng_status := (if r2 = DRBG_CONT_FAILURE then DRBG_CONT_FAILED else DRBG_FAILED)\<rparr>, out1)
             else rng_generate rng2 out1 sz
           }
           else ret (r1, rng1, out1));
        ret (if r = DRBG_SUCCESS then (0, rng2, out2)
             else if r = DRBG_CONT_FAILURE then (DRBG_CONT_FIPS_E, rng2\<lparr>rng_status := DRBG_CONT_FAILED\<rparr>, out2)
             else (RNG_FAILURE_E, rng2, out2))
      })"

definition wc_RNG_GenerateByte :: "WC_RNG \<Rightarrow> byte list \<Rightarrow> ('z rng_world_scheme, int \<times> WC_RNG \<times> byte list) cmd" where
  "wc_RNG_GenerateByte rng b = wc_RNG_GenerateBlock rng b 1"

definition wc_RNG_DRBG_Reseed_Nonce :: "WC_RNG \<Rightarrow> cbuf \<Rightarrow> cbuf \<Rightarrow> ('w, int \<times> WC_RNG) cmd" where
  "wc_RNG_DRBG_Reseed_Nonce rng seed nonce =
     (if is_null seed then ret (BAD_FUNC_ARG, rng)
      else if is_null nonce \<and> csize nonce > 0 then ret (BAD_FUNC_ARG, rng)
      else if rng_status rng \<noteq> DRBG_OK then ret (RNG_FAILURE_E, rng)
      else Hash_DRBG_Reseed rng seed nonce)"

definition wc_RNG_DRBG_Reseed :: "WC_RNG \<Rightarrow> cbuf \<Rightarrow> ('w, int \<times> WC_RNG) cmd" where
  "wc_RNG_DRBG_Reseed rng seed = wc_RNG_DRBG_Reseed_Nonce rng seed (Null 0)"

definition wc_RNG_DRBG_ScheduleReseed :: "WC_RNG \<Rightarrow> int \<times> WC_RNG" where
  "wc_RNG_DRBG_ScheduleReseed rng =
     (case rng_drbg rng of
        None \<Rightarrow> (WRONG_TYPE_OBJECT_E, rng)
      | Some d \<Rightarrow> (0, rng\<lparr>rng_drbg := Some (d\<lparr>reseedCtr := WC_RESEED_INTERVAL\<rparr>)\<rparr>))"

section \<open>Hash_DRBG as SP 800-90A states it\<close>

definition hash_df :: "byte list \<Rightarrow> nat \<Rightarrow> byte list" where
  "hash_df inp n =
     take n (concat (map (\<lambda>i. sha256 ([of_nat i] @ be32 (of_nat n * 8) @ inp)) [1..<Suc ((n + 31) div 32)]))"

lemma clean_if_Update:
  assumes "sha_rep s m" "length d < 2 ^ 32"
  shows "clean wiped 0 h (if c then wc_Sha256Update s (Buf d) else ret (0, s))
     (succeeds (\<lambda>s'. sha_rep s' (m @ (if c then d else []))))"
  using assms by (auto intro!: clean_ret clean_wc_Sha256Update)

lemma clean_opt_Update:
  assumes "sha_rep s m" "csize b < 2 ^ 32"
  shows "clean wiped 0 h (if \<not> is_null b \<and> 0 < csize b then wc_Sha256Update s b else ret (0, s))
     (succeeds (\<lambda>s'. sha_rep s' (m @ cbytes b)))"
  using assms by (cases b) (auto intro!: clean_ret clean_wc_Sha256Update)

lemma clean_Hash_df_block:
  assumes "length bits < 2 ^ 32" "length a < 2 ^ 32" "csize inB < 2 ^ 32" "csize inC < 2 ^ 32"
  shows "clean wiped 0 h (Hash_df_block ctr bits type (Buf a) inB inC dgst)
    (succeeds (\<lambda>d. d = blit dgst 0 (sha256 ([ctr] @ bits @ (if type \<noteq> drbgInitV then [type] else []) @
       a @ cbytes inB @ cbytes inC))))"
  unfolding Hash_df_block_def wc_InitSha256_ex_def Let_def prod.case
  apply (simp only: refl if_False not_True_eq_False simp_thms)
  apply (rule clean_chain [OF clean_wc_Sha256Update [OF sha_rep_Init]], simp, simp add: clean_fail)
  apply (simp only: prod.case if_True simp_thms)
  apply (rule clean_chain [OF clean_wc_Sha256Update], assumption, rule assms(1), simp add: clean_fail)
  apply (simp only: prod.case if_True simp_thms)
  apply (rule clean_chain [OF clean_if_Update], assumption, simp, simp add: clean_fail)
  apply (simp only: prod.case if_True simp_thms)
  apply (rule clean_chain [OF clean_wc_Sha256Update], assumption, rule assms(2), simp add: clean_fail)
  apply (simp only: prod.case if_True simp_thms)
  apply (rule clean_chain [OF clean_opt_Update], assumption, rule assms(3), simp add: clean_fail)
  apply (simp only: prod.case if_True simp_thms)
  apply (rule clean_chain [OF clean_opt_Update], assumption, rule assms(4), simp add: clean_fail)
  apply (simp only: prod.case if_True simp_thms)
  apply (rule clean_map2 [OF clean_wc_Sha256Final], assumption)
  apply simp
  done

lemma blit_chain:
  "\<lbrakk>length x = n; pos + n \<le> length out\<rbrakk> \<Longrightarrow> blit (blit out pos x) (pos + n) y = blit out pos (x @ y)"
  by (auto simp: blit_def add_ac)

lemma clean_Hash_df_loop:
  fixes h :: "'w env" and type :: byte
  assumes sz: "length bits < 2 ^ 32" "length a < 2 ^ 32" "csize inB < 2 ^ 32" "csize inC < 2 ^ 32"
  defines "B \<equiv> \<lambda>i. sha256 ([of_nat i] @ bits @ (if type \<noteq> drbgInitV then [type] else []) @ a @ cbytes inB @ cbytes inC)"
  shows "\<lbrakk>0 < n; left \<le> 32 * n; 32 * (n - 1) < left; pos + left \<le> length out; length dgst = 32\<rbrakk> \<Longrightarrow>
    clean wiped 0 h (Hash_df_loop n (of_nat (Suc k)) bits type (Buf a) inB inC r dgst left pos out)
      (succeeds (\<lambda>(dgst', out'). length dgst' = 32 \<and>
         out' = blit out pos (take left (concat (map B [Suc k..<Suc (k + n)])))))"
proof (induction n arbitrary: k left pos out dgst r h)
  case (Suc n)
  have B: "blit dgst 0 (sha256 ([of_nat (Suc k)] @ bits @ (if type \<noteq> drbgInitV then [type] else []) @ a @
      cbytes inB @ cbytes inC)) = B (Suc k)"
    using Suc.prems(5) by (simp add: B_def)
  have lB: "length (B i) = 32" for i by (simp add: B_def)
  have blk: "clean wiped 0 h (Hash_df_block (of_nat (Suc k)) bits type (Buf a) inB inC dgst) (succeeds (\<lambda>d. d = B (Suc k)))"
    using clean_Hash_df_block [OF sz, of h "of_nat (Suc k)" type dgst] unfolding B .
  show ?case
  proof (cases "left > 32")
    case True
    have n: "0 < n" using True Suc.prems(2) by (cases n) auto
    have up: "[Suc k..<Suc (k + Suc n)] = Suc k # [Suc (Suc k)..<Suc (Suc k + n)]"
      using n by (simp add: upt_conv_Cons)
    let ?rest = "concat (map B [Suc (Suc k)..<Suc (Suc k + n)])"
    have IH: "clean wiped 0 h' (Hash_df_loop n (of_nat (Suc k) + 1) bits type (Buf a) inB inC 0 (B (Suc k)) (left - 32)
        (pos + 32) (blit out pos (take 32 (B (Suc k)))))
      (succeeds (\<lambda>(dgst', out'). length dgst' = 32 \<and> out' = blit out pos (take left (concat (map B [Suc k..<Suc (k + Suc n)])))))"
      for h' :: "'w env"
    proof -
      have e: "(of_nat (Suc k) + 1 :: byte) = of_nat (Suc (Suc k))" by simp
      have "blit (blit out pos (take 32 (B (Suc k)))) (pos + 32) (take (left - 32) ?rest) =
          blit out pos (take left (concat (map B [Suc k..<Suc (k + Suc n)])))"
        using True Suc.prems(4) lB [of "Suc k"] by (simp only: up list.map concat.simps take_append) (simp add: blit_chain)
      then show ?thesis
        unfolding e using Suc.IH [of "left - 32" "pos + 32" "blit out pos (take 32 (B (Suc k)))" "B (Suc k)" h' "Suc k" 0]
          Suc.prems True n lB by simp
    qed
    show ?thesis
      unfolding Hash_df_loop.simps
      apply (rule clean_chain [OF blk])
       apply (simp add: clean_fail)
      apply (simp only: prod.case simp_thms if_False if_True OUTPUT_BLOCK_LEN_def True)
      apply (rule IH)
      done
  next
    case False
    then have n: "n = 0" using Suc.prems(3) by simp
    show ?thesis
      unfolding Hash_df_loop.simps n
      apply (rule clean_chain [OF blk])
       apply (simp add: clean_fail)
      using False lB by (simp add: clean_ret del: of_nat_Suc)
  qed
qed simp

text \<open>A call that succeeds, or reports \<open>DRBG_FAILURE\<close> because a request for memory was refused.\<close>

definition drbg_result :: "bool \<Rightarrow> ('a \<Rightarrow> bool) \<Rightarrow> int \<Rightarrow> 'a \<Rightarrow> bool" where
  "drbg_result ok P r x \<longleftrightarrow> r = DRBG_SUCCESS \<and> P x \<or> r = DRBG_FAILURE \<and> \<not> ok"

definition df_type :: "byte \<Rightarrow> byte list" where
  "df_type t = (if t \<noteq> drbgInitV then [t] else [])"

lemma df_blocks: "n div 32 + (if n mod 32 \<noteq> 0 then 1 else 0) = (n + 31) div (32 :: nat)"
proof -
  have "(n + 31) div 32 = n div 32 + (n mod 32 + 31) div 32"
    using div_mult_self3 [of 32 "n div 32" "n mod 32 + 31"] mult_div_mod_eq [of 32 n] by (simp add: add.assoc)
  moreover have "(n mod 32 + 31) div 32 = (if n mod 32 \<noteq> 0 then 1 else 0)"
    by (simp add: div_if)
  ultimately show ?thesis by simp
qed

lemma df_block_bounds: "0 < n \<Longrightarrow> 0 < (n + 31) div 32 \<and> n \<le> 32 * ((n + 31) div 32) \<and> 32 * ((n + 31) div 32 - 1) < (n :: nat)"
  by auto

lemma clean_Hash_df:
  fixes h :: "'w env"
  assumes n: "0 < n" "n \<le> length out"
    and sz: "length a < 2 ^ 32" "csize inB < 2 ^ 32" "csize inC < 2 ^ 32"
  shows "clean (\<lambda>_. True) 0 h (Hash_df out n type (Buf a) inB inC)
    (drbg_result (alloc_ok h) (\<lambda>out'. out' = blit out 0 (hash_df (df_type type @ a @ cbytes inB @ cbytes inC) n)))"
proof -
  let ?bits = "bytes_of_word32 (ByteReverseWord32 (of_nat n * 8))"
  have b: "?bits = be32 (of_nat n * 8)" by (simp add: ByteReverseWord32_bytes be32_def)
  let ?len = "(n + 31) div 32"
  note bd = df_block_bounds [OF n(1)]
  have loop: "clean wiped 0 h' (Hash_df_loop ?len 1 ?bits type (Buf a) inB inC DRBG_FAILURE (zeros 32) n 0 out)
      (succeeds (\<lambda>(dgst', out'). length dgst' = 32 \<and>
         out' = blit out 0 (hash_df (df_type type @ a @ cbytes inB @ cbytes inC) n)))" for h' :: "'w env"
    using clean_Hash_df_loop [of ?bits a inB inC ?len n 0 out "zeros 32" h' 0 type DRBG_FAILURE] sz n(2) bd
    by (simp add: hash_df_def df_type_def b)
  note loop' = clean_mono [OF loop, of "\<lambda>_. True"]
  show ?thesis
    unfolding Hash_df_def Let_def OUTPUT_BLOCK_LEN_def df_blocks
    apply (rule clean_malloc_eq)
     apply (simp only: simp_thms if_False)
     apply (rule clean_bind_eq [OF loop'], simp)
      apply (auto simp: drbg_result_def rc_defs intro!: clean_free clean_ret)
    done
qed

text \<open>Instantiate and reseed (SP 800-90A 10.1.1.2 and 10.1.1.3).\<close>

definition drbg_from_seed :: "byte list \<Rightarrow> DRBG_internal" where
  "drbg_from_seed material =
     (let V = hash_df material 55 in \<lparr>reseedCtr = 1, drbg_V = V, drbg_C = hash_df (0 # V) 55\<rparr>)"

definition drbg_ok :: "DRBG_internal \<Rightarrow> bool" where
  "drbg_ok d \<longleftrightarrow> length (drbg_V d) = 55 \<and> length (drbg_C d) = 55"

lemma length_hash_df: "length (hash_df inp n) = n"
  using df_block_bounds [of n] by (cases "n = 0") (simp_all add: hash_df_def length_concat comp_def sum_list_triv)

lemma clean_drbg_bind:
  assumes m: "clean Z 0 h m (drbg_result (alloc_ok h) P)"
    and bad: "\<And>r x h'. \<not> alloc_ok h \<Longrightarrow> \<not> alloc_ok h' \<Longrightarrow> r = 1 \<or> r = MEMORY_E \<Longrightarrow> clean Z d h' (f (r, x)) Q"
    and ok: "\<And>x h'. P x \<Longrightarrow> alloc_ok h' = alloc_ok h \<Longrightarrow> clean Z d h' (f (0, x)) Q"
  shows "clean Z d h (State_Monad.bind m f) Q"
  by (rule clean_bind_eq [OF m]) (auto simp: drbg_result_def intro: bad ok)

lemma clean_drbg_ret: "P x \<Longrightarrow> clean Z 0 h (ret (0, x)) (drbg_result ok P)"
  by (simp add: drbg_result_def clean_ret)

lemma clean_drbg_fail: "\<not> ok \<Longrightarrow> clean Z 0 h (ret (1, x)) (drbg_result ok P)"
  by (simp add: drbg_result_def clean_ret)

lemma clean_drbg_pass:
  "\<lbrakk>\<not> ok; \<not> alloc_ok h; r = 1 \<or> r = MEMORY_E\<rbrakk> \<Longrightarrow> clean Z 0 h (ret (r, x)) (drbg_result ok P)"
  by (auto simp: drbg_result_def clean_def)

lemma nonzero_codes [simp]: "r = 1 \<or> r = MEMORY_E \<Longrightarrow> r \<noteq> 0"
  by auto

lemma clean_Hash_DRBG_Instantiate:
  fixes h :: "'w env"
  assumes "length seed < 2 ^ 32" "csize nonce < 2 ^ 32" "csize perso < 2 ^ 32"
  shows "clean (\<lambda>_. True) 0 h (Hash_DRBG_Instantiate d (Buf seed) nonce perso)
    (drbg_result (alloc_ok h) (\<lambda>d'. d' = drbg_from_seed (seed @ cbytes nonce @ cbytes perso)))"
  unfolding Hash_DRBG_Instantiate_def Hash_DRBG_Init_def is_null.simps if_False Let_def
  apply (rule clean_drbg_bind [OF clean_Hash_df])
        apply (simp_all add: assms [simplified] drbg_zeroed_def clean_drbg_fail length_hash_df df_type_def)
  apply (rule clean_drbg_bind [where P = "\<lambda>C. C = hash_df (0 # hash_df (seed @ cbytes nonce @ cbytes perso) 55) 55"])
    apply (rule clean_conseq [OF clean_Hash_df])
         apply (simp_all add: drbg_result_def length_hash_df df_type_def)
   apply (simp_all add: clean_ret drbg_result_def drbg_from_seed_def Let_def)
  done

lemma clean_Hash256_DRBG_Reseed:
  fixes h :: "'w env"
  assumes "csize seed < 2 ^ 32" "csize add < 2 ^ 32" "drbg_ok d"
  shows "clean (\<lambda>_. True) 0 h (Hash256_DRBG_Reseed d seed add)
    (drbg_result (alloc_ok h) (\<lambda>d'. d' = drbg_from_seed (1 # drbg_V d @ cbytes seed @ cbytes add)))"
proof -
  let ?V = "hash_df (1 # drbg_V d @ cbytes seed @ cbytes add) 55"
  have V: "clean (\<lambda>_. True) 0 h' (Hash_df (zeros DRBG_SEED_LEN) DRBG_SEED_LEN drbgReseed (Buf (drbg_V d)) seed add)
      (drbg_result (alloc_ok h') (\<lambda>V. V = ?V))" for h' :: "'w env"
    using clean_Hash_df [of 55 "zeros 55" "drbg_V d" seed add h' 1] assms by (simp add: df_type_def drbg_ok_def length_hash_df)
  have C: "clean (\<lambda>_. True) 0 h' (Hash_df (zeros DRBG_SEED_LEN) DRBG_SEED_LEN drbgInitC (Buf ?V) (Null 0) (Null 0))
      (drbg_result (alloc_ok h') (\<lambda>C. C = hash_df (0 # ?V) 55))" for h' :: "'w env"
    using clean_Hash_df [of 55 "zeros 55" ?V "Null 0" "Null 0" h' 0] by (simp add: df_type_def length_hash_df)
  show ?thesis
    unfolding Hash256_DRBG_Reseed_def
    apply (rule clean_malloc_eq)
     apply (simp only: simp_thms if_False)
     apply (rule clean_drbg_bind [OF V])
      apply (simp add: clean_free clean_drbg_pass)
     apply (simp only: prod.case simp_thms if_True DRBG_SUCCESS_def)
     apply (rule clean_drbg_bind [OF C])
      apply (simp add: clean_free clean_drbg_pass)
     apply (simp add: clean_free clean_drbg_ret drbg_from_seed_def Let_def)
    apply (simp add: clean_drbg_fail)
    done
qed

text \<open>Byte strings as big-endian numbers: the two additions of the update.\<close>

lemma add_one_loop_val:
  "length x = n \<Longrightarrow> \<exists>x'. add_one_loop n (x @ q) = x' @ q \<and> length x' = n \<and> be_val x' = (be_val x + 1) mod 256 ^ n"
proof (induction n arbitrary: x q)
  case (Suc n)
  then obtain x1 b where x: "x = x1 @ [b]" "length x1 = n" by (metis length_Suc_conv_rev)
  obtain x' where IH: "add_one_loop n (x1 @ [b + 1] @ q) = x' @ [b + 1] @ q" "length x' = n"
      "be_val x' = (be_val x1 + 1) mod 256 ^ n"
    using Suc.IH [OF x(2), of "[b + 1] @ q"] by auto
  show ?case
  proof (cases "b + 1 = 0")
    case True
    then have "b = - 1" by (simp add: add_eq_0_iff2)
    then have "unat b = 255" by (simp add: unsigned_minus_1_eq_mask mask_eq_exp_minus_1)
    then have "be_val x + 1 = 256 * (be_val x1 + 1)" using x by (simp add: be_val_snoc)
    then have "(be_val x + 1) mod 256 ^ Suc n = 256 * ((be_val x1 + 1) mod 256 ^ n)"
      by (simp only: power_Suc mod_mult_mult1)
    then have "be_val (x' @ [0]) = (be_val x + 1) mod 256 ^ Suc n" using IH(3) by (simp add: be_val_snoc)
    moreover have "add_one_loop (Suc n) (x @ q) = (x' @ [0]) @ q"
      using IH(1) x True by (simp add: Let_def nth_append list_update_append)
    ultimately show ?thesis using IH(2) by (intro exI [of _ "x' @ [0]"]) simp
  next
    case False
    then have "unat (b + 1) = unat b + 1"
      using unsigned_less [of b, where ?'a = nat] unat_eq_zero [of "b + 1"]
      by (cases "unat b = 255") (auto simp: unat_word_ariths)
    then have "be_val (x1 @ [b + 1]) = be_val x + 1" using x by (simp add: be_val_snoc)
    moreover have "be_val (x1 @ [b + 1]) < 256 ^ Suc n" using be_val_less [of "x1 @ [b + 1]"] x by simp
    moreover have "add_one_loop (Suc n) (x @ q) = (x1 @ [b + 1]) @ q"
      using x False by (simp add: Let_def nth_append list_update_append)
    ultimately show ?thesis using x by (intro exI [of _ "x1 @ [b + 1]"]) simp
  qed
qed simp

lemma array_add_one_val:
  assumes "length d = n"
  shows "array_add_one d n = be_bytes n ((be_val d + 1) mod 256 ^ n)"
proof -
  obtain x where "add_one_loop n d = x" "length x = n" "be_val x = (be_val d + 1) mod 256 ^ n"
    using add_one_loop_val [OF assms, of "[]"] by auto
  then show ?thesis using be_bytes_be_val [of x] by (simp add: array_add_one_def)
qed

lemma carry_step:
  assumes "unat (c :: word16) \<le> 1"
  shows "unat (c + ucast (x :: byte) + ucast (y :: byte)) = unat c + unat x + unat y"
proof -
  have "unat (ucast z :: word16) = unat z" for z :: byte
    using unsigned_less [of z, where ?'a = nat] by (simp add: unsigned_ucast_eq take_bit_nat_eq_self)
  then show ?thesis
    using assms unsigned_less [of x, where ?'a = nat] unsigned_less [of y, where ?'a = nat]
    by (simp add: unat_word_ariths)
qed

lemma carry_low_high: "unat (ucast (c :: word16) :: byte) = unat c mod 256" "unat (drop_bit 8 c) = unat c div 256"
  by (simp_all add: unsigned_ucast_eq take_bit_eq_mod drop_bit_eq_div unat_div)

lemma array_add_src_val:
  "\<lbrakk>length x = n; length y = n; unat c \<le> 1\<rbrakk> \<Longrightarrow>
   \<exists>c' x'. array_add_src n (length p + n) c (p @ x @ q) (y @ z) = (length p, c', p @ x' @ q) \<and>
     length x' = n \<and> unat c' \<le> 1 \<and> be_val x' + 256 ^ n * unat c' = be_val x + be_val y + unat c"
proof (induction n arbitrary: x y c q z)
  case (Suc n)
  then obtain x1 b y1 e where xy: "x = x1 @ [b]" "length x1 = n" "y = y1 @ [e]" "length y1 = n"
    by (metis length_Suc_conv_rev)
  define t where "t = c + ucast b + ucast e"
  have t: "unat t = unat c + unat b + unat e" using carry_step [OF Suc.prems(3)] by (simp add: t_def)
  have c1: "unat (drop_bit 8 t) \<le> 1"
    using t Suc.prems(3) unsigned_less [of b, where ?'a = nat] unsigned_less [of e, where ?'a = nat]
    by (simp add: carry_low_high)
  obtain c' x' where IH: "array_add_src n (length p + n) (drop_bit 8 t) (p @ x1 @ [ucast t] @ q) (y1 @ [e] @ z) =
      (length p, c', p @ x' @ [ucast t] @ q)" "length x' = n" "unat c' \<le> 1"
      "be_val x' + 256 ^ n * unat c' = be_val x1 + be_val y1 + unat (drop_bit 8 t)"
    using Suc.IH [OF xy(2,4) c1, of "[ucast t] @ q" "[e] @ z"] by auto
  have "array_add_src (Suc n) (length p + Suc n) c (p @ x @ q) (y @ z) = (length p, c', p @ (x' @ [ucast t]) @ q)"
    using IH(1) xy by (simp add: Let_def nth_append list_update_append flip: t_def)
  moreover have "be_val (x' @ [ucast t]) + 256 ^ Suc n * unat c' = be_val x + be_val y + unat c"
  proof -
    have "be_val (x' @ [ucast t]) + 256 ^ Suc n * unat c' = 256 * (be_val x' + 256 ^ n * unat c') + unat t mod 256"
      by (simp add: be_val_snoc carry_low_high algebra_simps)
    also have "\<dots> = 256 * (be_val x1 + be_val y1) + (256 * (unat t div 256) + unat t mod 256)"
      by (simp add: IH(4) carry_low_high)
    finally show ?thesis using t xy by (simp add: be_val_snoc)
  qed
  ultimately show ?case using IH(2,3) by (intro exI [of _ c'] exI [of _ "x' @ [ucast t]"]) simp
qed simp

lemma array_add_rest_val:
  "\<lbrakk>length x = n; unat c \<le> 1\<rbrakk> \<Longrightarrow>
   \<exists>x'. array_add_rest n c (x @ q) = x' @ q \<and> length x' = n \<and> be_val x' = (be_val x + unat c) mod 256 ^ n"
proof (induction n arbitrary: x c q)
  case (Suc n)
  then obtain x1 b where x: "x = x1 @ [b]" "length x1 = n" by (metis length_Suc_conv_rev)
  define t where "t = c + ucast b"
  have t: "unat t = unat c + unat b" using carry_step [OF Suc.prems(2), of b 0] by (simp add: t_def)
  have c1: "unat (drop_bit 8 t) \<le> 1"
    using t Suc.prems(2) unsigned_less [of b, where ?'a = nat] by (simp add: carry_low_high)
  obtain x' where IH: "array_add_rest n (drop_bit 8 t) (x1 @ [ucast t] @ q) = x' @ [ucast t] @ q" "length x' = n"
      "be_val x' = (be_val x1 + unat (drop_bit 8 t)) mod 256 ^ n"
    using Suc.IH [OF x(2) c1, of "[ucast t] @ q"] by auto
  have "array_add_rest (Suc n) c (x @ q) = (x' @ [ucast t]) @ q"
    using IH(1) x by (simp add: Let_def nth_append list_update_append flip: t_def)
  moreover have "be_val (x' @ [ucast t]) = (be_val x + unat c) mod 256 ^ Suc n"
  proof -
    have "be_val x + unat c = 256 * be_val x1 + unat t" using t x by (simp add: be_val_snoc)
    also have "\<dots> = 256 * (be_val x1 + unat t div 256) + unat t mod 256" by simp
    finally have "(be_val x + unat c) mod (256 * 256 ^ n) = 256 * ((be_val x1 + unat t div 256) mod 256 ^ n) + unat t mod 256"
      by (simp only: mod_mult2_eq) simp
    then show ?thesis using IH(3) by (simp add: be_val_snoc carry_low_high)
  qed
  ultimately show ?case using IH(2) by (intro exI [of _ "x' @ [ucast t]"]) simp
qed simp

lemma array_add_val:
  assumes "length d = n" "length s = m" "0 < m" "m \<le> n"
  shows "array_add d n s m = be_bytes n ((be_val d + be_val s) mod 256 ^ n)"
proof -
  define p x where "p = take (n - m) d" and "x = drop (n - m) d"
  have d: "d = p @ x" "length p = n - m" "length x = m" using assms by (simp_all add: p_def x_def)
  obtain c' x' where s: "array_add_src m n 0 d s = (length p, c', p @ x')" "length x' = m" "unat c' \<le> 1"
      "be_val x' + 256 ^ m * unat c' = be_val x + be_val s"
    using array_add_src_val [of x m s 0 p "[]" "[]"] d assms by auto
  obtain p' where r: "array_add_rest (length p) c' (p @ x') = p' @ x'" "length p' = length p"
      "be_val p' = (be_val p + unat c') mod 256 ^ length p"
    using array_add_rest_val [of p "length p" c' x'] s(3) by auto
  have a: "array_add d n s m = p' @ x'" using assms s(1) r(1) by (simp add: array_add_def)
  have "be_val d + be_val s = 256 ^ m * (be_val p + unat c') + be_val x'"
    using s(4) d by (simp add: be_val_append algebra_simps)
  moreover have "be_val x' < 256 ^ m" using be_val_less [of x'] s(2) by simp
  ultimately have "(be_val d + be_val s) mod (256 ^ m * 256 ^ (n - m)) = 256 ^ m * ((be_val p + unat c') mod 256 ^ (n - m)) + be_val x'"
    by (simp only: mod_mult2_eq) simp
  then have "be_val (p' @ x') = (be_val d + be_val s) mod 256 ^ n"
    using r(3) d s(2) assms by (simp add: be_val_append algebra_simps flip: power_add)
  moreover have "length (p' @ x') = n" using r(2) d s(2) assms by simp
  ultimately show ?thesis using be_bytes_be_val [of "p' @ x'"] by (simp only: a)
qed


text \<open>Addition modulo \<open>2 ^ 440\<close> on the 55-byte string \<open>V\<close>, and \<open>Hashgen\<close> (SP 800-90A 10.1.1.4).\<close>

definition V_plus :: "byte list \<Rightarrow> nat \<Rightarrow> byte list" where
  "V_plus V x = be_bytes 55 ((be_val V + x) mod 256 ^ 55)"

definition hashgen :: "byte list \<Rightarrow> nat \<Rightarrow> byte list" where
  "hashgen V n = take n (concat (map (\<lambda>i. sha256 (V_plus V i)) [0..<(n + 31) div 32]))"

lemma length_V_plus [simp]: "length (V_plus V x) = 55"
  by (simp add: V_plus_def)

lemma V_plus_plus: "V_plus (V_plus V x) y = V_plus V (x + y)"
proof -
  have "be_val (V_plus V x) = (be_val V + x) mod 256 ^ 55"
    unfolding V_plus_def by (rule be_val_be_bytes, rule mod_less_divisor) (rule zero_less_power, simp)
  then show ?thesis unfolding V_plus_def [of _ y] V_plus_def [of V "x + y"]
    by (simp only: mod_add_left_eq add.assoc)
qed

lemma V_plus_0: "length V = 55 \<Longrightarrow> V_plus V 0 = V"
  using be_val_less [of V] be_bytes_be_val [of V] by (simp only: V_plus_def add_0_right mod_less)

lemma array_add_one_V: "length V = 55 \<Longrightarrow> array_add_one V 55 = V_plus V 1"
  unfolding V_plus_def by (rule array_add_one_val)

lemma array_add_V: "\<lbrakk>length V = 55; length s = m; 0 < m; m \<le> 55\<rbrakk> \<Longrightarrow> array_add V 55 s m = V_plus V (be_val s)"
  unfolding V_plus_def by (rule array_add_val)

lemma clean_Hash_gen_block:
  assumes "length data = 55"
  shows "clean wiped 0 h (Hash_gen_block data dgst) (succeeds (\<lambda>d. d = blit dgst 0 (sha256 data)))"
  unfolding Hash_gen_block_def wc_InitSha256_ex_def Let_def prod.case
  apply (simp only: simp_thms if_True)
  apply (rule clean_chain [OF clean_wc_Sha256Update [OF sha_rep_Init]])
    apply (simp add: assms)
   apply (simp add: clean_fail)
  apply (simp only: prod.case if_True simp_thms)
  apply (rule clean_map2 [OF clean_wc_Sha256Final], assumption)
  apply (simp add: assms)
  done

lemma clean_Hash_gen_loop:
  fixes h :: "'w env"
  assumes V: "length V = 55"
  defines "B \<equiv> \<lambda>i. sha256 (V_plus V i)"
  shows "\<lbrakk>left \<le> 32 * n; 32 * n < left + 32; pos + left \<le> length out; length dgst = 32; n = 0 \<longrightarrow> r = 0\<rbrakk> \<Longrightarrow>
    clean wiped 0 h (Hash_gen_loop n r (V_plus V k) dgst left pos (Some out))
      (succeeds (\<lambda>(data', dgst', out'). length data' = 55 \<and> length dgst' = 32 \<and>
         out' = Some (blit out pos (take left (concat (map B [k..<k + n]))))))"
proof (induction n arbitrary: k left pos out dgst r h)
  case 0
  then show ?case by (simp add: clean_ret)
next
  case (Suc n)
  have lB: "length (B i) = 32" for i by (simp add: B_def)
  have blk: "clean wiped 0 h (Hash_gen_block (V_plus V k) dgst) (succeeds (\<lambda>d. d = B k))"
    using clean_Hash_gen_block [of "V_plus V k" h dgst] Suc.prems(4) by (simp add: B_def)
  have nz: "left \<noteq> 0" using Suc.prems by auto
  show ?case
  proof (cases "left \<ge> 32")
    case True
    have up: "[k..<k + Suc n] = k # [Suc k..<Suc k + n]" by (simp add: upt_conv_Cons)
    let ?rest = "concat (map B [Suc k..<Suc k + n])"
    have e: "array_add_one (V_plus V k) 55 = V_plus V (Suc k)" by (simp add: array_add_one_V V_plus_plus)
    have "blit (blit out pos (take 32 (B k))) (pos + 32) (take (left - 32) ?rest) =
        blit out pos (take left (concat (map B [k..<k + Suc n])))"
      using True Suc.prems(3) lB [of k] by (simp only: up list.map concat.simps take_append) (simp add: blit_chain)
    then have IH: "clean wiped 0 h' (Hash_gen_loop n 0 (array_add_one (V_plus V k) 55) (B k) (left - 32)
        (pos + 32) (Some (blit out pos (take 32 (B k)))))
      (succeeds (\<lambda>(data', dgst', out'). length data' = 55 \<and> length dgst' = 32 \<and>
         out' = Some (blit out pos (take left (concat (map B [k..<k + Suc n]))))))" for h' :: "'w env"
      unfolding e using Suc.IH [of "left - 32" "pos + 32" "blit out pos (take 32 (B k))" "B k" 0 h' "Suc k"]
        Suc.prems True lB by simp
    show ?thesis
      unfolding Hash_gen_loop.simps
      apply (rule clean_chain [OF blk])
       apply (simp add: clean_fail)
      apply (simp only: prod.case option.case simp_thms if_False if_True OUTPUT_BLOCK_LEN_def DRBG_SEED_LEN_def True nz)
      apply (rule IH)
      done
  next
    case False
    then have n: "n = 0" using Suc.prems(2) by simp
    show ?thesis
      unfolding Hash_gen_loop.simps n
      apply (rule clean_chain [OF blk])
       apply (simp add: clean_fail)
      using False nz lB by (simp add: clean_ret)
  qed
qed

lemma clean_Hash_gen:
  fixes h :: "'w env"
  assumes n: "0 < n" "n \<le> length out" and V: "length V = 55"
  shows "clean (\<lambda>_. True) 0 h (Hash_gen (Some out) n V)
    (drbg_result (alloc_ok h) (\<lambda>out'. out' = Some (blit out 0 (hashgen V n))))"
proof -
  let ?len = "(n + 31) div 32"
  note bd = df_block_bounds [OF n(1)]
  have loop: "clean wiped 0 h' (Hash_gen_loop ?len DRBG_FAILURE V (zeros 32) n 0 (Some out))
      (succeeds (\<lambda>(data', dgst', out'). length data' = 55 \<and> length dgst' = 32 \<and>
         out' = Some (blit out 0 (hashgen V n))))" for h' :: "'w env"
    using clean_Hash_gen_loop [OF V, of n ?len 0 out "zeros 32" DRBG_FAILURE h' 0] n bd V_plus_0 [OF V]
    by (auto simp: hashgen_def)
  note loop' = clean_mono [OF loop, of "\<lambda>_. True"]
  show ?thesis
    unfolding Hash_gen_def Let_def OUTPUT_BLOCK_LEN_def df_blocks
    apply (rule clean_malloc_eq)
     apply (rule clean_malloc_eq)
      using n V apply (simp only: simp_thms if_False DRBG_SEED_LEN_def take_all order_refl less_not_refl2)
      apply (rule clean_bind_eq [OF loop'], simp)
       apply (auto simp: drbg_result_def rc_defs intro!: clean_free clean_ret clean_malloc)
    done
qed

text \<open>Generate (SP 800-90A 10.1.1.4): the state \<open>V\<close> the output is drawn from, and the next state.\<close>

definition drbg_V0 :: "DRBG_internal \<Rightarrow> byte list \<Rightarrow> byte list" where
  "drbg_V0 d add = (if add = [] then drbg_V d else V_plus (drbg_V d) (be_val (sha256 (2 # drbg_V d @ add))))"

definition drbg_next :: "DRBG_internal \<Rightarrow> byte list \<Rightarrow> DRBG_internal" where
  "drbg_next d V = d\<lparr>drbg_V := V_plus V (be_val (sha256 (3 # V)) + be_val (drbg_C d) + unat (reseedCtr d)),
     reseedCtr := reseedCtr d + 1\<rparr>"

lemma ByteReverseWord64_bytes: "bytes_of_word64 (ByteReverseWord64 c) = rev (bytes_of_word64 c)"
proof (rule nth_equalityI)
  fix i assume "i < length (bytes_of_word64 (ByteReverseWord64 c))"
  then have i: "i < 8" by simp
  show "bytes_of_word64 (ByteReverseWord64 c) ! i = rev (bytes_of_word64 c) ! i"
  proof (rule bit_word_eqI)
    fix r assume "r < LENGTH(8)"
    then show "bit (bytes_of_word64 (ByteReverseWord64 c) ! i) r = bit (rev (bytes_of_word64 c) ! i) r"
      using i ByteReverseWord64_bit [of i r c] nth_upt [of 0 "7 - i" 8]
      by (simp add: rev_nth bytes_of_word64_def bit_simps)
  qed
qed simp

lemma nth_le_bytes: "i < n \<Longrightarrow> le_bytes n v ! i = word_of_nat (v div 256 ^ i)"
proof (induction n arbitrary: v i)
  case (Suc n)
  then show ?case by (cases i) (simp_all add: div_mult2_eq)
qed simp

lemma bytes_of_word64_le: "bytes_of_word64 c = le_bytes 8 (unat c)"
proof (rule nth_equalityI)
  fix i assume "i < length (bytes_of_word64 c)"
  moreover have "(ucast (drop_bit (8 * i) c) :: byte) = word_of_nat (unat c div 256 ^ i)"
  proof -
    have *: "unat (drop_bit (8 * i) c) = unat c div 256 ^ i"
      using unsigned_less [of c, where ?'a = nat]
      by (simp only: unsigned_drop_bit_eq drop_bit_eq_div [where ?'a = nat] power_mult) (simp add: take_bit_nat_eq_self)
    show ?thesis by (rule trans [OF of_nat_unat [symmetric] arg_cong [OF *, where f = of_nat]])
  qed
  ultimately show "bytes_of_word64 c ! i = le_bytes 8 (unat c) ! i"
    by (simp add: bytes_of_word64_def nth_le_bytes)
qed simp

lemma be_val_ctr: "be_val (bytes_of_word64 (ByteReverseWord64 c)) = unat c"
proof -
  have "unat c < 256 ^ 8" using unsigned_less [of c, where ?'a = nat] by simp
  from be_val_be_bytes [OF this] show ?thesis
    by (simp only: ByteReverseWord64_bytes be_bytes_def bytes_of_word64_le [of c])
qed

lemma drbg_commit_next: "drbg_ok d \<Longrightarrow> length V = 55 \<Longrightarrow> drbg_commit d V (sha256 (3 # V)) = drbg_next d V"
  by (simp add: drbg_commit_def drbg_next_def drbg_ok_def array_add_V V_plus_plus be_val_ctr Let_def)

lemma clean_Hash_type_V:
  assumes V: "length V = 55" and add: "csize add < 2 ^ 32" "type = drbgGenerateW \<longrightarrow> \<not> is_null add"
  shows "clean wiped 0 h (Hash_type_V type V add dgst)
    (succeeds (\<lambda>d. d = blit dgst 0 (sha256 (type # V @ (if type = drbgGenerateW then cbytes add else [])))))"
proof -
  have opt: "clean wiped 0 h' (if 0 = (0 :: int) \<and> type = drbgGenerateW then wc_Sha256Update s add else ret (0, s))
      (succeeds (\<lambda>s'. sha_rep s' (m @ (if type = drbgGenerateW then cbytes add else []))))"
    if "sha_rep s m" for s m and h' :: "'a env"
  proof (cases add)
    case (Buf b)
    have "length b < 2 ^ 32" using add(1) Buf by simp
    from clean_if_Update [OF that this, of h' "type = drbgGenerateW"] show ?thesis
      unfolding Buf cbytes.simps by (simp only: simp_thms)
  qed (use add(2) that in \<open>simp add: clean_ret\<close>)
  show ?thesis
    unfolding Hash_type_V_def wc_InitSha256_ex_def Let_def prod.case
    apply (simp only: simp_thms if_True)
    apply (rule clean_chain [OF clean_wc_Sha256Update [OF sha_rep_Init]], simp, simp add: clean_fail)
    apply (simp only: prod.case if_True simp_thms)
    apply (rule clean_chain [OF clean_wc_Sha256Update], assumption, simp add: V, simp add: clean_fail)
    apply (simp only: prod.case)
    apply (rule clean_chain [OF opt], assumption, simp add: clean_fail)
    apply (simp only: prod.case if_True simp_thms)
    apply (rule clean_map2 [OF clean_wc_Sha256Final], assumption)
    apply (simp add: V)
    done
qed

lemma clean_Generate_from:
  fixes h :: "'w env"
  assumes n: "0 < n" "n \<le> length out" and V: "length V = 55" and d: "drbg_ok d" and l: "length dgst = 32"
  shows "clean (\<lambda>_. True) (if shadow then - 2 else - 1) h (Generate_from d out n V dgst shadow)
    (drbg_result (alloc_ok h) (\<lambda>x. x = (drbg_next d V, blit out 0 (hashgen V n))))"
proof -
  have t: "clean (\<lambda>_. True) 0 h' (Hash_type_V drbgGenerateH V (Null 0) dgst) (succeeds (\<lambda>d. d = sha256 (3 # V)))" for h' :: "'w env"
    by (rule clean_conseq [OF clean_mono [OF clean_Hash_type_V [OF V, of "Null 0" drbgGenerateH h' dgst]]]) (use l in auto)
  show ?thesis
    unfolding Generate_from_def
    apply (rule clean_drbg_bind [OF clean_Hash_gen [OF n V]])
     apply (auto simp: drbg_result_def intro!: clean_free clean_ret) []
    apply (simp only: prod.case simp_thms if_True DRBG_SUCCESS_def)
    apply (rule clean_bind_eq [OF t])
    by (auto simp: drbg_result_def rc_defs drbg_commit_next [OF d V] intro!: clean_free clean_ret)
qed

lemma clean_Hash_DRBG_Generate:
  fixes h :: "'w env"
  assumes n: "0 < n" "n \<le> length out" and d: "drbg_ok d" "reseedCtr d < WC_RESEED_INTERVAL"
    and add: "csize add < 2 ^ 32" "is_null add \<longrightarrow> csize add = 0"
  shows "clean (\<lambda>_. True) 0 h (Hash_DRBG_Generate d out n add)
    (drbg_result (alloc_ok h) (\<lambda>x. x = (drbg_next d (drbg_V0 d (cbytes add)), blit out 0 (hashgen (drbg_V0 d (cbytes add)) n))))"
proof -
  have V: "length (drbg_V d) = 55" using d by (simp add: drbg_ok_def)
  show ?thesis
  proof (cases "\<not> is_null add \<and> csize add > 0")
    case True
    then have ne: "cbytes add \<noteq> []" by (cases add) auto
    have V0: "array_add (drbg_V d) 55 (sha256 (2 # drbg_V d @ cbytes add)) 32 = drbg_V0 d (cbytes add)"
      using V ne by (simp add: drbg_V0_def array_add_V)
    have t: "clean (\<lambda>_. True) 0 h' (Hash_type_V drbgGenerateW (drbg_V d) add (zeros 32))
        (succeeds (\<lambda>x. x = sha256 (2 # drbg_V d @ cbytes add)))" for h' :: "'w env"
      by (rule clean_conseq [OF clean_mono [OF clean_Hash_type_V [OF V add(1), of drbgGenerateW h' "zeros 32"]]]) (use True in auto)
    have g: "alloc_ok h' = alloc_ok h \<Longrightarrow> clean (\<lambda>_. True) (- 2) h'
        (Generate_from d out n (drbg_V0 d (cbytes add)) (sha256 (2 # drbg_V d @ cbytes add)) True)
        (drbg_result (alloc_ok h) (\<lambda>x. x = (drbg_next d (drbg_V0 d (cbytes add)), blit out 0 (hashgen (drbg_V0 d (cbytes add)) n))))"
      for h' :: "'w env"
      using clean_Generate_from [OF n _ d(1), of "drbg_V0 d (cbytes add)" _ True h'] ne by (simp add: drbg_V0_def)
    show ?thesis
      using d(2) True unfolding Hash_DRBG_Generate_def
      apply (simp only: linorder_not_le [symmetric] if_False if_True simp_thms)
      apply (rule clean_malloc_eq)
       apply (simp only: simp_thms if_False if_True)
       apply (rule clean_malloc_eq)
        apply (simp only: simp_thms if_False WC_SHA256_DIGEST_SIZE_def DRBG_SEED_LEN_def)
        apply (rule clean_bind_eq [OF t])
         apply (simp add: V0 g)
        apply (auto simp: drbg_result_def intro!: clean_free clean_ret)
      done
  next
    case False
    then have e: "cbytes add = []" using add(2) by (cases add) auto
    have g: "clean (\<lambda>_. True) (0 - 1) h' (Generate_from d out n (drbg_V d) (zeros 32) False)
        (drbg_result (alloc_ok h') (\<lambda>x. x = (drbg_next d (drbg_V d), blit out 0 (hashgen (drbg_V d) n))))" for h' :: "'w env"
      using clean_Generate_from [OF n V d(1), of "zeros 32" False h'] by simp
    show ?thesis
      using d(2) False unfolding Hash_DRBG_Generate_def
      apply (simp only: linorder_not_le [symmetric] if_False if_True simp_thms)
      apply (rule clean_malloc_eq)
       apply (simp only: simp_thms if_False if_True WC_SHA256_DIGEST_SIZE_def e drbg_V0_def)
       apply (drule sym, simp only:)
       apply (rule g)
      apply (simp add: clean_drbg_fail)
      done
  qed
qed

end
