(* ===== verification/DrbgCorrect.thy ===== *)
theory DrbgCorrect
  imports Drbg
begin

text \<open>
  What the generator of \<open>random.c\<close> delivers: sessions of requests return the outputs of
  SP 800-90A, the seed test decides on runs of equal bytes, and building and releasing a
  \<open>WC_RNG\<close> touches nothing of the process but the system's random devices.
\<close>

section \<open>The generator is Hash_DRBG\<close>

text \<open>A session: instantiate, then one request after another, with no reseeding in between.\<close>

primrec drbg_requests :: "nat list \<Rightarrow> DRBG_internal \<Rightarrow> ('w, int \<times> byte list list) cmd" where
  "drbg_requests [] d = ret (0, [])"
| "drbg_requests (n # ns) d = do {
     (r, d', out) \<leftarrow> Hash_DRBG_Generate d (zeros n) n (Null 0);
     if r \<noteq> DRBG_SUCCESS then ret (r, [])
     else do { (r', outs) \<leftarrow> drbg_requests ns d'; ret (r', out # outs) }
   }"

definition drbg_session :: "cbuf \<Rightarrow> cbuf \<Rightarrow> cbuf \<Rightarrow> nat list \<Rightarrow> ('w, int \<times> byte list list) cmd" where
  "drbg_session seed nonce perso ns = do {
     (r, d) \<leftarrow> Hash_DRBG_Instantiate drbg_zeroed seed nonce perso;
     if r \<noteq> DRBG_SUCCESS then ret (r, []) else drbg_requests ns d
   }"

primrec drbg_outputs :: "nat list \<Rightarrow> DRBG_internal \<Rightarrow> byte list list" where
  "drbg_outputs [] d = []"
| "drbg_outputs (n # ns) d = hashgen (drbg_V d) n # drbg_outputs ns (drbg_next d (drbg_V d))"

lemma drbg_ok_next: "drbg_ok d \<Longrightarrow> drbg_ok (drbg_next d V)"
  by (simp add: drbg_ok_def drbg_next_def)

lemma ctr_next: "reseedCtr (drbg_next d V) = reseedCtr d + 1"
  by (simp add: drbg_next_def)

lemma drbg_ok_from_seed: "drbg_ok (drbg_from_seed m)"
  by (simp add: drbg_ok_def drbg_from_seed_def Let_def length_hash_df)

lemma length_hashgen: "length (hashgen V n) = n"
  using df_block_bounds [of n] by (cases "n = 0") (simp_all add: hashgen_def length_concat comp_def sum_list_triv)

lemma clean_drbg_requests:
  fixes h :: "'w env"
  shows "\<lbrakk>drbg_ok d; unat (reseedCtr d) + length ns \<le> 1000000; list_all (\<lambda>n. 0 < n) ns\<rbrakk> \<Longrightarrow>
    clean (\<lambda>_. True) 0 h (drbg_requests ns d) (drbg_result (alloc_ok h) (\<lambda>outs. outs = drbg_outputs ns d))"
proof (induction ns arbitrary: d h)
  case (Cons n ns)
  have c: "reseedCtr d < WC_RESEED_INTERVAL" using Cons.prems(2) by (simp add: word_less_nat_alt)
  have u: "unat (reseedCtr d + 1) = unat (reseedCtr d) + 1"
    using Cons.prems(2) by (simp add: unat_word_ariths)
  have g: "clean (\<lambda>_. True) 0 h' (Hash_DRBG_Generate d (zeros n) n (Null 0))
      (drbg_result (alloc_ok h') (\<lambda>x. x = (drbg_next d (drbg_V d), hashgen (drbg_V d) n)))" for h' :: "'w env"
    using clean_Hash_DRBG_Generate [of n "zeros n" d "Null 0" h'] Cons.prems c by (simp add: drbg_V0_def length_hashgen)
  have IH: "clean (\<lambda>_. True) 0 h' (drbg_requests ns (drbg_next d (drbg_V d)))
      (drbg_result (alloc_ok h') (\<lambda>outs. outs = drbg_outputs ns (drbg_next d (drbg_V d))))" for h' :: "'w env"
    by (rule Cons.IH) (use Cons.prems u in \<open>simp_all add: drbg_ok_next ctr_next\<close>)
  show ?case
    unfolding drbg_requests.simps
    apply (rule clean_drbg_bind [OF g])
     apply (simp add: clean_drbg_pass split: prod.split)
    apply (simp only: prod.case simp_thms if_False DRBG_SUCCESS_def)
    apply (rule clean_drbg_bind [OF IH])
     apply (simp add: clean_drbg_pass)
    apply (simp add: clean_drbg_ret)
    done
qed (simp add: clean_drbg_ret)

lemma clean_drbg_session:
  fixes h :: "'w env"
  assumes "length seed < 2 ^ 32" "csize nonce < 2 ^ 32" "csize perso < 2 ^ 32"
    and "length ns < 1000000" "list_all (\<lambda>n. 0 < n) ns"
  shows "clean (\<lambda>_. True) 0 h (drbg_session (Buf seed) nonce perso ns)
    (drbg_result (alloc_ok h) (\<lambda>outs. outs = drbg_outputs ns (drbg_from_seed (seed @ cbytes nonce @ cbytes perso))))"
proof -
  let ?d = "drbg_from_seed (seed @ cbytes nonce @ cbytes perso)"
  have r: "clean (\<lambda>_. True) 0 h' (drbg_requests ns ?d) (drbg_result (alloc_ok h') (\<lambda>outs. outs = drbg_outputs ns ?d))"
    for h' :: "'w env"
    by (rule clean_drbg_requests) (use assms(4,5) drbg_ok_from_seed in \<open>simp_all add: drbg_from_seed_def Let_def\<close>)
  show ?thesis
    unfolding drbg_session_def
    apply (rule clean_drbg_bind [OF clean_Hash_DRBG_Instantiate [OF assms(1-3)]])
     apply (simp add: clean_drbg_pass)
    apply (simp only: prod.case simp_thms if_False DRBG_SUCCESS_def)
    apply (metis r)
    done
qed

text \<open>C22: The generator is the \<open>Hash_DRBG\<close> of SP 800-90A 10.1.1 with SHA-256: when memory is
  available, instantiating from a seed, a nonce and a personalisation string and serving any
  list of requests of at least one byte each, below the reseed interval (here from \<open>Hash_DRBG_Instantiate\<close>,
  \<open>Hash_DRBG_Generate\<close>, \<open>Hash_df\<close>, \<open>Hash_gen\<close>, \<open>array_add\<close>) returns the outputs of
  the standard, where \<open>V\<close> is a 440-bit number advanced by \<open>H + C + reseed_counter\<close> after each
  request, and every temporary allocation is released.\<close>

theorem drbg_session_correct:
  assumes "length seed < 2 ^ 32" "csize nonce < 2 ^ 32" "csize perso < 2 ^ 32"
    and "length ns < 1000000" "list_all (\<lambda>n. 0 < n) ns"
  shows "\<exists>h'. run_state (drbg_session (Buf seed) nonce perso ns) (env0 w) =
      ((0, drbg_outputs ns (drbg_from_seed (seed @ cbytes nonce @ cbytes perso))), h') \<and> hp_live h' = 0"
  using clean_env0 [OF clean_drbg_session [OF assms, where h = "env0 w"]]
  by (auto simp: drbg_result_def alloc_ok_def env0_def)

theorem drbg_session_correct_witness:
  "\<exists>h'. run_state (drbg_session (Buf (replicate 48 7)) (Null 0) (Buf [1, 2]) [16, 40]) (env0 ()) =
      ((0, drbg_outputs [16, 40] (drbg_from_seed (replicate 48 7 @ [1, 2]))), h') \<and> hp_live h' = 0"
  using drbg_session_correct [of "replicate 48 7" "Null 0" "Buf [1, 2]" "[16, 40]" "()"] by (simp del: drbg_outputs.simps)

section \<open>What the seed test decides\<close>

text \<open>31 equal bytes in a row, the cutoff of the repetition count test.\<close>

definition has_run :: "byte list \<Rightarrow> bool" where
  "has_run s \<longleftrightarrow> (\<exists>p b q. s = p @ replicate 31 b @ q)"

lemma takeWhile_replicate: "n \<le> length (takeWhile (\<lambda>x. x = b) xs) \<longleftrightarrow> (\<exists>q. xs = replicate n b @ q)"
proof (induction n arbitrary: xs)
  case (Suc n)
  show ?case
  proof (cases xs)
    case (Cons x ys)
    then show ?thesis using Suc.IH [of ys] by auto
  qed simp
qed simp

lemma has_run_snoc:
  "has_run (p @ [b]) \<longleftrightarrow> has_run p \<or> 31 \<le> length (takeWhile (\<lambda>x. x = b) (rev (p @ [b])))"
proof
  assume "has_run (p @ [b])"
  then obtain u c v where s: "p @ [b] = u @ replicate 31 c @ v" by (auto simp: has_run_def)
  show "has_run p \<or> 31 \<le> length (takeWhile (\<lambda>x. x = b) (rev (p @ [b])))"
  proof (cases v rule: rev_cases)
    case Nil
    have "last (p @ [b]) = last (u @ replicate 31 c)" using s Nil by (simp only: append_Nil2)
    then have "b = c" by (simp only: last_snoc last_appendR replicate_empty last_replicate)
    moreover have "rev (p @ [b]) = replicate 31 c @ rev u" using s Nil by simp
    ultimately show ?thesis using takeWhile_replicate [of 31 b "rev (p @ [b])"] by blast
  next
    case (snoc v' x)
    then have "p = u @ replicate 31 c @ v'" using s by simp
    then show ?thesis unfolding has_run_def by blast
  qed
next
  assume "has_run p \<or> 31 \<le> length (takeWhile (\<lambda>x. x = b) (rev (p @ [b])))"
  then show "has_run (p @ [b])"
  proof
    assume "has_run p"
    then obtain u c v where "p = u @ replicate 31 c @ v" by (auto simp: has_run_def)
    then have "p @ [b] = u @ replicate 31 c @ (v @ [b])" by simp
    then show ?thesis unfolding has_run_def by blast
  next
    assume "31 \<le> length (takeWhile (\<lambda>x. x = b) (rev (p @ [b])))"
    then obtain q where "rev (p @ [b]) = replicate 31 b @ q"
      unfolding takeWhile_replicate [of 31 b "rev (p @ [b])"] by (rule exE)
    then have "p @ [b] = rev (replicate 31 b @ q)" by (rule rev_swap [THEN iffD1])
    also have "\<dots> = rev q @ replicate 31 b @ []" by (simp only: rev_append rev_replicate append_Nil2)
    finally have "p @ [b] = rev q @ replicate 31 b @ []" .
    then show ?thesis unfolding has_run_def by blast
  qed
qed

lemma rct_fold:
  "fold rct_step bs (1, a, False) =
     (int (length (takeWhile (\<lambda>x. x = last (a # bs)) (rev (a # bs)))), last (a # bs), has_run (a # bs))"
proof (induction bs rule: rev_induct)
  case Nil
  have "\<not> has_run [a]"
  proof
    assume "has_run [a]"
    then obtain p b q where "[a] = p @ replicate 31 b @ q" unfolding has_run_def by blast
    then have "length [a] = length (p @ replicate 31 b @ q)" by (simp only:)
    then show False by simp
  qed
  then show ?case by simp
next
  case (snoc b bs)
  have "has_run (a # bs @ [b]) \<longleftrightarrow> has_run (a # bs) \<or> 31 \<le> length (takeWhile (\<lambda>x. x = b) (rev ((a # bs) @ [b])))"
    using has_run_snoc [of "a # bs" b] by simp
  moreover have "takeWhile (\<lambda>x. x = b) (rev (a # bs)) = []" if "b \<noteq> last (a # bs)"
    using that by (cases bs rule: rev_cases) auto
  ultimately show ?case using snoc by (auto simp: rct_step_def Let_def)
qed

text \<open>With fewer bytes than the cutoff of the adaptive proportion test no count can reach it.\<close>

lemma apt_counts:
  fixes s :: "byte list"
  shows "\<lbrakk>length s + k < 2 ^ 16; length cnt = 256; \<forall>i < 256. unat (cnt ! i) \<le> k\<rbrakk> \<Longrightarrow>
   (let c = fold (\<lambda>b cnt. cnt[unat b := cnt ! unat b + 1]) s (cnt :: word16 list)
    in length c = 256 \<and> (\<forall>i < 256. unat (c ! i) \<le> length s + k))"
proof (induction s arbitrary: cnt k)
  case (Cons b s)
  have b: "unat b < 256" using unsigned_less [of b, where ?'a = nat] by simp
  let ?c = "cnt[unat b := cnt ! unat b + 1]"
  have "unat (cnt ! unat b + 1) \<le> Suc k"
    using Cons.prems b by (auto simp: unat_word_ariths intro: order_trans [OF mod_less_eq_dividend])
  then have "\<forall>i < 256. unat (?c ! i) \<le> Suc k"
    using Cons.prems b by (auto simp: nth_list_update intro: le_SucI)
  then show ?case using Cons.IH [of "Suc k" ?c] Cons.prems by (simp add: Let_def)
qed simp

lemma clean_wc_RNG_TestSeed:
  assumes "4 \<le> length s" "length s < 325"
  shows "clean (\<lambda>_. True) 0 h (wc_RNG_TestSeed (Buf s)) (\<lambda>r x. r = (if has_run s then ENTROPY_RT_E else 0))"
proof -
  obtain a bs where s: "s = a # bs" using assms(1) by (cases s) auto
  let ?c = "fold (\<lambda>b cnt. cnt[unat b := cnt ! unat b + 1]) s (replicate 256 (0 :: word16))"
  have "length ?c = 256" "\<forall>i < 256. unat (?c ! i) < 325"
    using apt_counts [of s 0 "replicate 256 0"] assms(2) by (auto simp: Let_def)
  then have apt: "\<not> list_ex (\<lambda>c. c \<ge> 325) ?c"
    by (auto simp: list_ex_length word_le_nat_alt linorder_not_le)
  have r: "fold rct_step (tl s) (1, hd s, False) =
      (int (length (takeWhile (\<lambda>x. x = last s) (rev s))), last s, has_run s)"
    using rct_fold [of bs a] s by simp
  have e: "csize (Buf s) = length s" "cbytes (Buf s) = s" "min (length s) 512 = length s" using assms by simp_all
  show ?thesis
    unfolding wc_RNG_TestSeed_def Let_def e r
    using assms(1) apt by (auto intro!: clean_malloc clean_free clean_ret clean_fail)
qed

text \<open>C23: The health test of a seed (\<open>wc_RNG_TestSeed\<close>) on the seeds the library draws (36 or 52
  bytes; here any from 4 to 324): when memory is available it rejects the seed with
  \<open>ENTROPY_RT_E\<close> exactly when 31 equal bytes follow one another, and accepts every other.  The
  adaptive proportion test, with its cutoff of 325, never rejects one of them.\<close>

theorem seed_test_decides:
  assumes "4 \<le> length s" "length s < 325"
  shows "\<exists>h'. run_state (wc_RNG_TestSeed (Buf s)) (env0 w) = ((if has_run s then ENTROPY_RT_E else 0, ()), h') \<and>
     hp_live h' = 0"
  using clean_env0 [OF clean_wc_RNG_TestSeed [OF assms, where h = "env0 w"]] by auto

theorem seed_test_decides_witness:
  "\<exists>h'. run_state (wc_RNG_TestSeed (Buf (replicate 36 9))) (env0 ()) =
     ((if has_run (replicate 36 9) then ENTROPY_RT_E else 0, ()), h') \<and> hp_live h' = 0"
  by (rule seed_test_decides) simp_all

section \<open>What building and releasing a generator does to the process\<close>

text \<open>The power-on test of the two instances: the second block of 128 bytes an instance gives.\<close>

definition kat_output :: "DRBG_internal \<Rightarrow> byte list" where
  "kat_output d = hashgen (drbg_V (drbg_next d (drbg_V d))) 128"

definition kat_passes :: "bool \<Rightarrow> bool" where
  "kat_passes reseed \<longleftrightarrow>
     (if reseed then kat_output (drbg_from_seed (1 # drbg_V (drbg_from_seed seedA_data) @ reseedSeedA_data)) = outputA_data
      else kat_output (drbg_from_seed seedB_data) = outputB_data)"

lemma clean_Generate_128:
  fixes h :: "'w env"
  assumes "length out = 128" "drbg_ok d" "reseedCtr d < WC_RESEED_INTERVAL"
  shows "clean (\<lambda>_. True) 0 h (Hash_DRBG_Generate d out RNG_HEALTH_TEST_CHECK_SIZE (Null 0))
    (drbg_result (alloc_ok h) (\<lambda>x. x = (drbg_next d (drbg_V d), hashgen (drbg_V d) 128)))"
  using clean_Hash_DRBG_Generate [of 128 out d "Null 0" h] assms by (simp add: drbg_V0_def length_hashgen)

lemma fold_or_zeros: "fold (\<lambda>b acc. acc OR b) (zeros n) (x :: byte) = x"
  by (induction n) (simp_all add: zeros_def)

lemma Uninstantiate_ok: "Hash_DRBG_Uninstantiate d = (0, drbg_zeroed)"
proof -
  have "bytes_of_word64 0 = zeros 8" by (simp add: bytes_of_word64_def zeros_def map_replicate_const)
  then show ?thesis by (simp add: Hash_DRBG_Uninstantiate_def drbg_zeroed_def fold_or_zeros Let_def)
qed

lemma clean_HealthTest_ex:
  fixes h :: "'w env"
  assumes "length sA < 2 ^ 32" "csize nonce < 2 ^ 32" "csize sB < 2 ^ 32" "length out = 128"
    "reseed \<longrightarrow> \<not> is_null sB"
  defines "d0 \<equiv> drbg_from_seed (sA @ cbytes nonce)"
  defines "d1 \<equiv> (if reseed then drbg_from_seed (1 # drbg_V d0 @ cbytes sB) else d0)"
  shows "clean (\<lambda>_. True) 0 h (wc_RNG_HealthTest_ex_internal d reseed nonce (Buf sA) sB out RNG_HEALTH_TEST_CHECK_SIZE)
    (drbg_result (alloc_ok h) (\<lambda>x. x = (drbg_zeroed, kat_output d1)))"
proof -
  have ok: "drbg_ok d0" "drbg_ok d1" "reseedCtr d1 = 1" by (simp_all add: d0_def d1_def drbg_ok_from_seed) (simp_all add: drbg_from_seed_def Let_def)
  have inst: "clean (\<lambda>_. True) 0 h' (Hash_DRBG_Instantiate d (Buf sA) nonce (Null 0)) (drbg_result (alloc_ok h') (\<lambda>x. x = d0))" for h' :: "'w env"
    using clean_Hash_DRBG_Instantiate [OF assms(1,2), of "Null 0" h' d] by (simp add: d0_def)
  have res: "clean (\<lambda>_. True) 0 h' (if 0 = (0 :: int) \<and> reseed then Hash256_DRBG_Reseed d0 sB (Null 0) else ret (0, d0))
      (drbg_result (alloc_ok h') (\<lambda>x. x = d1))" for h' :: "'w env"
    using clean_Hash256_DRBG_Reseed [OF assms(3) _ ok(1), of "Null 0" h'] by (simp add: d1_def clean_drbg_ret)
  have g1: "clean (\<lambda>_. True) 0 h' (Hash_DRBG_Generate d1 out RNG_HEALTH_TEST_CHECK_SIZE (Null 0))
      (drbg_result (alloc_ok h') (\<lambda>x. x = (drbg_next d1 (drbg_V d1), hashgen (drbg_V d1) 128)))" for h' :: "'w env"
    by (rule clean_Generate_128) (simp_all add: ok assms(4))
  have g2: "clean (\<lambda>_. True) 0 h' (Hash_DRBG_Generate (drbg_next d1 (drbg_V d1)) (hashgen (drbg_V d1) 128) RNG_HEALTH_TEST_CHECK_SIZE (Null 0))
      (drbg_result (alloc_ok h') (\<lambda>x. snd x = kat_output d1))" for h' :: "'w env"
    by (rule clean_conseq [OF clean_Generate_128])
       (auto simp: ok drbg_ok_next ctr_next length_hashgen kat_output_def drbg_result_def)
  show ?thesis
    unfolding wc_RNG_HealthTest_ex_internal_def Uninstantiate_ok Let_def prod.case
    apply (simp only: is_null.simps simp_thms if_False assms(5) not_True_eq_False)
    apply (subgoal_tac "\<not> (reseed \<and> is_null sB)")
     apply (simp only: if_False)
     apply (rule clean_drbg_bind [OF inst])
      apply (simp add: clean_drbg_fail)
     apply (simp only: prod.case)
     apply (rule clean_drbg_bind [OF res])
      apply (simp add: clean_drbg_fail)
     apply (simp only: prod.case simp_thms if_True)
     apply (rule clean_drbg_bind [OF g1])
      apply (simp add: clean_drbg_fail split: prod.splits)
     apply (simp only: prod.case simp_thms if_True)
     apply (rule clean_drbg_bind [OF g2])
      apply (simp add: clean_drbg_fail split: prod.splits)
     apply (auto intro!: clean_drbg_ret split: prod.splits) []
    using assms(5) by blast
qed

lemma compare_output: "length a = n \<Longrightarrow> length b = n \<Longrightarrow> (ConstantCompare a b (int n) \<noteq> 0) = (a \<noteq> b)"
  by (simp add: ConstantCompare_def compare_loop_0_iff)

lemma kat_lengths: "length (kat_output d) = 128" "length outputA_data = 128" "length outputB_data = 128"
  by (simp add: kat_output_def length_hashgen) (simp_all add: outputA_data_def outputB_data_def)

lemma clean_HealthTestLocal:
  fixes h :: "'w env"
  shows "clean (\<lambda>_. True) 0 h (wc_RNG_HealthTestLocal reseed)
    (\<lambda>r x. r = (if kat_passes reseed then 0 else DRBG_CONT_FAILURE) \<or> r \<noteq> 0 \<and> \<not> alloc_ok h)"
proof -
  let ?dA = "drbg_from_seed (1 # drbg_V (drbg_from_seed seedA_data) @ reseedSeedA_data)"
  let ?dB = "drbg_from_seed seedB_data"
  have lens: "length seedA_data = 48" "length reseedSeedA_data = 32" "length seedB_data = 48"
    by (simp_all add: seedA_data_def reseedSeedA_data_def seedB_data_def)
  note ex = clean_HealthTest_ex [where ?'w = 'w]
  have A: "clean (\<lambda>_. True) 0 h' (wc_RNG_HealthTest_ex_internal drbg_zeroed True (Null 0) (Buf seedA_data)
       (Buf reseedSeedA_data) (zeros 128) RNG_HEALTH_TEST_CHECK_SIZE) (drbg_result (alloc_ok h') (\<lambda>x. x = (drbg_zeroed, kat_output ?dA)))"
    for h' :: "'w env"
    using ex [of seedA_data "Null 0" "Buf reseedSeedA_data" "zeros 128" True h' drbg_zeroed] by (simp add: lens)
  have B: "length out = 128 \<Longrightarrow> clean (\<lambda>_. True) 0 h' (wc_RNG_HealthTest_ex_internal d False (Null 0) (Buf seedB_data)
       (Null 0) out RNG_HEALTH_TEST_CHECK_SIZE) (drbg_result (alloc_ok h') (\<lambda>x. x = (drbg_zeroed, kat_output ?dB)))"
    "length out = 128 \<Longrightarrow> clean (\<lambda>_. True) 0 h' (wc_RNG_HealthTest_ex_internal d False (Buf (drop 32 seedB_data))
       (Buf (take 32 seedB_data)) (Null 0) out RNG_HEALTH_TEST_CHECK_SIZE)
       (drbg_result (alloc_ok h') (\<lambda>x. x = (drbg_zeroed, kat_output ?dB)))" for h' :: "'w env" and d out
    using ex [of seedB_data "Null 0" "Null 0" out False h' d]
      ex [of "take 32 seedB_data" "Buf (drop 32 seedB_data)" "Null 0" out False h' d] by (simp_all add: lens)
  note cmp = compare_output [OF kat_lengths(1,2)] compare_output [OF kat_lengths(1,3)] compare_output [OF kat_lengths(3,3)]
  have bA: "clean (\<lambda>_. True) 0 h' (do {
        (r, d, check) \<leftarrow> wc_RNG_HealthTest_ex_internal drbg_zeroed True (Null 0) (Buf seedA_data)
           (Buf reseedSeedA_data) (zeros 128) RNG_HEALTH_TEST_CHECK_SIZE;
        ret (if r = 0 \<and> ConstantCompare check outputA_data (int RNG_HEALTH_TEST_CHECK_SIZE) \<noteq> 0
             then DRBG_CONT_FAILURE else r, d, check) })
      (\<lambda>r x. r = (if kat_passes True then 0 else DRBG_CONT_FAILURE) \<or> r \<noteq> 0 \<and> \<not> alloc_ok h')" for h' :: "'w env"
    by (rule clean_drbg_bind [OF A]) (auto simp: cmp [simplified] kat_passes_def intro!: clean_ret split: prod.split)
  have bB: "clean (\<lambda>_. True) 0 h' (do {
        (r1, d1, check1) \<leftarrow> wc_RNG_HealthTest_ex_internal drbg_zeroed False (Null 0) (Buf seedB_data)
           (Null 0) (zeros 128) RNG_HEALTH_TEST_CHECK_SIZE;
        let r2 = (if r1 \<noteq> 0 then r1
                  else if ConstantCompare check1 outputB_data (int RNG_HEALTH_TEST_CHECK_SIZE) \<noteq> 0
                  then DRBG_CONT_FAILURE else 0);
        if r2 = 0 then do {
          (r3, d3, check3) \<leftarrow> wc_RNG_HealthTest_ex_internal d1 False (Buf (drop 32 seedB_data))
             (Buf (take 32 seedB_data)) (Null 0) check1 RNG_HEALTH_TEST_CHECK_SIZE;
          ret (if r3 = 0 \<and> ConstantCompare check3 outputB_data (int (length outputB_data)) \<noteq> 0
               then DRBG_CONT_FAILURE else r3, d3, check3)
        }
        else ret (r2, d1, check1) })
      (\<lambda>r x. r = (if kat_passes False then 0 else DRBG_CONT_FAILURE) \<or> r \<noteq> 0 \<and> \<not> alloc_ok h')" for h' :: "'w env"
    apply (rule clean_drbg_bind [OF B(1)])
      apply simp
     apply (auto intro!: clean_ret split: prod.split) []
    apply (cases "kat_passes False")
     apply (simp add: cmp [simplified] kat_passes_def kat_lengths)
     apply (rule clean_drbg_bind [OF B(2) [unfolded RNG_HEALTH_TEST_CHECK_SIZE_def]])
       apply (auto simp: cmp [simplified] kat_lengths intro!: clean_ret split: prod.split) [3]
    apply (simp add: cmp [simplified] kat_passes_def clean_ret)
    done
  show ?thesis
    unfolding wc_RNG_HealthTestLocal_def free_drbg_def
    apply (rule clean_malloc_eq)
     apply (simp only: simp_thms if_False)
     apply (rule clean_malloc_eq)
      apply (simp only: simp_thms if_False Let_def [of "zeros 128"] RNG_HEALTH_TEST_CHECK_SIZE_def)
      apply (cases reseed)
       apply (simp only: if_True)
       apply (rule clean_bind_eq [OF bA [unfolded RNG_HEALTH_TEST_CHECK_SIZE_def]])
        apply (auto intro!: clean_free clean_ret) [2]
      apply (simp only: if_False)
      apply (rule clean_bind_eq [OF bB [unfolded RNG_HEALTH_TEST_CHECK_SIZE_def]])
       apply (auto intro!: clean_free clean_ret simp: clean_fail)
    done
qed

text \<open>Commands that may allocate, release and read the random devices, and change nothing else.\<close>

definition moved :: "('z rng_world_scheme) env \<Rightarrow> ('z rng_world_scheme) env \<Rightarrow> int \<Rightarrow> bool" where
  "moved h h' d \<longleftrightarrow> hframe (\<lambda>_. True) d h h' \<and> (\<exists>t. world h' = (world h)\<lparr>os_time := t\<rparr>)"

definition moves ::
  "('a \<Rightarrow> int) \<Rightarrow> ('z rng_world_scheme) env \<Rightarrow> ('z rng_world_scheme, 'a) cmd \<Rightarrow> ('a \<Rightarrow> bool) \<Rightarrow> bool" where
  "moves d h m P \<longleftrightarrow> wp m (\<lambda>x h'. moved h h' (d x) \<and> P x) h"

lemma moved_refl [simp]: "moved h h 0"
  by (simp add: moved_def) (metis rng_world.surjective rng_world.update_convs(3))

lemma moved_trans: "moved h h' d \<Longrightarrow> moved h' h'' e \<Longrightarrow> moved h h'' (d + e)"
  by (auto simp: moved_def intro: hframe_trans)

lemma moved_alloc_ok: "moved h h' d \<Longrightarrow> alloc_ok h' = alloc_ok h"
  by (auto simp: moved_def dest: hframe_alloc_ok)

lemma moves_ret: "d x = 0 \<Longrightarrow> P x \<Longrightarrow> moves d h (ret x) P"
  by (simp add: moves_def)

lemma moves_bind:
  assumes m: "moves e h m P" and f: "\<And>x h'. P x \<Longrightarrow> moves (\<lambda>y. d y - e x) h' (f x) Q"
  shows "moves d h (State_Monad.bind m f) Q"
  unfolding moves_def wp_bind
proof (rule wp_conseq [OF m [unfolded moves_def]])
  fix x h' assume x: "moved h h' (e x) \<and> P x"
  show "wp (f x) (\<lambda>y h''. moved h h'' (d y) \<and> Q y) h'"
    using f [of x h'] x moved_trans [of h h' "e x"]
    by (fastforce simp: moves_def elim!: wp_conseq)
qed

lemma moves_conseq: "moves d h m P \<Longrightarrow> (\<And>x. P x \<Longrightarrow> Q x \<and> d x = e x) \<Longrightarrow> moves e h m Q"
  unfolding moves_def by (erule wp_conseq) auto

lemma moves_malloc: "moves (\<lambda>ok. if ok then 1 else 0) h XMALLOC (\<lambda>_. True)"
  unfolding moves_def moved_def
  by (auto simp: hframe_def) (metis rng_world.surjective rng_world.update_convs(3))+

lemma moves_free: "moves (\<lambda>_. - 1) h (XFREE b) (\<lambda>_. True)"
  unfolding moves_def moved_def
  by (auto simp: hframe_def) (metis rng_world.surjective rng_world.update_convs(3))+

lemma moves_clean: "clean Z 0 h m Q \<Longrightarrow> moves (\<lambda>_. 0) h m (\<lambda>(r, x). Q r x \<or> r = MEMORY_E)"
  unfolding moves_def moved_def clean_def
  by (erule wp_conseq)
     (auto simp: frame_hframe intro: hframe_mono, (metis rng_world.surjective rng_world.update_convs(3))+)

lemma moves_open: "moves (\<lambda>_. 0) h (open_dev p) (\<lambda>_. True)"
  unfolding moves_def moved_def open_dev_def wp_on_world by (auto simp: hframe_def wp_def)

lemma moves_read: "moves (\<lambda>_. 0) h (read_dev n) (\<lambda>bs. \<forall>b. bs = Some b \<longrightarrow> length b \<le> n)"
  unfolding moves_def moved_def read_dev_def wp_on_world
  by (auto simp: hframe_def wp_def split: option.splits if_splits)

lemma moves_GenerateSeed:
  "sz \<le> length out \<Longrightarrow> moves (\<lambda>_. 0) h (wc_GenerateSeed out sz) (\<lambda>(r, s). length s = length out)"
  unfolding wc_GenerateSeed_def
  apply (rule moves_bind [OF moves_open])
  apply (rule moves_bind [where P = "\<lambda>_. True" and e = "\<lambda>_. 0"])
   apply (auto intro: moves_ret moves_open)
  apply (rule moves_bind [OF moves_read])
  apply (auto intro!: moves_ret split: option.splits)
  done

lemma moves_InitRng_seed:
  fixes h :: "('z rng_world_scheme) env"
  assumes sz: "csize nonce < 2 ^ 32" "csize perso < 2 ^ 32" and n: "4 \<le> n" "n \<le> 52"
  shows "moves (\<lambda>_. - 1) h (InitRng_seed nonce perso n d) (\<lambda>_. True)"
proof -
  have seed: "moves (\<lambda>_. 0) g (wc_GenerateSeed (zeros MAX_SEED_SZ) n) (\<lambda>(r, s). length s = 52)"
    for g :: "('z rng_world_scheme) env"
    using moves_GenerateSeed [of n "zeros 52" g] n by simp
  have test: "moves (\<lambda>_. 0) g (if r1 \<noteq> (0 :: int) then ret (DRBG_FAILURE, ()) else wc_RNG_TestSeed (Buf (take n s))) (\<lambda>_. True)"
    if "length s = 52" for r1 s and g :: "('z rng_world_scheme) env"
    using clean_wc_RNG_TestSeed [of "take n s" g] that n by (auto intro: moves_ret moves_conseq [OF moves_clean])
  have inst: "moves (\<lambda>_. 0) g (if r2 = DRBG_SUCCESS then Hash_DRBG_Instantiate d (Buf (drop SEED_BLOCK_SZ (take n s))) nonce perso
      else ret (r2, d)) (\<lambda>_. True)"
    if "length s = 52" for r2 s and g :: "('z rng_world_scheme) env"
  proof -
    have "length (drop SEED_BLOCK_SZ (take n s)) < 2 ^ 32" using that by simp
    from moves_clean [OF clean_Hash_DRBG_Instantiate [OF this sz], of g d]
    show ?thesis by (auto intro: moves_ret elim: moves_conseq)
  qed
  show ?thesis
    unfolding InitRng_seed_def
    apply (rule moves_bind [OF seed])
    apply (clarsimp simp only: prod.case split: prod.split)
    apply (rule moves_bind [OF test], assumption)
    apply (clarsimp simp only: prod.case split: prod.split)
    apply (rule moves_bind [OF inst], assumption)
    apply (clarsimp simp only: prod.case split: prod.split)
    apply (rule moves_bind [OF moves_free])
    apply (simp add: moves_ret)
    done
qed

lemma InitRng_code_0: "InitRng_code r = 0 \<longleftrightarrow> r = 0"
  by (simp add: InitRng_code_def rc_defs)

lemma moves_free_if: "moves (\<lambda>_. if c then - 1 else 0) h (if c then XFREE b else ret ()) (\<lambda>_. True)"
  by (auto intro: moves_ret moves_conseq [OF moves_free])

lemma moves_InitRng:
  fixes h :: "('z rng_world_scheme) env"
  assumes sz: "csize nonce < 2 ^ 32"
  shows "moves (\<lambda>(r, rng). if r = 0 then 1 else 0) h (InitRng nonce (Null 0) 0) (\<lambda>(r, rng). r = 0 \<longrightarrow> rng_drbg rng \<noteq> None)"
proof -
  have s: "moves (\<lambda>_. 0) g (State (\<lambda>h. (sha256DrbgDisabled (world h) \<noteq> 0, h))) (\<lambda>_. True)" for g :: "('z rng_world_scheme) env"
    by (simp add: moves_def wp_def)
  have seed: "moves (\<lambda>_. - 1) g (InitRng_seed nonce (Null 0) (if csize nonce = 0 then MAX_SEED_SZ else SEED_SZ + SEED_BLOCK_SZ) drbg_zeroed) (\<lambda>_. True)"
    for g :: "('z rng_world_scheme) env"
    by (rule moves_InitRng_seed) (use sz in auto)
  have test: "moves (\<lambda>_. 0) g (if ok then wc_RNG_HealthTestLocal False else ret (MEMORY_E, ())) (\<lambda>(r, x). r = 0 \<longrightarrow> ok)"
    for ok and g :: "('z rng_world_scheme) env"
    by (cases ok) (auto intro!: moves_ret moves_conseq [OF moves_clean [OF clean_HealthTestLocal]])
  have second: "moves (\<lambda>ok. if ok then 1 else 0) g (if r1 = (0 :: int) then XMALLOC else ret False) (\<lambda>ok2. ok2 \<longrightarrow> r1 = 0)"
    for r1 and g :: "('z rng_world_scheme) env"
    by (auto intro: moves_ret moves_conseq [OF moves_malloc])
  have third: "moves (\<lambda>_. if ok2 then - 1 else 0) g
      (if r1 \<noteq> (0 :: int) then ret (r1, drbg_zeroed) else if \<not> ok2 then ret (MEMORY_E, drbg_zeroed)
       else InitRng_seed nonce (Null 0) (if csize nonce = 0 then MAX_SEED_SZ else SEED_SZ + SEED_BLOCK_SZ) drbg_zeroed)
      (\<lambda>(r, d). r = 0 \<longrightarrow> r1 = 0)" if "ok2 \<longrightarrow> r1 = 0" for ok2 r1 and g :: "('z rng_world_scheme) env"
  proof (cases "r1 = 0 \<and> ok2")
    case True
    have "moves (\<lambda>_. - 1) g (InitRng_seed nonce (Null 0) (if csize nonce = 0 then MAX_SEED_SZ else SEED_SZ + SEED_BLOCK_SZ) drbg_zeroed) (\<lambda>(r, d). True)"
      by (rule moves_conseq [OF seed]) auto
    with True show ?thesis by (simp split del: if_split)
  next
    case False
    then have no: "\<not> ok2" using that by blast
    show ?thesis
    proof (cases "r1 = 0")
      case True
      show ?thesis using moves_ret [of "\<lambda>_. 0 :: int" "(MEMORY_E, drbg_zeroed)" "\<lambda>(r, d). r = 0 \<longrightarrow> r1 = 0" g] True no
        by (simp add: rc_defs)
    next
      case False
      show ?thesis using moves_ret [of "\<lambda>_. 0 :: int" "(r1, drbg_zeroed)" "\<lambda>(r, d). r = 0 \<longrightarrow> r1 = 0" g] False no by simp
    qed
  qed
  show ?thesis
    unfolding InitRng_def Let_def
    apply (rule if_split [THEN iffD2], intro conjI impI)
     apply (rule moves_ret; simp add: rc_defs)
    apply (simp only: if_False is_null.simps csize.simps simp_thms zero_and_eq not_True_eq_False)
    apply (rule moves_bind [OF s])
    apply (rule if_split [THEN iffD2], intro conjI impI)
     apply (rule moves_ret; simp add: rc_defs)
    apply (rule moves_bind [OF moves_malloc])
    apply (rule moves_bind [OF test])
    apply (clarsimp simp only: prod.case split: prod.split)
    apply (rule moves_bind [OF second])
    apply (rule moves_bind [OF third], assumption)
    apply (clarsimp simp only: prod.case split: prod.split)
    apply (rule if_split [THEN iffD2], intro conjI impI)
     apply (rule moves_ret; simp add: InitRng_code_0)
    apply (simp only: free_drbg_def)
    apply (rule moves_bind [OF moves_free_if])
    apply (rule moves_ret; simp add: InitRng_code_0)
    done
qed

lemma moves_wc_rng_new:
  fixes h :: "('z rng_world_scheme) env"
  assumes "csize nonce < 2 ^ 32"
  shows "moves (\<lambda>rng. if rng = None then 0 else 2) h (wc_rng_new nonce)
    (\<lambda>rng. \<forall>r. rng = Some r \<longrightarrow> rng_drbg r \<noteq> None)"
  unfolding wc_rng_new_def wc_rng_new_ex_def
  apply (rule moves_bind [where P = "\<lambda>(r, rng). (r = 0) = (rng \<noteq> None) \<and> (\<forall>g. rng = Some g \<longrightarrow> rng_drbg g \<noteq> None)" and e = "\<lambda>(r, rng). if r = 0 then 2 else 0"])
   apply (rule moves_bind [OF moves_malloc])
   apply (rule if_split [THEN iffD2], intro conjI impI)
    apply (simp add: moves_ret rc_defs)
   apply (rule moves_bind [OF moves_InitRng [OF assms]])
   apply (auto intro!: moves_ret moves_bind [OF moves_free])
  done

lemma moves_wc_rng_free: "moves (\<lambda>_. if rng = None then 0 else if rng_drbg (the rng) = None then - 1 else - 2) h (wc_rng_free rng) (\<lambda>_. True)"
  by (cases rng)
     (auto simp: wc_rng_free_def wc_FreeRng_def Uninstantiate_ok free_drbg_def split: option.splits
       intro!: moves_ret moves_bind [OF moves_free] moves_conseq [OF moves_free])

end
