(* ===== verification/CryptoCb.thy ===== *)
theory CryptoCb
  imports DrbgCorrect
begin

text \<open>
  \<open>wolfcrypt/src/cryptocb.c\<close>: the table of crypto devices of the process.  A slot holds a device
  id, a callback and its context; callbacks are names of a type the client chooses, a
  context is an address or null.  The table refines a partial map from device ids with room
  for eight entries, which is stated as a locale and interpreted on the table.
\<close>

section \<open>The table\<close>

definition MAX_CRYPTO_DEVID_CALLBACKS :: nat where [simp]: "MAX_CRYPTO_DEVID_CALLBACKS = 8"
definition INVALID_DEVID :: int where "INVALID_DEVID = -2"

type_synonym ptr = "nat option"

record 'cb CryptoCb =
  dev_devId :: int
  dev_cb :: "'cb option"
  dev_ctx :: ptr

type_synonym 'cb devices = "'cb CryptoCb list"

text \<open>The first index that satisfies a test, as the search loops of the source find it.\<close>

fun find_index :: "('a \<Rightarrow> bool) \<Rightarrow> 'a list \<Rightarrow> nat \<Rightarrow> nat option" where
  "find_index P [] i = None"
| "find_index P (x # xs) i = (if P x then Some i else find_index P xs (Suc i))"

definition wc_CryptoCb_GetDevice :: "'cb devices \<Rightarrow> int \<Rightarrow> nat option" where
  "wc_CryptoCb_GetDevice g devId = find_index (\<lambda>d. dev_devId d = devId) g 0"

definition wc_CryptoCb_GetFreeDevice :: "'cb devices \<Rightarrow> nat option" where
  "wc_CryptoCb_GetFreeDevice g = find_index (\<lambda>d. dev_devId d = INVALID_DEVID \<and> dev_cb d = None) g 0"

definition wc_CryptoCb_IsDeviceRegistered :: "'cb devices \<Rightarrow> int \<Rightarrow> int" where
  "wc_CryptoCb_IsDeviceRegistered g devId =
     (if devId = INVALID_DEVID then 0 else if wc_CryptoCb_GetDevice g devId \<noteq> None then 1 else 0)"

definition wc_CryptoCb_FindDevice :: "'cb devices \<Rightarrow> int \<Rightarrow> int \<Rightarrow> nat option" where
  "wc_CryptoCb_FindDevice g devId algoType = wc_CryptoCb_GetDevice g devId"

definition wc_CryptoCb_FindDeviceByIndex :: "'cb devices \<Rightarrow> nat \<Rightarrow> nat option" where
  "wc_CryptoCb_FindDeviceByIndex g startIdx =
     find_index (\<lambda>d. dev_devId d \<noteq> INVALID_DEVID) (drop startIdx g) startIdx"

definition wc_CryptoCb_GetDevIdAtIndex :: "'cb devices \<Rightarrow> nat \<Rightarrow> int" where
  "wc_CryptoCb_GetDevIdAtIndex g startIdx =
     (case wc_CryptoCb_FindDeviceByIndex g startIdx of
        Some i \<Rightarrow> dev_devId (g ! i) | None \<Rightarrow> INVALID_DEVID)"

definition wc_CryptoCb_TranslateErrorCode :: "int \<Rightarrow> int" where
  "wc_CryptoCb_TranslateErrorCode r = (if r = NOT_COMPILED_IN then CRYPTOCB_UNAVAILABLE else r)"

definition wc_CryptoCb_ClearDev :: "'cb CryptoCb \<Rightarrow> 'cb CryptoCb" where
  "wc_CryptoCb_ClearDev d = d\<lparr>dev_devId := INVALID_DEVID, dev_cb := None, dev_ctx := None\<rparr>"

definition wc_CryptoCb_Init :: "'cb devices \<Rightarrow> 'cb devices" where
  "wc_CryptoCb_Init g = map wc_CryptoCb_ClearDev g"

definition wc_CryptoCb_RegisterDevice :: "int \<Rightarrow> 'cb option \<Rightarrow> ptr \<Rightarrow> 'cb devices \<Rightarrow> int \<times> 'cb devices" where
  "wc_CryptoCb_RegisterDevice devId cb ctx g =
     (if devId = INVALID_DEVID then (BAD_FUNC_ARG, g)
      else if wc_CryptoCb_GetDevice g devId \<noteq> None then (ALREADY_E, g)
      else case wc_CryptoCb_GetFreeDevice g of
             None \<Rightarrow> (BUFFER_E, g)
           | Some i \<Rightarrow>
               let d1 = (g ! i)\<lparr>dev_cb := cb, dev_ctx := ctx\<rparr>
               in (0, g[i := d1\<lparr>dev_devId := devId\<rparr>]))"

definition wc_CryptoCb_UnRegisterDevice :: "int \<Rightarrow> 'cb devices \<Rightarrow> 'cb devices" where
  "wc_CryptoCb_UnRegisterDevice devId g =
     (if devId = INVALID_DEVID then g
      else case wc_CryptoCb_GetDevice g devId of
             None \<Rightarrow> g
           | Some i \<Rightarrow> g[i := wc_CryptoCb_ClearDev (g ! i)])"

definition wc_CryptoCb_Cleanup :: "'cb devices \<Rightarrow> 'cb devices" where
  "wc_CryptoCb_Cleanup g =
     fold (\<lambda>i g. if dev_devId (g ! i) \<noteq> INVALID_DEVID then wc_CryptoCb_UnRegisterDevice (dev_devId (g ! i)) g else g)
       [0..<MAX_CRYPTO_DEVID_CALLBACKS] g"

text \<open>The table before \<open>wc_CryptoCb_Init\<close> runs: static storage, all bytes zero.\<close>

definition devices_static :: "'cb devices" where
  "devices_static = replicate MAX_CRYPTO_DEVID_CALLBACKS \<lparr>dev_devId = 0, dev_cb = None, dev_ctx = None\<rparr>"

record 'cb wc_world = rng_world +
  gCryptoDev :: "'cb devices"

section \<open>The table as a map\<close>

definition dev_view :: "'cb devices \<Rightarrow> int \<Rightarrow> ('cb option \<times> ptr) option" where
  "dev_view g devId =
     (if devId = INVALID_DEVID then None
      else map_option (\<lambda>i. (dev_cb (g ! i), dev_ctx (g ! i))) (wc_CryptoCb_GetDevice g devId))"

text \<open>The invariant: eight slots, ids registered once, free slots cleared.\<close>

definition dev_wf :: "'cb devices \<Rightarrow> bool" where
  "dev_wf g \<longleftrightarrow> length g = MAX_CRYPTO_DEVID_CALLBACKS \<and>
     distinct (filter (\<lambda>i. i \<noteq> INVALID_DEVID) (map dev_devId g)) \<and>
     list_all (\<lambda>d. dev_devId d = INVALID_DEVID \<longrightarrow> dev_cb d = None \<and> dev_ctx d = None) g"

definition dev_ids :: "'cb devices \<Rightarrow> int set" where
  "dev_ids g = {i \<in> dev_devId ` set g. i \<noteq> INVALID_DEVID}"

lemma find_index_SomeD: "find_index P xs k = Some i \<Longrightarrow> k \<le> i \<and> i < k + length xs \<and> P (xs ! (i - k))"
proof (induction xs arbitrary: k)
  case (Cons x xs)
  show ?case
  proof (cases "P x")
    case False
    then have "Suc k \<le> i \<and> i < Suc k + length xs \<and> P (xs ! (i - Suc k))"
      using Cons.IH [of "Suc k"] Cons.prems by simp
    then show ?thesis by (auto simp: nth_Cons' Suc_le_eq)
  qed (use Cons.prems in auto)
qed simp

lemma find_index_None: "find_index P xs k = None \<longleftrightarrow> (\<forall>x \<in> set xs. \<not> P x)"
  by (induction xs arbitrary: k) auto

lemma GetDevice_Some: "wc_CryptoCb_GetDevice g i = Some k \<Longrightarrow> k < length g \<and> dev_devId (g ! k) = i"
  unfolding wc_CryptoCb_GetDevice_def by (drule find_index_SomeD) simp

lemma GetDevice_None: "wc_CryptoCb_GetDevice g i = None \<longleftrightarrow> i \<notin> dev_devId ` set g"
  by (auto simp: wc_CryptoCb_GetDevice_def find_index_None)

lemma GetFree_Some:
  "wc_CryptoCb_GetFreeDevice g = Some k \<Longrightarrow> k < length g \<and> dev_devId (g ! k) = INVALID_DEVID \<and> dev_cb (g ! k) = None"
  unfolding wc_CryptoCb_GetFreeDevice_def by (drule find_index_SomeD) simp

lemma wf_slot_unique:
  assumes "dev_wf g" "j < length g" "k < length g" "dev_devId (g ! j) = dev_devId (g ! k)" "dev_devId (g ! k) \<noteq> INVALID_DEVID"
  shows "j = k"
proof (rule ccontr)
  assume "j \<noteq> k"
  then obtain a b where ab: "a < b" "b < length g" "dev_devId (g ! a) = dev_devId (g ! b)" "dev_devId (g ! b) \<noteq> INVALID_DEVID"
    using assms(2-5) by (metis linorder_neqE_nat)
  then have "g = take a g @ g ! a # drop (Suc a) g" by (simp add: id_take_nth_drop)
  moreover have "g ! b \<in> set (drop (Suc a) g)"
    using ab nth_mem [of "b - Suc a" "drop (Suc a) g"] by simp
  then have "\<not> distinct (filter (\<lambda>i. i \<noteq> INVALID_DEVID) (map dev_devId (take a g @ g ! a # drop (Suc a) g)))"
    using ab(3,4) by (auto simp: image_iff)
  ultimately show False using assms(1) by (simp add: dev_wf_def)
qed

lemma GetDevice_eq:
  assumes "dev_wf g" "k < length g" "dev_devId (g ! k) = i" "i \<noteq> INVALID_DEVID"
  shows "wc_CryptoCb_GetDevice g i = Some k"
proof (cases "wc_CryptoCb_GetDevice g i")
  case None
  then show ?thesis using assms by (auto simp: GetDevice_None)
next
  case (Some j)
  then show ?thesis using GetDevice_Some [OF Some] wf_slot_unique [OF assms(1), of j k] assms by simp
qed

text \<open>Writing one slot: the view changes at the slot's old and new id only.\<close>

lemma distinct_ids_update:
  assumes "distinct (filter P (map f xs))" "k < length xs" "P (f y) \<longrightarrow> f y \<notin> f ` set xs"
  shows "distinct (filter P (map f (xs[k := y])))"
proof -
  have xs: "xs = take k xs @ xs ! k # drop (Suc k) xs" using assms(2) by (rule id_take_nth_drop)
  have "distinct (filter P (map f (take k xs @ xs ! k # drop (Suc k) xs)))" using assms(1) xs by simp
  moreover have "P (f y) \<Longrightarrow> f y \<notin> f ` set (take k xs) \<and> f y \<notin> f ` set (drop (Suc k) xs)"
    using assms(3) by (auto dest: in_set_takeD in_set_dropD)
  ultimately show ?thesis
    using assms(2) by (auto simp: upd_conv_take_nth_drop split: if_splits)
qed

lemma wf_update:
  assumes "dev_wf g" "k < length g" "dev_devId d \<noteq> INVALID_DEVID \<longrightarrow> dev_devId d \<notin> dev_devId ` set g"
    "dev_devId d = INVALID_DEVID \<longrightarrow> dev_cb d = None \<and> dev_ctx d = None"
  shows "dev_wf (g[k := d])"
  using assms distinct_ids_update [of "\<lambda>i. i \<noteq> INVALID_DEVID" dev_devId g k d]
  by (auto simp: dev_wf_def list_all_iff dest!: set_update_subset_insert [THEN subsetD])

lemma view_slot:
  assumes "dev_wf g" "k < length g" "dev_devId (g ! k) = i" "i \<noteq> INVALID_DEVID"
  shows "dev_view g i = Some (dev_cb (g ! k), dev_ctx (g ! k))"
  using GetDevice_eq [OF assms] assms(4) by (simp add: dev_view_def)

lemma view_None: "dev_view g i = None \<longleftrightarrow> i = INVALID_DEVID \<or> i \<notin> dev_devId ` set g"
  by (simp add: dev_view_def GetDevice_None)

lemma view_update:
  assumes g: "dev_wf g" "dev_wf (g[k := d])" "k < length g" and i: "i \<noteq> dev_devId (g ! k)" "i \<noteq> dev_devId d"
  shows "dev_view (g[k := d]) i = dev_view g i"
proof (cases "dev_view g i")
  case None
  have "i \<notin> dev_devId ` set (g[k := d])" if "i \<notin> dev_devId ` set g"
    using that i(2) by (auto dest!: set_update_subset_insert [THEN subsetD])
  then show ?thesis using None view_None [of g i] view_None [of "g[k := d]" i] by metis
next
  case (Some x)
  then obtain j where j: "j < length g" "dev_devId (g ! j) = i" "i \<noteq> INVALID_DEVID"
    by (metis GetDevice_Some GetDevice_None dev_view_def view_None not_Some_eq option.collapse)
  then have "j \<noteq> k" using i by auto
  then show ?thesis using view_slot [OF g(1) j] view_slot [OF g(2), of j i] j by simp
qed

section \<open>A registry of devices\<close>

text \<open>What the clients of the table rely on: a map from ids with a bounded number of entries.\<close>

locale device_registry =
  fixes inv :: "'s \<Rightarrow> bool"
    and view :: "'s \<Rightarrow> int \<Rightarrow> 'd option"
    and reg :: "int \<Rightarrow> 'd \<Rightarrow> 's \<Rightarrow> int \<times> 's"
    and unreg :: "int \<Rightarrow> 's \<Rightarrow> 's"
    and invalid :: int
    and cap :: nat
  assumes view_invalid: "view s invalid = None"
    and capacity: "inv s \<Longrightarrow> finite (dom (view s)) \<and> card (dom (view s)) \<le> cap"
    and reg_inv: "inv s \<Longrightarrow> inv (snd (reg i d s))"
    and unreg_inv: "inv s \<Longrightarrow> inv (unreg i s)"
    and reg_accepts: "\<lbrakk>inv s; i \<noteq> invalid; view s i = None; card (dom (view s)) < cap\<rbrakk> \<Longrightarrow>
      fst (reg i d s) = 0 \<and> view (snd (reg i d s)) = (view s)(i \<mapsto> d)"
    and reg_refuses: "\<lbrakk>inv s; i = invalid \<or> view s i \<noteq> None \<or> card (dom (view s)) = cap\<rbrakk> \<Longrightarrow>
      fst (reg i d s) \<noteq> 0 \<and> snd (reg i d s) = s"
    and unreg_view: "inv s \<Longrightarrow> view (unreg i s) = (view s)(i := None)"
begin

lemma reg_iff:
  assumes "inv s"
  shows "fst (reg i d s) = 0 \<longleftrightarrow> i \<noteq> invalid \<and> view s i = None \<and> card (dom (view s)) < cap"
  using reg_accepts [OF assms] reg_refuses [OF assms] capacity [OF assms] by (metis le_neq_implies_less)

lemma reg_view:
  assumes "inv s"
  shows "view (snd (reg i d s)) = (if fst (reg i d s) = 0 then (view s)(i \<mapsto> d) else view s)"
  using reg_accepts [OF assms] reg_refuses [OF assms] reg_iff [OF assms] capacity [OF assms]
  by (metis le_neq_implies_less)

lemma unreg_reg:
  assumes "inv s" "fst (reg i d s) = 0"
  shows "view (unreg i (snd (reg i d s))) = view s"
  using assms reg_iff [OF assms(1), of i d] reg_inv [OF assms(1), of i d] by (simp add: unreg_view reg_view fun_upd_idem)

lemma unreg_makes_room:
  assumes "inv s" "view s i \<noteq> None"
  shows "fst (reg i d (unreg i s)) = 0"
proof -
  have "dom (view (unreg i s)) = dom (view s) - {i}" by (simp add: unreg_view [OF assms(1)])
  moreover have "card (dom (view s) - {i}) < card (dom (view s))"
    using assms capacity [OF assms(1)] by (intro psubset_card_mono) auto
  moreover have "i \<noteq> invalid" using assms(2) view_invalid [of s] by auto
  ultimately show ?thesis
    using capacity [OF assms(1)] unreg_inv [OF assms(1), of i] by (simp add: reg_iff unreg_view [OF assms(1)])
qed

end

lemma dom_view: "dom (dev_view g) = dev_ids g"
  by (auto simp: dev_ids_def view_None dom_def simp del: not_None_eq)

lemma card_dev_ids: "dev_wf g \<Longrightarrow> card (dev_ids g) = length (filter (\<lambda>i. i \<noteq> INVALID_DEVID) (map dev_devId g))"
  by (subst distinct_card [symmetric]) (auto simp: dev_wf_def dev_ids_def intro!: arg_cong [where f = card])

lemma dev_ids_le: "dev_wf g \<Longrightarrow> card (dev_ids g) \<le> 8"
  using length_filter_le [of "\<lambda>i. i \<noteq> INVALID_DEVID" "map dev_devId g"] card_dev_ids [of g] by (simp add: dev_wf_def)

lemma length_filter_all: "length (filter P xs) = length xs \<longleftrightarrow> (\<forall>x \<in> set xs. P x)"
proof (induction xs)
  case (Cons x xs)
  moreover have "length (filter P xs) \<noteq> Suc (length xs)" using length_filter_le [of P xs] by linarith
  ultimately show ?case by auto
qed simp

lemma GetFree_None:
  assumes "dev_wf g"
  shows "wc_CryptoCb_GetFreeDevice g = None \<longleftrightarrow> card (dev_ids g) = 8"
proof -
  have "wc_CryptoCb_GetFreeDevice g = None \<longleftrightarrow> (\<forall>d \<in> set g. dev_devId d \<noteq> INVALID_DEVID)"
    using assms by (auto simp: wc_CryptoCb_GetFreeDevice_def find_index_None dev_wf_def list_all_iff)
  also have "\<dots> \<longleftrightarrow> length (filter (\<lambda>i. i \<noteq> INVALID_DEVID) (map dev_devId g)) = length (map dev_devId g)"
    by (simp only: length_filter_all) simp
  finally show ?thesis using assms card_dev_ids [OF assms] by (simp add: dev_wf_def)
qed

lemma RegisterDevice_free:
  assumes g: "dev_wf g" and i: "i \<noteq> INVALID_DEVID" "i \<notin> dev_devId ` set g" and k: "wc_CryptoCb_GetFreeDevice g = Some k"
  shows "\<exists>g'. wc_CryptoCb_RegisterDevice i (fst d) (snd d) g = (0, g') \<and> dev_wf g' \<and> dev_view g' = (dev_view g)(i \<mapsto> d)"
proof -
  let ?d = "(g ! k)\<lparr>dev_cb := fst d, dev_ctx := snd d, dev_devId := i\<rparr>"
  have k': "k < length g" "dev_devId (g ! k) = INVALID_DEVID" using GetFree_Some [OF k] by auto
  have wf: "dev_wf (g[k := ?d])" using g k'(1) by (rule wf_update) (use i in auto)
  have "dev_view (g[k := ?d]) j = ((dev_view g)(i \<mapsto> d)) j" for j
  proof (cases "j = i")
    case True
    then show ?thesis using view_slot [OF wf, of k i] k' i by simp
  next
    case False
    then show ?thesis using view_update [OF g wf k'(1), of j] k' by (cases "j = INVALID_DEVID") (auto simp: dev_view_def)
  qed
  then show ?thesis using wf i k by (auto simp: wc_CryptoCb_RegisterDevice_def GetDevice_None Let_def)
qed

lemma UnRegister_slot:
  assumes g: "dev_wf g" and k: "k < length g"
  shows "dev_wf (g[k := wc_CryptoCb_ClearDev (g ! k)])"
    "dev_view (g[k := wc_CryptoCb_ClearDev (g ! k)]) = (dev_view g)(dev_devId (g ! k) := None)"
proof -
  let ?g = "g[k := wc_CryptoCb_ClearDev (g ! k)]"
  show wf: "dev_wf ?g" using g k by (rule wf_update) (auto simp: wc_CryptoCb_ClearDev_def)
  have "dev_view ?g j = ((dev_view g)(dev_devId (g ! k) := None)) j" for j
  proof (cases "j = dev_devId (g ! k)")
    case True
    have "j \<notin> dev_devId ` set ?g" if "j \<noteq> INVALID_DEVID"
    proof
      assume "j \<in> dev_devId ` set ?g"
      then obtain l where l: "l < length g" "dev_devId (?g ! l) = j" by (auto simp: in_set_conv_nth)
      then have "l \<noteq> k" using that k by (auto simp: wc_CryptoCb_ClearDev_def)
      then show False using l that True wf_slot_unique [OF g l(1) k] by simp
    qed
    then show ?thesis using True view_None [of ?g j] by auto
  next
    case False
    then show ?thesis using view_update [OF g wf k, of j]
      by (cases "j = INVALID_DEVID") (auto simp: dev_view_def wc_CryptoCb_ClearDev_def)
  qed
  then show "dev_view ?g = (dev_view g)(dev_devId (g ! k) := None)" by blast
qed

lemma UnRegisterDevice_view:
  assumes "dev_wf g"
  shows "dev_wf (wc_CryptoCb_UnRegisterDevice i g)" "dev_view (wc_CryptoCb_UnRegisterDevice i g) = (dev_view g)(i := None)"
  using assms UnRegister_slot [OF assms] GetDevice_Some [of g i] GetDevice_None [of g i] view_None [of g i]
  by (auto simp: wc_CryptoCb_UnRegisterDevice_def fun_upd_idem_iff split: option.splits)

interpretation devs: device_registry dev_wf dev_view
  "\<lambda>i d. wc_CryptoCb_RegisterDevice i (fst d) (snd d)" wc_CryptoCb_UnRegisterDevice INVALID_DEVID MAX_CRYPTO_DEVID_CALLBACKS
proof unfold_locales
  fix s :: "'a devices" and i :: int and d
  show "dev_view s INVALID_DEVID = None" by (simp add: dev_view_def)
  assume s: "dev_wf s"
  show "finite (dom (dev_view s)) \<and> card (dom (dev_view s)) \<le> MAX_CRYPTO_DEVID_CALLBACKS"
    using dev_ids_le [OF s] by (simp add: dom_view) (simp add: dev_ids_def)
  show "dev_wf (wc_CryptoCb_UnRegisterDevice i s)"
    "dev_view (wc_CryptoCb_UnRegisterDevice i s) = (dev_view s)(i := None)"
    using UnRegisterDevice_view [OF s] by auto
  show refuse: "fst (wc_CryptoCb_RegisterDevice i (fst d) (snd d) s) \<noteq> 0 \<and> snd (wc_CryptoCb_RegisterDevice i (fst d) (snd d) s) = s"
    if "i = INVALID_DEVID \<or> dev_view s i \<noteq> None \<or> card (dom (dev_view s)) = MAX_CRYPTO_DEVID_CALLBACKS"
    using that GetFree_None [OF s] GetDevice_None [of s i] view_None [of s i]
    by (auto simp: wc_CryptoCb_RegisterDevice_def dom_view rc_defs split: option.splits)
  show accept: "fst (wc_CryptoCb_RegisterDevice i (fst d) (snd d) s) = 0 \<and>
      dev_view (snd (wc_CryptoCb_RegisterDevice i (fst d) (snd d) s)) = (dev_view s)(i \<mapsto> d)"
    if "i \<noteq> INVALID_DEVID" "dev_view s i = None" "card (dom (dev_view s)) < MAX_CRYPTO_DEVID_CALLBACKS"
    using that RegisterDevice_free [OF s, of i _ d] GetFree_None [OF s] view_None [of s i]
    by (cases "wc_CryptoCb_GetFreeDevice s") (auto simp: dom_view)
  show "dev_wf (snd (wc_CryptoCb_RegisterDevice i (fst d) (snd d) s))"
    using RegisterDevice_free [OF s, of i _ d] s
    by (cases "wc_CryptoCb_GetFreeDevice s") (auto simp: wc_CryptoCb_RegisterDevice_def GetDevice_None)
qed

section \<open>Histories of the table\<close>

text \<open>The calls a process makes on the table, with their return codes; the void calls count as 0.\<close>

datatype 'cb dev_call =
  CallInit | CallRegister int "'cb option" ptr | CallUnRegister int | CallCleanup

fun dev_exec :: "'cb dev_call \<Rightarrow> 'cb devices \<Rightarrow> int \<times> 'cb devices" where
  "dev_exec CallInit g = (0, wc_CryptoCb_Init g)"
| "dev_exec (CallRegister i cb ctx) g = wc_CryptoCb_RegisterDevice i cb ctx g"
| "dev_exec (CallUnRegister i) g = (0, wc_CryptoCb_UnRegisterDevice i g)"
| "dev_exec CallCleanup g = (0, wc_CryptoCb_Cleanup g)"

inductive dev_steps :: "'cb devices \<Rightarrow> ('cb dev_call \<times> int) list \<Rightarrow> 'cb devices \<Rightarrow> bool" where
  dev_steps_nil: "dev_steps g [] g"
| dev_steps_snoc: "\<lbrakk>dev_steps g tr g'; dev_exec c g' = (r, g'')\<rbrakk> \<Longrightarrow> dev_steps g (tr @ [(c, r)]) g''"

inductive_cases dev_steps_nilE: "dev_steps g [] g'"
inductive_cases dev_steps_snocE: "dev_steps g (tr @ [cr]) g'"

text \<open>The same calls on a map with room for eight entries.\<close>

type_synonym 'cb dev_map = "int \<Rightarrow> ('cb option \<times> ptr) option"

fun map_exec :: "'cb dev_call \<Rightarrow> 'cb dev_map \<Rightarrow> int \<times> 'cb dev_map" where
  "map_exec CallInit m = (0, \<lambda>_. None)"
| "map_exec (CallRegister i cb ctx) m =
     (if i = INVALID_DEVID then (BAD_FUNC_ARG, m)
      else if m i \<noteq> None then (ALREADY_E, m)
      else if card (dom m) = 8 then (BUFFER_E, m)
      else (0, m(i \<mapsto> (cb, ctx))))"
| "map_exec (CallUnRegister i) m = (0, m(i := None))"
| "map_exec CallCleanup m = (0, \<lambda>_. None)"

primrec map_play :: "'cb dev_call list \<Rightarrow> 'cb dev_map \<Rightarrow> int list \<times> 'cb dev_map" where
  "map_play [] m = ([], m)"
| "map_play (c # cs) m = (let (r, m') = map_exec c m; (rs, m'') = map_play cs m' in (r # rs, m''))"

lemma map_play_snoc:
  "map_play (cs @ [c]) m = (let (rs, m') = map_play cs m; (r, m'') = map_exec c m' in (rs @ [r], m''))"
  by (induction cs arbitrary: m) (simp_all add: Let_def split: prod.splits)

lemma Init_wf: "length g = 8 \<Longrightarrow> dev_wf (wc_CryptoCb_Init g) \<and> dev_view (wc_CryptoCb_Init g) = (\<lambda>_. None)"
proof -
  have "dev_devId ` set (wc_CryptoCb_Init g) \<subseteq> {INVALID_DEVID}"
    by (auto simp: wc_CryptoCb_Init_def wc_CryptoCb_ClearDev_def)
  moreover have "filter (\<lambda>i. i \<noteq> INVALID_DEVID) (map dev_devId (wc_CryptoCb_Init g)) = []"
    by (simp add: wc_CryptoCb_Init_def wc_CryptoCb_ClearDev_def filter_empty_conv)
  ultimately show "length g = 8 \<Longrightarrow> ?thesis"
    using view_None [of "wc_CryptoCb_Init g"]
    by (auto simp: dev_wf_def list_all_iff fun_eq_iff wc_CryptoCb_Init_def wc_CryptoCb_ClearDev_def)
qed

definition cleanup_step :: "nat \<Rightarrow> 'cb devices \<Rightarrow> 'cb devices" where
  "cleanup_step i g =
     (if dev_devId (g ! i) \<noteq> INVALID_DEVID then wc_CryptoCb_UnRegisterDevice (dev_devId (g ! i)) g else g)"

lemma cleanup_step_wf:
  assumes g: "dev_wf g" and i: "i < 8"
  shows "dev_wf (cleanup_step i g)" "dev_devId (cleanup_step i g ! j) = (if j = i then INVALID_DEVID else dev_devId (g ! j))"
proof -
  have l: "i < length g" using g i by (simp add: dev_wf_def)
  have "dev_devId (g ! i) \<noteq> INVALID_DEVID \<Longrightarrow> cleanup_step i g = g[i := wc_CryptoCb_ClearDev (g ! i)]"
    using GetDevice_eq [OF g l] by (simp add: cleanup_step_def wc_CryptoCb_UnRegisterDevice_def)
  then have "cleanup_step i g = g \<and> dev_devId (g ! i) = INVALID_DEVID \<or> cleanup_step i g = g[i := wc_CryptoCb_ClearDev (g ! i)]"
    by (auto simp: cleanup_step_def)
  then show "dev_wf (cleanup_step i g)" "dev_devId (cleanup_step i g ! j) = (if j = i then INVALID_DEVID else dev_devId (g ! j))"
    using UnRegister_slot [OF g l] g l by (auto simp: nth_list_update wc_CryptoCb_ClearDev_def)
qed

lemma cleanup_steps:
  assumes "dev_wf g" "n \<le> 8"
  shows "dev_wf (fold cleanup_step [0..<n] g) \<and>
    (\<forall>j < 8. dev_devId (fold cleanup_step [0..<n] g ! j) = (if j < n then INVALID_DEVID else dev_devId (g ! j)))"
  using assms(2)
proof (induction n)
  case (Suc n)
  then show ?case using cleanup_step_wf [of "fold cleanup_step [0..<n] g" n] by (auto simp: less_Suc_eq)
qed (use assms(1) in simp)

lemma Cleanup_wf:
  assumes "dev_wf g"
  shows "dev_wf (wc_CryptoCb_Cleanup g)" "dev_view (wc_CryptoCb_Cleanup g) = (\<lambda>_. None)"
proof -
  have c: "wc_CryptoCb_Cleanup g = fold cleanup_step [0..<8] g"
    by (simp add: wc_CryptoCb_Cleanup_def cleanup_step_def [abs_def])
  show wf: "dev_wf (wc_CryptoCb_Cleanup g)" using cleanup_steps [OF assms, of 8] by (simp only: c)
  have "dev_devId d = INVALID_DEVID" if "d \<in> set (wc_CryptoCb_Cleanup g)" for d
    using that wf cleanup_steps [OF assms, of 8] by (auto simp: in_set_conv_nth dev_wf_def c simp del: upt_rec_numeral)
  then show "dev_view (wc_CryptoCb_Cleanup g) = (\<lambda>_. None)"
    using view_None [of "wc_CryptoCb_Cleanup g"] by (auto simp: fun_eq_iff image_iff)
qed

lemma dev_exec_map:
  assumes g: "dev_wf g" and e: "dev_exec c g = (r, g')"
  shows "dev_wf g' \<and> map_exec c (dev_view g) = (r, dev_view g')"
proof (cases c)
  case (CallRegister i cb ctx)
  have k: "wc_CryptoCb_GetFreeDevice g = None \<longleftrightarrow> card (dom (dev_view g)) = 8" using GetFree_None [OF g] by (simp add: dom_view)
  show ?thesis
  proof (cases "i = INVALID_DEVID \<or> dev_view g i \<noteq> None \<or> card (dom (dev_view g)) = 8")
    case True
    then show ?thesis using CallRegister e g k GetDevice_None [of g i] view_None [of g i]
      by (auto simp: wc_CryptoCb_RegisterDevice_def split: if_splits)
  next
    case False
    then show ?thesis using CallRegister e k RegisterDevice_free [OF g, of i _ "(cb, ctx)"] view_None [of g i] by auto
  qed
qed (use assms Init_wf [of g] UnRegisterDevice_view [OF g] Cleanup_wf [OF g] in \<open>auto simp: dev_wf_def\<close>)

lemma dev_steps_map:
  "dev_steps g tr g' \<Longrightarrow> dev_wf g \<Longrightarrow> dev_wf g' \<and> map_play (map fst tr) (dev_view g) = (map snd tr, dev_view g')"
proof (induction rule: dev_steps.induct)
  case (dev_steps_snoc g tr g' c r g'')
  then show ?case using dev_exec_map [of g' c r g''] by (simp add: map_play_snoc)
qed simp

text \<open>C33: The device table refines a map with room for eight entries: after \<open>wc_CryptoCb_Init\<close>, every
  history of registrations, removals, initialisations and clean-ups returns the codes of
  the map (\<open>BAD_FUNC_ARG\<close> for the reserved id, \<open>ALREADY_E\<close> for a second registration,
  \<open>BUFFER_E\<close> when eight ids are registered), ends in the map's state, and keeps the
  invariant of the table: no id twice, free slots cleared.\<close>

theorem registry_refines_map:
  assumes "length g = MAX_CRYPTO_DEVID_CALLBACKS" "dev_steps (wc_CryptoCb_Init g) tr g'"
  shows "dev_wf g' \<and> map_play (map fst tr) (\<lambda>_. None) = (map snd tr, dev_view g')"
  using dev_steps_map [OF assms(2)] Init_wf [of g] assms(1) by simp

theorem registry_refines_map_witness:
  "\<exists>g'. dev_steps (wc_CryptoCb_Init devices_static) [(CallRegister 7 (Some ()) None, 0), (CallRegister 7 None None, ALREADY_E)] g' \<and>
     dev_wf g' \<and> dev_view g' 7 = Some (Some (), None)"
proof -
  let ?g = "wc_CryptoCb_Init devices_static"
  have 1: "dev_exec (CallRegister 7 (Some ()) None) ?g = (0, ?g[0 := \<lparr>dev_devId = 7, dev_cb = Some (), dev_ctx = None\<rparr>])"
    by (simp add: wc_CryptoCb_Init_def devices_static_def wc_CryptoCb_ClearDev_def wc_CryptoCb_RegisterDevice_def
      wc_CryptoCb_GetDevice_def wc_CryptoCb_GetFreeDevice_def numeral_eq_Suc INVALID_DEVID_def)
  then have 2: "dev_exec (CallRegister 7 None None) (?g[0 := \<lparr>dev_devId = 7, dev_cb = Some (), dev_ctx = None\<rparr>]) =
      (ALREADY_E, ?g[0 := \<lparr>dev_devId = 7, dev_cb = Some (), dev_ctx = None\<rparr>])"
    by (simp add: wc_CryptoCb_Init_def devices_static_def wc_CryptoCb_RegisterDevice_def
      wc_CryptoCb_GetDevice_def numeral_eq_Suc INVALID_DEVID_def)
  have s: "dev_steps ?g [(CallRegister 7 (Some ()) None, 0), (CallRegister 7 None None, ALREADY_E)]
      (?g[0 := \<lparr>dev_devId = 7, dev_cb = Some (), dev_ctx = None\<rparr>])"
    using dev_steps_snoc [OF dev_steps_snoc [OF dev_steps_nil 1] 2] by simp
  have "length (devices_static :: unit devices) = MAX_CRYPTO_DEVID_CALLBACKS" by (simp add: devices_static_def)
  from registry_refines_map [OF this s] show ?thesis
    using s by (intro exI conjI) (auto simp: INVALID_DEVID_def dest: fun_cong [where x = 7])
qed

end
