(* ===== verification/Ecc.thy ===== *)
theory Ecc
  imports CryptoCb
begin

text \<open>
  \<open>wolfcrypt/src/ecc.c\<close> as this build compiles it: curve tables, key objects, import and export
  of points and private scalars, and the shared secret, which only a crypto device can
  compute (\<open>WOLF_CRYPTO_CB_ONLY_ECC\<close>).  The context a key carries for its device has a type the
  client chooses, and so do the names of callbacks; how a name is called is an argument,
  \<open>call\<close>, of the functions that reach a device.
\<close>

section \<open>Curves\<close>

definition ECC_CUSTOM_IDX :: int where [simp]: "ECC_CUSTOM_IDX = -1"
definition ECC_PUBLICKEY :: int where [simp]: "ECC_PUBLICKEY = 1"
definition ECC_PRIVATEKEY :: int where [simp]: "ECC_PRIVATEKEY = 2"
definition ECC_PRIVATEKEY_ONLY :: int where [simp]: "ECC_PRIVATEKEY_ONLY = 3"
definition ECC_BUFSIZE :: nat where [simp]: "ECC_BUFSIZE = 257"
definition ECC_MAXSIZE :: nat where [simp]: "ECC_MAXSIZE = 66"
definition MAX_ECC_BYTES :: nat where [simp]: "MAX_ECC_BYTES = 66"
definition ECC_POINT_COMP_EVEN :: byte where [simp]: "ECC_POINT_COMP_EVEN = 2"
definition ECC_POINT_COMP_ODD :: byte where [simp]: "ECC_POINT_COMP_ODD = 3"
definition ECC_POINT_UNCOMP :: byte where [simp]: "ECC_POINT_UNCOMP = 4"
definition ECC_CURVE_INVALID :: int where [simp]: "ECC_CURVE_INVALID = -1"
definition ECC_CURVE_DEF :: int where [simp]: "ECC_CURVE_DEF = 0"
definition ECC_PRIME239V1 :: int where [simp]: "ECC_PRIME239V1 = 4"
definition ECC_SECP256R1 :: int where [simp]: "ECC_SECP256R1 = 7"
definition ECC_SECP224R1 :: int where [simp]: "ECC_SECP224R1 = 14"
definition ECC_SECP384R1 :: int where [simp]: "ECC_SECP384R1 = 15"
definition ECC_SECP521R1 :: int where [simp]: "ECC_SECP521R1 = 16"
definition ECC_STATE_NONE :: int where [simp]: "ECC_STATE_NONE = 0"
definition WC_ECC_FLAG_NONE :: word32 where [simp]: "WC_ECC_FLAG_NONE = 0"

record ecc_set_type =
  set_size :: nat
  set_id :: int
  set_name :: string
  set_prime :: string
  set_Af :: string
  set_Bf :: string
  set_order :: string
  set_Gx :: string
  set_Gy :: string
  set_cofactor :: int

definition set_secp224r1 :: ecc_set_type where
  "set_secp224r1 = \<lparr>set_size = 28, set_id = ECC_SECP224R1, set_name = ''SECP224R1'',
    set_prime = ''FFFFFFFFFFFFFFFFFFFFFFFFFFFFFFFF000000000000000000000001'',
    set_Af = ''FFFFFFFFFFFFFFFFFFFFFFFFFFFFFFFEFFFFFFFFFFFFFFFFFFFFFFFE'',
    set_Bf = ''B4050A850C04B3ABF54132565044B0B7D7BFD8BA270B39432355FFB4'',
    set_order = ''FFFFFFFFFFFFFFFFFFFFFFFFFFFF16A2E0B8F03E13DD29455C5C2A3D'',
    set_Gx = ''B70E0CBD6BB4BF7F321390B94A03C1D356C21122343280D6115C1D21'',
    set_Gy = ''BD376388B5F723FB4C22DFE6CD4375A05A07476444D5819985007E34'', set_cofactor = 1\<rparr>"

definition set_prime239v1 :: ecc_set_type where
  "set_prime239v1 = \<lparr>set_size = 30, set_id = ECC_PRIME239V1, set_name = ''PRIME239V1'',
    set_prime = ''7FFFFFFFFFFFFFFFFFFFFFFF7FFFFFFFFFFF8000000000007FFFFFFFFFFF'',
    set_Af = ''7FFFFFFFFFFFFFFFFFFFFFFF7FFFFFFFFFFF8000000000007FFFFFFFFFFC'',
    set_Bf = ''6B016C3BDCF18941D0D654921475CA71A9DB2FB27D1D37796185C2942C0A'',
    set_order = ''7FFFFFFFFFFFFFFFFFFFFFFF7FFFFF9E5E9A9F5D9071FBD1522688909D0B'',
    set_Gx = ''0FFA963CDCA8816CCC33B8642BEDF905C3D358573D3F27FBBD3B3CB9AAAF'',
    set_Gy = ''7DEBE8E4E90A5DAE6E4054CA530BA04654B36818CE226B39FCCB7B02F1AE'', set_cofactor = 1\<rparr>"

definition set_secp256r1 :: ecc_set_type where
  "set_secp256r1 = \<lparr>set_size = 32, set_id = ECC_SECP256R1, set_name = ''SECP256R1'',
    set_prime = ''FFFFFFFF00000001000000000000000000000000FFFFFFFFFFFFFFFFFFFFFFFF'',
    set_Af = ''FFFFFFFF00000001000000000000000000000000FFFFFFFFFFFFFFFFFFFFFFFC'',
    set_Bf = ''5AC635D8AA3A93E7B3EBBD55769886BC651D06B0CC53B0F63BCE3C3E27D2604B'',
    set_order = ''FFFFFFFF00000000FFFFFFFFFFFFFFFFBCE6FAADA7179E84F3B9CAC2FC632551'',
    set_Gx = ''6B17D1F2E12C4247F8BCE6E563A440F277037D812DEB33A0F4A13945D898C296'',
    set_Gy = ''4FE342E2FE1A7F9B8EE7EB4A7C0F9E162BCE33576B315ECECBB6406837BF51F5'', set_cofactor = 1\<rparr>"

definition set_secp384r1 :: ecc_set_type where
  "set_secp384r1 = \<lparr>set_size = 48, set_id = ECC_SECP384R1, set_name = ''SECP384R1'',
    set_prime = ''FFFFFFFFFFFFFFFFFFFFFFFFFFFFFFFFFFFFFFFFFFFFFFFFFFFFFFFFFFFFFFFEFFFFFFFF0000000000000000FFFFFFFF'',
    set_Af = ''FFFFFFFFFFFFFFFFFFFFFFFFFFFFFFFFFFFFFFFFFFFFFFFFFFFFFFFFFFFFFFFEFFFFFFFF0000000000000000FFFFFFFC'',
    set_Bf = ''B3312FA7E23EE7E4988E056BE3F82D19181D9C6EFE8141120314088F5013875AC656398D8A2ED19D2A85C8EDD3EC2AEF'',
    set_order = ''FFFFFFFFFFFFFFFFFFFFFFFFFFFFFFFFFFFFFFFFFFFFFFFFC7634D81F4372DDF581A0DB248B0A77AECEC196ACCC52973'',
    set_Gx = ''AA87CA22BE8B05378EB1C71EF320AD746E1D3B628BA79B9859F741E082542A385502F25DBF55296C3A545E3872760AB7'',
    set_Gy = ''3617DE4A96262C6F5D9E98BF9292DC29F8F41DBD289A147CE9DA3113B5F0B8C00A60B1CE1D7E819D7A431D7C90EA0E5F'', set_cofactor = 1\<rparr>"

definition set_secp521r1 :: ecc_set_type where
  "set_secp521r1 = \<lparr>set_size = 66, set_id = ECC_SECP521R1, set_name = ''SECP521R1'',
    set_prime = ''1FFFFFFFFFFFFFFFFFFFFFFFFFFFFFFFFFFFFFFFFFFFFFFFFFFFFFFFFFFFFFFFFFFFFFFFFFFFFFFFFFFFFFFFFFFFFFFFFFFFFFFFFFFFFFFFFFFFFFFFFFFFFFFFFFF'',
    set_Af = ''1FFFFFFFFFFFFFFFFFFFFFFFFFFFFFFFFFFFFFFFFFFFFFFFFFFFFFFFFFFFFFFFFFFFFFFFFFFFFFFFFFFFFFFFFFFFFFFFFFFFFFFFFFFFFFFFFFFFFFFFFFFFFFFFFFC'',
    set_Bf = ''51953EB9618E1C9A1F929A21A0B68540EEA2DA725B99B315F3B8B489918EF109E156193951EC7E937B1652C0BD3BB1BF073573DF883D2C34F1EF451FD46B503F00'',
    set_order = ''1FFFFFFFFFFFFFFFFFFFFFFFFFFFFFFFFFFFFFFFFFFFFFFFFFFFFFFFFFFFFFFFFFA51868783BF2F966B7FCC0148F709A5D03BB5C9B8899C47AEBB6FB71E91386409'',
    set_Gx = ''C6858E06B70404E9CD9E3ECB662395B4429C648139053FB521F828AF606B4D3DBAA14B5E77EFE75928FE1DC127A2FFA8DE3348B3C1856A429BF97E7E31C2E5BD66'',
    set_Gy = ''11839296A789A3BC0045C8A5FB42C7D1BD998F54449579B446817AFBD17273E662C97EE72995EF42640C550B9013FAD0761353C7086A272C24088BE94769FD16650'', set_cofactor = 1\<rparr>"

definition set_end :: ecc_set_type where
  "set_end = \<lparr>set_size = 0, set_id = ECC_CURVE_INVALID, set_name = [], set_prime = [], set_Af = [], set_Bf = [],
    set_order = [], set_Gx = [], set_Gy = [], set_cofactor = 0\<rparr>"

definition ecc_sets :: "ecc_set_type list" where
  "ecc_sets = [set_secp224r1, set_prime239v1, set_secp256r1, set_secp384r1, set_secp521r1, set_end]"

definition ECC_SET_COUNT :: int where [simp]: "ECC_SET_COUNT = 6"

text \<open>The loops over the table: up to an entry that passes the test or the entry of size 0.\<close>

fun sets_loop :: "(ecc_set_type \<Rightarrow> bool) \<Rightarrow> ecc_set_type list \<Rightarrow> nat \<Rightarrow> nat" where
  "sets_loop P [] x = x"
| "sets_loop P (s # ss) x = (if set_size s = 0 \<or> P s then x else sets_loop P ss (Suc x))"

definition wc_ecc_is_valid_idx :: "int \<Rightarrow> bool" where
  "wc_ecc_is_valid_idx n \<longleftrightarrow>
     (if n \<ge> ECC_SET_COUNT then False
      else n \<ge> ECC_CUSTOM_IDX \<and> n < int (sets_loop (\<lambda>_. False) ecc_sets 0))"

definition wc_ecc_get_curve_idx :: "int \<Rightarrow> int" where
  "wc_ecc_get_curve_idx curve_id =
     (let x = sets_loop (\<lambda>s. curve_id = set_id s) ecc_sets 0
      in if set_size (ecc_sets ! x) = 0 then ECC_CURVE_INVALID else int x)"

definition wc_ecc_get_curve_id :: "int \<Rightarrow> int" where
  "wc_ecc_get_curve_id curve_idx =
     (if wc_ecc_is_valid_idx curve_idx \<and> curve_idx \<ge> 0 then set_id (ecc_sets ! nat curve_idx) else ECC_CURVE_INVALID)"

definition wc_ecc_get_curve_size_from_id :: "int \<Rightarrow> int" where
  "wc_ecc_get_curve_size_from_id curve_id =
     (let curve_idx = wc_ecc_get_curve_idx curve_id
      in if curve_idx = ECC_CURVE_INVALID then ECC_BAD_ARG_E else int (set_size (ecc_sets ! nat curve_idx)))"

section \<open>Key objects\<close>

record 'x ecc_key =
  key_type :: int
  key_idx :: int
  key_state :: int
  key_flags :: word32
  key_dp :: "ecc_set_type option"
  pub_x :: sp_int
  pub_y :: sp_int
  pub_z :: sp_int
  key_k :: sp_int
  key_devCtx :: "'x option"
  key_devId :: int
  key_rng :: "WC_RNG option"

definition sp_zeroed :: sp_int where
  "sp_zeroed = \<lparr>used = 0, sp_size = 0, dp = replicate SP_INT_DIGITS 0\<rparr>"

definition ecc_key_zeroed :: "'x ecc_key" where
  "ecc_key_zeroed = \<lparr>key_type = 0, key_idx = 0, key_state = 0, key_flags = 0, key_dp = None,
     pub_x = sp_zeroed, pub_y = sp_zeroed, pub_z = sp_zeroed, key_k = sp_zeroed,
     key_devCtx = None, key_devId = 0, key_rng = None\<rparr>"

definition wc_ecc_set_curve :: "'x ecc_key \<Rightarrow> int \<Rightarrow> int \<Rightarrow> int \<times> 'x ecc_key" where
  "wc_ecc_set_curve key keysize curve_id =
     (if keysize \<le> 0 \<and> curve_id < 0 then (BAD_FUNC_ARG, key)
      else if keysize > int ECC_MAXSIZE then (ECC_BAD_ARG_E, key)
      else if key_idx key \<noteq> ECC_CUSTOM_IDX then
        (let x = sets_loop (\<lambda>s. if curve_id > ECC_CURVE_DEF then curve_id = set_id s else keysize \<le> int (set_size s)) ecc_sets 0
         in if set_size (ecc_sets ! x) = 0 then (ECC_CURVE_OID_E, key\<lparr>key_idx := 0, key_dp := None\<rparr>)
            else (0, key\<lparr>key_idx := int x, key_dp := Some (ecc_sets ! x)\<rparr>))
      else (0, key))"

definition wc_ecc_reset :: "'x ecc_key \<Rightarrow> 'x ecc_key" where
  "wc_ecc_reset key = key\<lparr>key_state := ECC_STATE_NONE\<rparr>"

text \<open>The four numbers of a key made ready by \<open>mp_init_multi\<close>.\<close>

definition ecc_init_numbers :: "'x ecc_key \<Rightarrow> int \<times> 'x ecc_key" where
  "ecc_init_numbers key =
     (case sp_init_multi [Some (key_k key), Some (pub_x key), Some (pub_y key), Some (pub_z key), None, None] of
        (r, Some k # Some x # Some y # Some z # _) \<Rightarrow> (r, key\<lparr>key_k := k, pub_x := x, pub_y := y, pub_z := z\<rparr>)
      | (r, _) \<Rightarrow> (r, key))"

definition wc_ecc_init_ex :: "int \<Rightarrow> int \<times> 'x ecc_key" where
  "wc_ecc_init_ex devId =
     (let key = ecc_key_zeroed\<lparr>key_state := ECC_STATE_NONE, key_devId := devId\<rparr>;
          (r, key') = ecc_init_numbers key
      in if r \<noteq> MP_OKAY then (MEMORY_E, key') else (r, key'))"

definition wc_ecc_free :: "'x ecc_key \<Rightarrow> 'x ecc_key" where
  "wc_ecc_free key =
     key\<lparr>pub_x := sp_clear (pub_x key), pub_y := sp_clear (pub_y key), pub_z := sp_clear (pub_z key),
         key_k := sp_forcezero (key_k key)\<rparr>"

definition wc_ecc_key_new_ex :: "int \<Rightarrow> ('w, 'x ecc_key option) cmd" where
  "wc_ecc_key_new_ex devId = do {
     ok \<leftarrow> XMALLOC;
     if \<not> ok then ret None
     else do {
       let (r, key) = wc_ecc_init_ex devId;
       if r \<noteq> 0 then do { XFREE (Freed_obj ''ecc_key'' False); ret None } else ret (Some key)
     }
   }"

definition wc_ecc_key_new :: "('w, 'x ecc_key option) cmd" where
  "wc_ecc_key_new = wc_ecc_key_new_ex INVALID_DEVID"

text \<open>\<open>ForceZero\<close> on the whole object before it is released.\<close>

definition wc_ecc_key_free :: "'x ecc_key option \<Rightarrow> ('w, unit) cmd" where
  "wc_ecc_key_free key =
     (case key of
        None \<Rightarrow> ret ()
      | Some k \<Rightarrow> do {
          let k' = wc_ecc_free k;
          XFREE (Freed_obj ''ecc_key'' True)
        })"

definition wc_ecc_set_rng :: "'x ecc_key \<Rightarrow> WC_RNG option \<Rightarrow> int \<times> 'x ecc_key" where
  "wc_ecc_set_rng key rng = (0, key\<lparr>key_rng := rng\<rparr>)"

section \<open>Points and scalars as bytes\<close>

text \<open>A number written at the end of a field of \<open>numlen\<close> zero bytes of the 257-byte buffer.\<close>

definition export_coord :: "sp_int \<Rightarrow> nat \<Rightarrow> nat \<Rightarrow> int \<times> byte list" where
  "export_coord a numlen len =
     (let buf = zeros ECC_BUFSIZE; off = numlen - len;
          (r, tail) = sp_to_unsigned_bin a (drop off buf)
      in (r, take off buf @ tail))"

definition ecc_export_x963_raw :: "'x ecc_key \<Rightarrow> byte list option \<Rightarrow> nat \<Rightarrow> ('w, int \<times> byte list option \<times> nat) cmd" where
  "ecc_export_x963_raw key out outLen =
     (case out of
        None \<Rightarrow> ret (LENGTH_ONLY_E, None, 1 + 2 * (case key_dp key of Some s \<Rightarrow> set_size s | None \<Rightarrow> MAX_ECC_BYTES))
      | Some ob \<Rightarrow>
          if key_type key = ECC_PRIVATEKEY_ONLY then ret (ECC_PRIVATEONLY_E, out, outLen)
          else case key_dp key of
            None \<Rightarrow> ret (ECC_BAD_ARG_E, out, outLen)
          | Some s \<Rightarrow>
              if key_type key = 0 \<or> \<not> wc_ecc_is_valid_idx (key_idx key) then ret (ECC_BAD_ARG_E, out, outLen)
              else do {
                let numlen = set_size s;
                if outLen < 1 + 2 * numlen then ret (BUFFER_E, out, 1 + 2 * numlen)
                else do {
                  let pubxlen = sp_unsigned_bin_size (pub_x key);
                  let pubylen = sp_unsigned_bin_size (pub_y key);
                  if pubxlen > numlen \<or> pubylen > numlen then ret (BUFFER_E, out, outLen)
                  else do {
                    let o1 = ob[0 := ECC_POINT_UNCOMP];
                    ok \<leftarrow> XMALLOC;
                    if \<not> ok then ret (MEMORY_E, Some o1, outLen)
                    else do {
                      let (r1, buf1) = export_coord (pub_x key) numlen pubxlen;
                      if r1 \<noteq> MP_OKAY then do { XFREE (Freed_bytes buf1); ret (r1, Some o1, outLen) }
                      else do {
                        let o2 = blit o1 1 (take numlen buf1);
                        let (r2, buf2) = export_coord (pub_y key) numlen pubylen;
                        if r2 \<noteq> MP_OKAY then do { XFREE (Freed_bytes buf2); ret (r2, Some o2, outLen) }
                        else do {
                          let o3 = blit o2 (1 + numlen) (take numlen buf2);
                          XFREE (Freed_bytes buf2);
                          ret (r2, Some o3, 1 + 2 * numlen)
                        }
                      }
                    }
                  }
                }
              })"

definition wc_ecc_export_x963 :: "'x ecc_key \<Rightarrow> byte list option \<Rightarrow> nat \<Rightarrow> ('w, int \<times> byte list option \<times> nat) cmd" where
  "wc_ecc_export_x963 key out outLen =
     (if out = None
      then ret (LENGTH_ONLY_E, None, 1 + 2 * (case key_dp key of Some s \<Rightarrow> set_size s | None \<Rightarrow> MAX_ECC_BYTES))
      else if key_type key = ECC_PRIVATEKEY_ONLY then ret (ECC_PRIVATEONLY_E, out, outLen)
      else ecc_export_x963_raw key out outLen)"

definition wc_ecc_export_x963_ex ::
  "'x ecc_key \<Rightarrow> byte list option \<Rightarrow> nat \<Rightarrow> int \<Rightarrow> ('w, int \<times> byte list option \<times> nat) cmd" where
  "wc_ecc_export_x963_ex key out outLen compressed =
     (if compressed = 0 then wc_ecc_export_x963 key out outLen else ret (NOT_COMPILED_IN, out, outLen))"

definition ecc_wipe_numbers :: "'x ecc_key \<Rightarrow> 'x ecc_key" where
  "ecc_wipe_numbers key =
     key\<lparr>pub_x := sp_clear (pub_x key), pub_y := sp_clear (pub_y key), pub_z := sp_clear (pub_z key),
         key_k := sp_forcezero (key_k key)\<rparr>"

definition ecc_import_x963_raw :: "cbuf \<Rightarrow> 'x ecc_key \<Rightarrow> int \<Rightarrow> int \<Rightarrow> int \<times> 'x ecc_key" where
  "ecc_import_x963_raw inp key curve_id untrusted =
     (if is_null inp then (BAD_FUNC_ARG, key)
      else if even (csize inp) then (ECC_BAD_ARG_E, key)
      else let (r0, k0) = ecc_init_numbers (wc_ecc_reset key)
           in if r0 \<noteq> MP_OKAY then (MEMORY_E, k0)
              else let pointType = hd (cbytes inp);
                       e1 = (if pointType \<noteq> ECC_POINT_UNCOMP \<and> pointType \<noteq> ECC_POINT_COMP_EVEN \<and>
                                pointType \<noteq> ECC_POINT_COMP_ODD then ASN_PARSE_E else MP_OKAY);
                       e2 = (if pointType = ECC_POINT_COMP_EVEN \<or> pointType = ECC_POINT_COMP_ODD
                             then NOT_COMPILED_IN else e1);
                       rest = tl (cbytes inp);
                       keysize = length rest div 2;
                       (e3, k3) = (if e2 = MP_OKAY
                                   then let (e, k) = wc_ecc_set_curve k0 (int keysize) curve_id
                                        in (e, k\<lparr>key_type := ECC_PUBLICKEY\<rparr>)
                                   else (e2, k0));
                       (e4, x4) = (if e3 = MP_OKAY then sp_read_unsigned_bin (pub_x k3) (Buf (take keysize rest))
                                   else (e3, pub_x k3));
                       (e5, y5) = (if e4 = MP_OKAY then sp_read_unsigned_bin (pub_y k3) (Buf (take keysize (drop keysize rest)))
                                   else (e4, pub_y k3));
                       (e6, z6) = (if e5 = MP_OKAY then sp_set (pub_z k3) 1 else (e5, pub_z k3));
                       k6 = k3\<lparr>pub_x := x4, pub_y := y5, pub_z := z6\<rparr>
                   in (e6, if e6 \<noteq> MP_OKAY then ecc_wipe_numbers k6 else k6))"

definition wc_ecc_import_x963_ex2 :: "cbuf \<Rightarrow> 'x ecc_key \<Rightarrow> int \<Rightarrow> int \<Rightarrow> int \<times> 'x ecc_key" where
  "wc_ecc_import_x963_ex2 inp key curve_id untrusted =
     (if is_null inp then (BAD_FUNC_ARG, key)
      else if even (csize inp) then (ECC_BAD_ARG_E, key)
      else ecc_import_x963_raw inp key curve_id untrusted)"

definition wc_ecc_import_x963_ex :: "cbuf \<Rightarrow> 'x ecc_key \<Rightarrow> int \<Rightarrow> int \<times> 'x ecc_key" where
  "wc_ecc_import_x963_ex inp key curve_id = wc_ecc_import_x963_ex2 inp key curve_id 1"

definition wc_ecc_import_x963 :: "cbuf \<Rightarrow> 'x ecc_key \<Rightarrow> int \<times> 'x ecc_key" where
  "wc_ecc_import_x963 inp key = wc_ecc_import_x963_ex inp key ECC_CURVE_DEF"

text \<open>\<open>wc_export_int\<close> with the encoding \<open>WC_TYPE_UNSIGNED_BIN\<close>, and the exports of a key's parts
  that use it; a destination that is null is \<open>None\<close>.\<close>

definition wc_export_int :: "sp_int \<Rightarrow> byte list \<Rightarrow> nat \<Rightarrow> nat \<Rightarrow> int \<times> byte list \<times> nat" where
  "wc_export_int mp buf len keySz =
     (if len < keySz then (BUFFER_E, buf, keySz)
      else let mpSz = sp_unsigned_bin_size mp
           in if mpSz > keySz then (BUFFER_E, buf, keySz)
              else let b1 = blit buf 0 (zeros keySz);
                       (r, tail) = sp_to_unsigned_bin mp (drop (keySz - mpSz) b1)
                   in (r, take (keySz - mpSz) b1 @ tail, keySz))"

definition ecc_export_part :: "bool \<Rightarrow> sp_int \<Rightarrow> (byte list \<times> nat) option \<Rightarrow> nat \<Rightarrow> int \<times> (byte list \<times> nat) option" where
  "ecc_export_part allowed mp dst keySz =
     (case dst of
        None \<Rightarrow> (0, None)
      | Some (b, len) \<Rightarrow>
          if \<not> allowed then (BAD_FUNC_ARG, dst)
          else let (r, b', len') = wc_export_int mp b len keySz in (r, Some (b', len')))"

definition wc_ecc_export_ex ::
  "'x ecc_key \<Rightarrow> (byte list \<times> nat) option \<Rightarrow> (byte list \<times> nat) option \<Rightarrow> (byte list \<times> nat) option \<Rightarrow>
   int \<times> (byte list \<times> nat) option \<times> (byte list \<times> nat) option \<times> (byte list \<times> nat) option" where
  "wc_ecc_export_ex key qx qy d =
     (case key_dp key of
        None \<Rightarrow> (ECC_BAD_ARG_E, qx, qy, d)
      | Some s \<Rightarrow>
          if \<not> wc_ecc_is_valid_idx (key_idx key) then (ECC_BAD_ARG_E, qx, qy, d)
          else let keySz = set_size s;
                   public = (key_type key \<noteq> ECC_PRIVATEKEY_ONLY);
                   (r1, d1) = ecc_export_part (key_type key = ECC_PRIVATEKEY \<or> key_type key = ECC_PRIVATEKEY_ONLY) (key_k key) d keySz
               in if r1 \<noteq> 0 then (r1, qx, qy, d1)
                  else let (r2, qx2) = ecc_export_part public (pub_x key) qx keySz
                       in if r2 \<noteq> 0 then (r2, qx2, qy, d1)
                          else let (r3, qy3) = ecc_export_part public (pub_y key) qy keySz in (r3, qx2, qy3, d1))"

definition wc_ecc_export_private_only :: "'x ecc_key \<Rightarrow> byte list \<Rightarrow> nat \<Rightarrow> int \<times> byte list \<times> nat" where
  "wc_ecc_export_private_only key out outLen =
     (let (r, _, _, d) = wc_ecc_export_ex key None None (Some (out, outLen))
      in (r, fst (the d), snd (the d)))"

definition wc_ecc_export_public_raw ::
  "'x ecc_key \<Rightarrow> byte list \<times> nat \<Rightarrow> byte list \<times> nat \<Rightarrow> int \<times> (byte list \<times> nat) option \<times> (byte list \<times> nat) option" where
  "wc_ecc_export_public_raw key qx qy =
     (let (r, qx', qy', _) = wc_ecc_export_ex key (Some qx) (Some qy) None in (r, qx', qy'))"

definition ecc_check_privkey_range :: "'x ecc_key \<Rightarrow> ('w, int \<times> unit) cmd" where
  "ecc_check_privkey_range key =
     (case key_dp key of
        None \<Rightarrow> ret (BAD_FUNC_ARG, ())
      | Some s \<Rightarrow>
          if sp_iszero (key_k key) then ret (ECC_PRIV_KEY_E, ())
          else do {
            ok \<leftarrow> XMALLOC;
            if \<not> ok then ret (MEMORY_E, ())
            else do {
              let (r1, o1) = sp_init sp_zeroed;
              let (r2, o2) = (if r1 = 0 then sp_read_radix o1 (set_order s) 16 else (r1, o1));
              let r3 = (if r1 = 0 \<and> r2 = 0 \<and> sp_cmp (Some (key_k key)) (Some o2) \<noteq> MP_LT then ECC_PRIV_KEY_E else r2);
              XFREE (Freed_obj ''mp_int'' False);
              ret (r3, ())
            }
          })"

text \<open>The import of a private scalar without a public part.\<close>

definition ecc_import_private_key_raw :: "cbuf \<Rightarrow> 'x ecc_key \<Rightarrow> int \<Rightarrow> ('w, int \<times> 'x ecc_key) cmd" where
  "ecc_import_private_key_raw priv key curve_id =
     (if is_null priv then ret (BAD_FUNC_ARG, key)
      else let (r0, k0) = wc_ecc_set_curve (wc_ecc_reset key) (int (csize priv)) curve_id;
               k1 = k0\<lparr>key_type := ECC_PRIVATEKEY_ONLY\<rparr>
           in if r0 \<noteq> 0 then ret (r0, k1)
              else let (r2, k) = sp_read_unsigned_bin (key_k k1) priv; k2 = k1\<lparr>key_k := k\<rparr>
                   in if r2 = 0 then do { (r3, _) \<leftarrow> ecc_check_privkey_range k2; ret (r3, k2) }
                      else ret (r2, k2))"

definition wc_ecc_import_private_key_ex :: "cbuf \<Rightarrow> 'x ecc_key \<Rightarrow> int \<Rightarrow> ('w, int \<times> 'x ecc_key) cmd" where
  "wc_ecc_import_private_key_ex priv key curve_id =
     (if is_null priv then ret (BAD_FUNC_ARG, key) else ecc_import_private_key_raw priv key curve_id)"

section \<open>Operations that a device answers\<close>

definition WC_ALGO_TYPE_PK :: int where [simp]: "WC_ALGO_TYPE_PK = 3"
definition WC_PK_TYPE_ECDH :: int where [simp]: "WC_PK_TYPE_ECDH = 3"
definition WC_PK_TYPE_EC_KEYGEN :: int where [simp]: "WC_PK_TYPE_EC_KEYGEN = 9"

text \<open>The request a callback gets; the pointers of the two unions this build uses, null where the
  request does not set them.  The callback returns its code and the request with what it wrote
  through the pointers; a callback does not write to the two keys of an agreement.\<close>

record 'x wc_CryptoInfo =
  algo_type :: int
  pk_type :: int
  ecdh_private_key :: "'x ecc_key option"
  ecdh_public_key :: "'x ecc_key option"
  ecdh_out :: "byte list option"
  ecdh_outlen :: "nat option"
  eckg_rng :: "WC_RNG option"
  eckg_key :: "'x ecc_key option"
  eckg_size :: int
  eckg_curveId :: int

definition info_zeroed :: "'x wc_CryptoInfo" where
  "info_zeroed = \<lparr>algo_type = 0, pk_type = 0, ecdh_private_key = None, ecdh_public_key = None, ecdh_out = None,
     ecdh_outlen = None, eckg_rng = None, eckg_key = None, eckg_size = 0, eckg_curveId = 0\<rparr>"

type_synonym ('cb, 'x, 'z) dispatch =
  "'cb \<Rightarrow> int \<Rightarrow> 'x wc_CryptoInfo \<Rightarrow> ptr \<Rightarrow> (('cb, 'z) wc_world_scheme, int \<times> 'x wc_CryptoInfo) cmd"

text \<open>Find the device and call it; \<open>CRYPTOCB_UNAVAILABLE\<close> when there is no device or no callback.\<close>

definition crypto_dispatch ::
  "('cb, 'x, 'z) dispatch \<Rightarrow> int \<Rightarrow> 'x wc_CryptoInfo \<Rightarrow> (('cb, 'z) wc_world_scheme, int \<times> 'x wc_CryptoInfo) cmd" where
  "crypto_dispatch call devId info = do {
     g \<leftarrow> State (\<lambda>h. (gCryptoDev (world h), h));
     case wc_CryptoCb_FindDevice g devId WC_ALGO_TYPE_PK of
       None \<Rightarrow> ret (CRYPTOCB_UNAVAILABLE, info)
     | Some i \<Rightarrow> (case dev_cb (g ! i) of
           None \<Rightarrow> ret (CRYPTOCB_UNAVAILABLE, info)
         | Some cb \<Rightarrow> call cb (dev_devId (g ! i)) info (dev_ctx (g ! i)))
   }"

definition wc_CryptoCb_Ecdh ::
  "('cb, 'x, 'z) dispatch \<Rightarrow> 'x ecc_key \<Rightarrow> 'x ecc_key \<Rightarrow> byte list \<Rightarrow> nat \<Rightarrow>
   (('cb, 'z) wc_world_scheme, int \<times> byte list \<times> nat) cmd" where
  "wc_CryptoCb_Ecdh call private_key public_key out outlen = do {
     (r, info) \<leftarrow> crypto_dispatch call (key_devId private_key)
        (info_zeroed\<lparr>algo_type := WC_ALGO_TYPE_PK, pk_type := WC_PK_TYPE_ECDH, ecdh_private_key := Some private_key,
           ecdh_public_key := Some public_key, ecdh_out := Some out, ecdh_outlen := Some outlen\<rparr>);
     ret (wc_CryptoCb_TranslateErrorCode r,
          case ecdh_out info of Some b \<Rightarrow> b | None \<Rightarrow> out,
          case ecdh_outlen info of Some n \<Rightarrow> n | None \<Rightarrow> outlen)
   }"

definition wc_CryptoCb_MakeEccKey ::
  "('cb, 'x, 'z) dispatch \<Rightarrow> WC_RNG option \<Rightarrow> int \<Rightarrow> 'x ecc_key \<Rightarrow> int \<Rightarrow>
   (('cb, 'z) wc_world_scheme, int \<times> 'x ecc_key) cmd" where
  "wc_CryptoCb_MakeEccKey call rng keySize key curveId = do {
     (r, info) \<leftarrow> crypto_dispatch call (key_devId key)
        (info_zeroed\<lparr>algo_type := WC_ALGO_TYPE_PK, pk_type := WC_PK_TYPE_EC_KEYGEN, eckg_rng := rng, eckg_key := Some key,
           eckg_size := keySize, eckg_curveId := curveId\<rparr>);
     ret (wc_CryptoCb_TranslateErrorCode r, case eckg_key info of Some k \<Rightarrow> k | None \<Rightarrow> key)
   }"

definition wc_ecc_shared_secret ::
  "('cb, 'x, 'z) dispatch \<Rightarrow> 'x ecc_key \<Rightarrow> 'x ecc_key \<Rightarrow> byte list \<Rightarrow> nat \<Rightarrow>
   (('cb, 'z) wc_world_scheme, int \<times> byte list \<times> nat) cmd" where
  "wc_ecc_shared_secret call private_key public_key out outlen =
     (if key_devId private_key \<noteq> INVALID_DEVID then do {
        (err, out', outlen') \<leftarrow> wc_CryptoCb_Ecdh call private_key public_key out outlen;
        if err \<noteq> CRYPTOCB_UNAVAILABLE then ret (err, out', outlen') else ret (NO_VALID_DEVID, out', outlen')
      }
      else ret (NO_VALID_DEVID, out, outlen))"

definition ecc_make_key_raw ::
  "('cb, 'x, 'z) dispatch \<Rightarrow> WC_RNG option \<Rightarrow> int \<Rightarrow> 'x ecc_key \<Rightarrow> int \<Rightarrow> word32 \<Rightarrow>
   (('cb, 'z) wc_world_scheme, int \<times> 'x ecc_key) cmd" where
  "ecc_make_key_raw call rng keysize key curve_id flags =
     (if rng = None then ret (BAD_FUNC_ARG, key)
      else let (r, k1) = wc_ecc_set_curve (wc_ecc_reset key) keysize curve_id
           in if r \<noteq> 0 then ret (r, k1)
              else let k2 = k1\<lparr>key_flags := flags AND 0xFF\<rparr>
                   in if key_devId k2 \<noteq> INVALID_DEVID then do {
                        (err, k3) \<leftarrow> wc_CryptoCb_MakeEccKey call rng keysize k2 curve_id;
                        if err \<noteq> CRYPTOCB_UNAVAILABLE then ret (err, k3) else ret (NO_VALID_DEVID, k3)
                      }
                      else ret (NO_VALID_DEVID, k2))"

definition wc_ecc_make_key_ex2 ::
  "('cb, 'x, 'z) dispatch \<Rightarrow> WC_RNG option \<Rightarrow> int \<Rightarrow> 'x ecc_key \<Rightarrow> int \<Rightarrow> word32 \<Rightarrow>
   (('cb, 'z) wc_world_scheme, int \<times> 'x ecc_key) cmd" where
  "wc_ecc_make_key_ex2 call rng keysize key curve_id flags = ecc_make_key_raw call rng keysize key curve_id flags"

definition wc_ecc_make_key_ex ::
  "('cb, 'x, 'z) dispatch \<Rightarrow> WC_RNG option \<Rightarrow> int \<Rightarrow> 'x ecc_key \<Rightarrow> int \<Rightarrow>
   (('cb, 'z) wc_world_scheme, int \<times> 'x ecc_key) cmd" where
  "wc_ecc_make_key_ex call rng keysize key curve_id = wc_ecc_make_key_ex2 call rng keysize key curve_id WC_ECC_FLAG_NONE"

definition wc_ecc_make_key ::
  "('cb, 'x, 'z) dispatch \<Rightarrow> WC_RNG option \<Rightarrow> int \<Rightarrow> 'x ecc_key \<Rightarrow> (('cb, 'z) wc_world_scheme, int \<times> 'x ecc_key) cmd" where
  "wc_ecc_make_key call rng keysize key = wc_ecc_make_key_ex call rng keysize key ECC_CURVE_DEF"

section \<open>The curve table\<close>

lemmas ecc_set_defs = set_secp224r1_def set_prime239v1_def set_secp256r1_def set_secp384r1_def set_secp521r1_def set_end_def

lemma set_id_simps [simp]:
  "set_id set_secp224r1 = 14" "set_id set_prime239v1 = 4" "set_id set_secp256r1 = 7" "set_id set_secp384r1 = 15"
  "set_id set_secp521r1 = 16" "set_id set_end = -1"
  by (simp_all add: ecc_set_defs)

lemma set_size_simps [simp]:
  "set_size set_secp224r1 = 28" "set_size set_prime239v1 = 30" "set_size set_secp256r1 = 32" "set_size set_secp384r1 = 48"
  "set_size set_secp521r1 = 66" "set_size set_end = 0"
  by (simp_all add: ecc_set_defs)

lemma valid_idx: "wc_ecc_is_valid_idx n \<longleftrightarrow> -1 \<le> n \<and> n < 5"
  by (auto simp: wc_ecc_is_valid_idx_def ecc_sets_def)

lemma get_curve_idx_id:
  "0 \<le> i \<Longrightarrow> i < 5 \<Longrightarrow> wc_ecc_get_curve_idx (wc_ecc_get_curve_id i) = i"
proof -
  assume "0 \<le> i" "i < 5"
  then have "i \<in> {0, 1, 2, 3, 4}" by auto
  then show ?thesis
    by (auto simp: wc_ecc_get_curve_idx_def wc_ecc_get_curve_id_def valid_idx ecc_sets_def)
qed

lemma set_curve_p256:
  "\<lbrakk>key_idx key \<noteq> -1; n \<le> 66\<rbrakk> \<Longrightarrow>
   wc_ecc_set_curve key n ECC_SECP256R1 = (0, key\<lparr>key_idx := 2, key_dp := Some set_secp256r1\<rparr>)"
  by (simp add: wc_ecc_set_curve_def ecc_sets_def)

section \<open>Well-formed keys\<close>

definition sp_shape :: "sp_int \<Rightarrow> bool" where
  "sp_shape a \<longleftrightarrow> length (dp a) = SP_INT_DIGITS"

definition sp_good :: "sp_int \<Rightarrow> bool" where
  "sp_good a \<longleftrightarrow> sp_ok a \<and> clamped a \<and> sp_size a = SP_INT_DIGITS \<and> sp_shape a"

definition key_shape :: "'x ecc_key \<Rightarrow> bool" where
  "key_shape key \<longleftrightarrow> sp_shape (pub_x key) \<and> sp_shape (pub_y key) \<and> sp_shape (pub_z key) \<and> sp_shape (key_k key)"

definition key_good :: "'x ecc_key \<Rightarrow> bool" where
  "key_good key \<longleftrightarrow> sp_good (pub_x key) \<and> sp_good (pub_y key) \<and> sp_good (pub_z key) \<and> sp_good (key_k key)"

lemma key_good_shape: "key_good key \<Longrightarrow> key_shape key"
  by (simp add: key_good_def key_shape_def sp_good_def)

lemma sp_init_good: "sp_shape a \<Longrightarrow> sp_good (sp_init_size_raw a SP_INT_DIGITS) \<and> sp_val (sp_init_size_raw a SP_INT_DIGITS) = 0"
  by (auto simp: sp_good_def sp_shape_def sp_init_size_raw_def sp_zero_raw_def sp_ok_def clamped_def sp_val_def)

lemma sp_shape_zeroed [simp]: "sp_shape sp_zeroed" by (simp add: sp_shape_def sp_zeroed_def)

lemma init_numbers:
  "ecc_init_numbers key =
     (0, key\<lparr>key_k := sp_init_size_raw (key_k key) SP_INT_DIGITS, pub_x := sp_init_size_raw (pub_x key) SP_INT_DIGITS,
        pub_y := sp_init_size_raw (pub_y key) SP_INT_DIGITS, pub_z := sp_init_size_raw (pub_z key) SP_INT_DIGITS\<rparr>)"
  by (simp add: ecc_init_numbers_def sp_init_multi_def)

definition key_fresh :: "'x ecc_key \<Rightarrow> bool" where
  "key_fresh key \<longleftrightarrow> key_good key \<and> key_idx key \<noteq> ECC_CUSTOM_IDX"

lemma init_ex_ok:
  "\<exists>k. wc_ecc_init_ex devId = (0, k) \<and> key_fresh k \<and> key_devId k = devId \<and> key_type k = 0 \<and> key_devCtx k = None"
  using sp_init_good [OF sp_shape_zeroed]
  by (auto simp: wc_ecc_init_ex_def init_numbers ecc_key_zeroed_def key_good_def key_fresh_def)

lemma sp_read_good:
  assumes "sp_good a" "length bs \<le> 140"
  obtains a' where "sp_read_unsigned_bin a (Buf bs) = (0, a')" "sp_good a'" "sp_val a' = be_val bs"
proof -
  from assms have "sp_ok a" "length bs \<le> 4 * sp_size a" by (simp_all add: sp_good_def)
  from sp_read_unsigned_bin_ok [OF this] obtain a' where
    "sp_read_unsigned_bin a (Buf bs) = (0, a')" "sp_ok a'" "clamped a'" "sp_val a' = be_val bs" "sp_size a' = sp_size a" .
  then show thesis using that assms by (auto simp: sp_good_def sp_shape_def sp_ok_def)
qed

lemma sp_set_good: "sp_good a \<Longrightarrow> \<exists>a'. sp_set a 1 = (0, a') \<and> sp_good a'"
  by (auto simp: sp_set_def sp_set_raw_def sp_good_def sp_shape_def sp_ok_def clamped_def)

section \<open>Public keys\<close>

lemma import_x963_p256:
  assumes key: "key_shape key" "key_idx key \<noteq> -1" and l: "length xs = length ys" "length ys \<le> 66"
  obtains k where "wc_ecc_import_x963_ex (Buf (4 # xs @ ys)) key ECC_SECP256R1 = (0, k)"
    "key_good k" "key_type k = ECC_PUBLICKEY" "key_idx k = 2" "key_dp k = Some set_secp256r1"
    "sp_val (pub_x k) = be_val xs" "sp_val (pub_y k) = be_val ys" "key_devId k = key_devId key" "key_devCtx k = key_devCtx key"
proof -
  let ?i = "\<lambda>a. sp_init_size_raw a SP_INT_DIGITS"
  have g: "sp_good (?i (pub_x key))" "sp_good (?i (pub_y key))" "sp_good (?i (pub_z key))" "sp_good (?i (key_k key))"
    using key sp_init_good by (auto simp: key_shape_def)
  obtain x where x: "sp_read_unsigned_bin (?i (pub_x key)) (Buf xs) = (0, x)" "sp_good x" "sp_val x = be_val xs"
    using sp_read_good [OF g(1), of xs] l by auto
  obtain y where y: "sp_read_unsigned_bin (?i (pub_y key)) (Buf ys) = (0, y)" "sp_good y" "sp_val y = be_val ys"
    using sp_read_good [OF g(2), of ys] l by auto
  obtain z where z: "sp_set (?i (pub_z key)) 1 = (0, z)" "sp_good z"
    using sp_set_good [OF g(3)] by auto
  let ?k = "key\<lparr>key_state := 0, key_k := ?i (key_k key), key_idx := 2, key_dp := Some set_secp256r1,
      key_type := 1, pub_x := x, pub_y := y, pub_z := z\<rparr>"
  have "length (xs @ ys) div 2 = length ys" using l by simp
  then have "wc_ecc_import_x963_ex (Buf (4 # xs @ ys)) key ECC_SECP256R1 = (0, ?k)"
    using x y z l key
    by (simp add: wc_ecc_import_x963_ex_def wc_ecc_import_x963_ex2_def ecc_import_x963_raw_def
          init_numbers wc_ecc_reset_def set_curve_p256 [simplified])
  then show thesis by (rule that) (use x y z g(4) in \<open>simp_all add: key_good_def\<close>)
qed

lemma import_x963_other:
  assumes "b \<noteq> 4" "even (length bs)"
  shows "fst (wc_ecc_import_x963_ex (Buf (b # bs)) key ECC_SECP256R1) = (if b = 2 \<or> b = 3 then NOT_COMPILED_IN else ASN_PARSE_E)"
  using assms
  by (simp add: wc_ecc_import_x963_ex_def wc_ecc_import_x963_ex2_def ecc_import_x963_raw_def init_numbers
        wc_ecc_reset_def rc_defs Let_def)

lemma be_val_zeros [simp]: "be_val (zeros n) = 0"
  by (induction n) (simp_all add: zeros_def)

lemma zeros_be_bytes: "v < 256 ^ n \<Longrightarrow> zeros m @ be_bytes n v = be_bytes (m + n) v"
  using be_bytes_be_val [of "zeros m @ be_bytes n v"] by (simp add: be_val_append be_val_be_bytes)

lemma be_val_inj: "length xs = n \<Longrightarrow> be_bytes n (be_val xs) = xs"
  using be_bytes_be_val by blast

lemma bin_size_le: "sp_good a \<Longrightarrow> sp_val a < 256 ^ n \<Longrightarrow> sp_unsigned_bin_size a \<le> n"
proof (rule ccontr)
  assume a: "sp_good a" "sp_val a < 256 ^ n" and "\<not> sp_unsigned_bin_size a \<le> n"
  then have n: "n \<le> sp_unsigned_bin_size a - 1" and p: "0 < sp_unsigned_bin_size a" by simp_all
  have "256 ^ (sp_unsigned_bin_size a - 1) \<le> sp_val a"
    using sp_unsigned_bin_size_len [of a] a p by (simp add: is_len_def sp_good_def)
  moreover have "(256 :: nat) ^ n \<le> 256 ^ (sp_unsigned_bin_size a - 1)" using n by (intro power_increasing) simp_all
  ultimately show False using a(2) by linarith
qed

lemma to_bin_ok:
  assumes "sp_good a" "sp_unsigned_bin_size a \<le> length out"
  shows "sp_to_unsigned_bin a out = (0, be_bytes (sp_unsigned_bin_size a) (sp_val a) @ drop (sp_unsigned_bin_size a) out)"
proof -
  have "sp_val a < 256 ^ sp_unsigned_bin_size a"
    using sp_unsigned_bin_size_len [of a] assms(1) by (simp add: is_len_def sp_good_def)
  then show ?thesis
    using sp_to_unsigned_bin_len_ok [of a "sp_unsigned_bin_size a" out] assms
    by (simp add: sp_to_unsigned_bin_def sp_good_def prod_eq_iff)
qed

lemma export_coord_ok:
  assumes "sp_good a" "sp_val a < 256 ^ n" "n \<le> 257"
  shows "\<exists>t. export_coord a n (sp_unsigned_bin_size a) = (0, be_bytes n (sp_val a) @ t)"
proof -
  define s where "s = sp_unsigned_bin_size a"
  have s: "s \<le> n" using bin_size_le [OF assms(1,2)] by (simp add: s_def)
  have v: "sp_val a < 256 ^ s"
    using sp_unsigned_bin_size_len [of a] assms(1) by (simp add: is_len_def sp_good_def s_def)
  have "take (n - s) (zeros 257) = zeros (n - s)" using assms(3) by (simp add: zeros_def)
  with to_bin_ok [OF assms(1), of "drop (n - s) (zeros 257)"] s assms(3) zeros_be_bytes [OF v, of "n - s"]
  show ?thesis by (simp add: export_coord_def s_def [symmetric]) (metis append_assoc)
qed

definition x963 :: "'x ecc_key \<Rightarrow> byte list" where
  "x963 key = 4 # be_bytes 32 (sp_val (pub_x key)) @ be_bytes 32 (sp_val (pub_y key))"

definition p256_key :: "'x ecc_key \<Rightarrow> bool" where
  "p256_key key \<longleftrightarrow> key_good key \<and> key_idx key = 2 \<and> key_dp key = Some set_secp256r1"

definition p256_public :: "'x ecc_key \<Rightarrow> bool" where
  "p256_public key \<longleftrightarrow> p256_key key \<and> (key_type key = ECC_PUBLICKEY \<or> key_type key = ECC_PRIVATEKEY) \<and>
     sp_val (pub_x key) < 256 ^ 32 \<and> sp_val (pub_y key) < 256 ^ 32"

lemma length_x963 [simp]: "length (x963 key) = 65"
  by (simp add: x963_def)

lemma blit_split3:
  assumes "length bs = m" "length cs = n" "length out \<ge> Suc (m + n)"
  shows "blit (blit (out[0 := b]) (Suc 0) bs) (Suc m) cs = blit out 0 (b # bs @ cs)"
  using assms by (cases out) (auto simp: blit_def add.commute)

lemma clean_export_x963:
  assumes "p256_public key" "65 \<le> length out" "65 \<le> n"
  shows "clean (\<lambda>_. True) 0 h (wc_ecc_export_x963_ex key (Some out) n 0)
    (\<lambda>r (o', n'). r = 0 \<and> o' = Some (blit out 0 (x963 key)) \<and> n' = 65)"
proof -
  from assms(1) have k: "sp_good (pub_x key)" "sp_good (pub_y key)" "sp_val (pub_x key) < 256 ^ 32" "sp_val (pub_y key) < 256 ^ 32"
    "key_dp key = Some set_secp256r1" "key_idx key = 2" "key_type key \<noteq> 3" "key_type key \<noteq> 0"
    by (auto simp: p256_public_def p256_key_def key_good_def)
  obtain t u where e: "export_coord (pub_x key) 32 (sp_unsigned_bin_size (pub_x key)) = (0, be_bytes 32 (sp_val (pub_x key)) @ t)"
    "export_coord (pub_y key) 32 (sp_unsigned_bin_size (pub_y key)) = (0, be_bytes 32 (sp_val (pub_y key)) @ u)"
    using export_coord_ok [OF k(1,3)] export_coord_ok [OF k(2,4)] by auto
  have s: "sp_unsigned_bin_size (pub_x key) \<le> 32" "sp_unsigned_bin_size (pub_y key) \<le> 32"
    using k bin_size_le by auto
  show ?thesis
    unfolding wc_ecc_export_x963_ex_def wc_ecc_export_x963_def ecc_export_x963_raw_def
    using k e s assms(2,3) blit_split3 [of "be_bytes 32 (sp_val (pub_x key))" 32 "be_bytes 32 (sp_val (pub_y key))" 32 out 4]
    by (auto simp: valid_idx x963_def Let_def intro!: clean_malloc clean_free clean_ret clean_fail)
qed


section \<open>Private keys\<close>

definition p256_order :: nat where
  "p256_order = 0xFFFFFFFF00000000FFFFFFFFFFFFFFFFBCE6FAADA7179E84F3B9CAC2FC632551"

lemma order_hex: "list_all is_hex (set_order set_secp256r1)" "length (set_order set_secp256r1) = 64"
  "le_hex (rev (set_order set_secp256r1)) = p256_order"
  by (simp_all add: set_secp256r1_def is_hex_def hex_digit_def HexCharToByte_def p256_order_def)

lemma order_read:
  obtains o' where "sp_read_radix (sp_init_size_raw sp_zeroed SP_INT_DIGITS) (set_order set_secp256r1) 16 = (0, o')"
    "sp_ok o'" "clamped o'" "sp_val o' = p256_order"
proof -
  have "sp_ok (sp_init_size_raw sp_zeroed SP_INT_DIGITS)" using sp_init_good [OF sp_shape_zeroed] by (simp add: sp_good_def)
  from sp_read_radix_16_ok [OF this order_hex(1)] obtain o' where
    o: "sp_read_radix_16 (sp_init_size_raw sp_zeroed SP_INT_DIGITS) (set_order set_secp256r1) = (0, o')"
    "sp_ok o'" "clamped o'" "sp_val o' = p256_order" by (auto simp: order_hex sp_init_size_raw_def)
  moreover have "take 1 (set_order set_secp256r1) \<noteq> ''-''" by (simp add: set_secp256r1_def)
  moreover have "dropWhile (\<lambda>c. c = CHR ''0'') (set_order set_secp256r1) = set_order set_secp256r1"
    by (simp add: set_secp256r1_def)
  ultimately have "sp_read_radix (sp_init_size_raw sp_zeroed SP_INT_DIGITS) (set_order set_secp256r1) 16 = (0, o')"
    unfolding sp_read_radix_def by simp
  then show thesis using that o by blast
qed

lemma sp_iszero_val: "sp_good a \<Longrightarrow> sp_iszero a \<longleftrightarrow> sp_val a = 0"
  using sp_val_used_less [of "sp_init_size_raw sp_zeroed SP_INT_DIGITS" a] sp_init_good [OF sp_shape_zeroed]
  by (cases "used a = 0") (auto simp: sp_iszero_def sp_good_def sp_init_size_raw_def sp_zero_raw_def sp_val_def [of a])

lemma clean_privkey_range:
  assumes "p256_key key"
  shows "clean (\<lambda>_. True) 0 h (ecc_check_privkey_range key)
    (\<lambda>r _. r = (if 0 < sp_val (key_k key) \<and> sp_val (key_k key) < p256_order then 0 else ECC_PRIV_KEY_E))"
proof -
  from assms have k: "key_dp key = Some set_secp256r1" "sp_good (key_k key)" "sp_ok (key_k key)" "clamped (key_k key)"
    by (simp_all add: p256_key_def key_good_def sp_good_def)
  obtain o' where o: "sp_read_radix (sp_init_size_raw sp_zeroed SP_INT_DIGITS) (set_order set_secp256r1) 16 = (0, o')"
    "sp_ok o'" "clamped o'" "sp_val o' = p256_order" by (rule order_read)
  show ?thesis
    unfolding ecc_check_privkey_range_def
    using k o sp_cmp_abs_ok [OF k(3) o(2) k(4) o(3)]
    by (auto simp: sp_iszero_val sp_init_def sp_cmp_def Let_def MP_LT_def MP_GT_def MP_EQ_def
          intro!: clean_ret clean_malloc clean_free clean_fail)
qed


lemma clean_import_private:
  assumes key: "key_fresh key" and l: "length bs \<le> 66"
  shows "clean (\<lambda>_. True) 0 h (wc_ecc_import_private_key_ex (Buf bs) key ECC_SECP256R1)
    (\<lambda>r k. r = (if 0 < be_val bs \<and> be_val bs < p256_order then 0 else ECC_PRIV_KEY_E) \<and>
       p256_key k \<and> key_type k = ECC_PRIVATEKEY_ONLY \<and> sp_val (key_k k) = be_val bs \<and>
       key_devId k = key_devId key \<and> key_devCtx k = key_devCtx key)"
proof -
  have g: "sp_good (pub_x key)" "sp_good (pub_y key)" "sp_good (pub_z key)" "sp_good (key_k key)" "key_idx key \<noteq> -1"
    using key by (simp_all add: key_fresh_def key_good_def)
  obtain k where k: "sp_read_unsigned_bin (key_k key) (Buf bs) = (0, k)" "sp_good k" "sp_val k = be_val bs"
    using sp_read_good [OF g(4), of bs] l by auto
  let ?k = "key\<lparr>key_state := 0, key_idx := 2, key_dp := Some set_secp256r1, key_type := 3, key_k := k\<rparr>"
  have c: "p256_key ?k" using g k by (simp add: p256_key_def key_good_def)
  have eq: "wc_ecc_import_private_key_ex (Buf bs) key ECC_SECP256R1 = do { (r3, _) \<leftarrow> ecc_check_privkey_range ?k; ret (r3, ?k) }"
    using g(5) k(1) l
    by (simp add: wc_ecc_import_private_key_ex_def ecc_import_private_key_raw_def wc_ecc_reset_def set_curve_p256 [simplified] Let_def)
  show ?thesis
    unfolding eq using c k by (auto intro!: clean_bind [OF clean_privkey_range [OF c]] clean_ret clean_fail)
qed

lemma export_int_ok:
  assumes "sp_good a" "sp_val a < 256 ^ n" "n \<le> length buf" "n \<le> len"
  shows "wc_export_int a buf len n = (0, blit buf 0 (be_bytes n (sp_val a)), n)"
proof -
  define s where "s = sp_unsigned_bin_size a"
  have s: "s \<le> n" using bin_size_le [OF assms(1,2)] by (simp add: s_def)
  have v: "sp_val a < 256 ^ s"
    using sp_unsigned_bin_size_len [of a] assms(1) by (simp add: is_len_def sp_good_def s_def)
  have b: "blit buf 0 (zeros n) = zeros (n - s) @ zeros s @ drop n buf"
    using s zeros_add [of "n - s" s] by (simp add: blit_def)
  have t: "sp_to_unsigned_bin a (zeros s @ drop n buf) = (0, be_bytes s (sp_val a) @ drop n buf)"
    using to_bin_ok [OF assms(1), of "zeros s @ drop n buf"] by (simp add: s_def)
  show ?thesis
    using s assms(3,4) t zeros_be_bytes [OF v, of "n - s"]
    by (simp add: wc_export_int_def s_def [symmetric] b) (simp add: blit_def)
qed

lemma export_private_only_ok:
  assumes "p256_key key" "key_type key = ECC_PRIVATEKEY \<or> key_type key = ECC_PRIVATEKEY_ONLY"
    "sp_val (key_k key) < 256 ^ 32" "32 \<le> length out" "32 \<le> n"
  shows "wc_ecc_export_private_only key out n = (0, blit out 0 (be_bytes 32 (sp_val (key_k key))), 32)"
  using assms export_int_ok [of "key_k key" 32 out n]
  by (auto simp: wc_ecc_export_private_only_def wc_ecc_export_ex_def ecc_export_part_def p256_key_def key_good_def valid_idx)

section \<open>Devices\<close>

lemma dispatch_none:
  assumes "dev_wf (gCryptoDev (world h))" "\<And>cb ctx. dev_view (gCryptoDev (world h)) devId \<noteq> Some (Some cb, ctx)"
  shows "run_state (crypto_dispatch call devId info) h = ((CRYPTOCB_UNAVAILABLE, info), h)"
proof (cases "wc_CryptoCb_GetDevice (gCryptoDev (world h)) devId")
  case (Some i)
  then have i: "i < length (gCryptoDev (world h))" "dev_devId (gCryptoDev (world h) ! i) = devId"
    using GetDevice_Some by blast+
  have "dev_cb (gCryptoDev (world h) ! i) = None"
  proof (cases "devId = INVALID_DEVID")
    case True
    then show ?thesis using assms(1) i by (auto simp: dev_wf_def list_all_length)
  next
    case False
    then show ?thesis using assms(2) Some by (cases "dev_cb (gCryptoDev (world h) ! i)") (auto simp: dev_view_def)
  qed
  then show ?thesis using Some by (simp add: crypto_dispatch_def State_Monad.bind_def wc_CryptoCb_FindDevice_def)
qed (simp add: crypto_dispatch_def State_Monad.bind_def wc_CryptoCb_FindDevice_def)

lemma dispatch_some:
  assumes "dev_view (gCryptoDev (world h)) devId = Some (Some cb, ctx)"
  shows "run_state (crypto_dispatch call devId info) h = run_state (call cb devId info ctx) h"
  using assms GetDevice_Some [of "gCryptoDev (world h)" devId]
  by (auto simp: crypto_dispatch_def State_Monad.bind_def wc_CryptoCb_FindDevice_def dev_view_def split: if_splits)


lemma shared_secret_none:
  assumes "dev_wf (gCryptoDev (world h))"
    "\<And>cb ctx. dev_view (gCryptoDev (world h)) (key_devId private_key) \<noteq> Some (Some cb, ctx)"
  shows "run_state (wc_ecc_shared_secret call private_key public_key out n) h = ((NO_VALID_DEVID, out, n), h)"
proof (cases "key_devId private_key = INVALID_DEVID")
  case False
  then show ?thesis
    using dispatch_none [OF assms, of call]
    by (simp add: wc_ecc_shared_secret_def wc_CryptoCb_Ecdh_def State_Monad.bind_def wc_CryptoCb_TranslateErrorCode_def rc_defs)
qed (simp add: wc_ecc_shared_secret_def)

text \<open>What making a key has changed in it before it turns out that there is no device: the state, the
  curve and the flags, none of its numbers.\<close>

lemma make_key_none:
  assumes "dev_wf (gCryptoDev (world h))"
    "\<And>cb ctx. dev_view (gCryptoDev (world h)) (key_devId key) \<noteq> Some (Some cb, ctx)"
    "rng \<noteq> None" "key_idx key \<noteq> -1" "n \<le> 66"
  shows "run_state (wc_ecc_make_key_ex call rng n key ECC_SECP256R1) h =
    ((NO_VALID_DEVID, key\<lparr>key_state := ECC_STATE_NONE, key_idx := 2, key_dp := Some set_secp256r1, key_flags := WC_ECC_FLAG_NONE\<rparr>), h)"
proof -
  have *: "run_state (crypto_dispatch call (key_devId key) info) h = ((CRYPTOCB_UNAVAILABLE, info), h)" for info
    using dispatch_none [OF assms(1,2)] .
  show ?thesis
    using assms(3-) *
    by (cases "key_devId key = INVALID_DEVID")
       (auto simp: wc_ecc_make_key_ex_def wc_ecc_make_key_ex2_def ecc_make_key_raw_def wc_ecc_reset_def set_curve_p256 [simplified]
         wc_CryptoCb_MakeEccKey_def State_Monad.bind_def wc_CryptoCb_TranslateErrorCode_def rc_defs Let_def)
qed

text \<open>The request the device of a key gets when a secret is agreed, and what the caller gets back.\<close>

abbreviation ecdh_request :: "'x ecc_key \<Rightarrow> 'x ecc_key \<Rightarrow> byte list \<Rightarrow> nat \<Rightarrow> 'x wc_CryptoInfo" where
  "ecdh_request private_key public_key out n \<equiv>
     info_zeroed\<lparr>algo_type := WC_ALGO_TYPE_PK, pk_type := WC_PK_TYPE_ECDH, ecdh_private_key := Some private_key,
       ecdh_public_key := Some public_key, ecdh_out := Some out, ecdh_outlen := Some n\<rparr>"

lemma shared_secret_wp:
  assumes "dev_view (gCryptoDev (world h)) (key_devId private_key) = Some (Some cb, ctx)"
    "wp (call cb (key_devId private_key) (ecdh_request private_key public_key out n) ctx)
      (\<lambda>(r, info) h'. \<exists>o' n'. ecdh_out info = Some o' \<and> ecdh_outlen info = Some n' \<and>
         Q (if r = NOT_COMPILED_IN \<or> r = CRYPTOCB_UNAVAILABLE then NO_VALID_DEVID else r, o', n') h') h"
  shows "wp (wc_ecc_shared_secret call private_key public_key out n) Q h"
proof -
  have "key_devId private_key \<noteq> INVALID_DEVID" using assms(1) by (auto simp: dev_view_def)
  then show ?thesis
    using assms(2) dispatch_some [OF assms(1), of call]
    by (auto simp: wc_ecc_shared_secret_def wc_CryptoCb_Ecdh_def wp_def State_Monad.bind_def wc_CryptoCb_TranslateErrorCode_def
        split: prod.splits if_splits)
qed


section \<open>Properties\<close>

text \<open>C34: A public key of the P-256 format is read back as it was written, and nothing but its
  format is checked: for 65 bytes, import succeeds exactly when the first byte is 4 (a
  compressed point gives \<open>NOT_COMPILED_IN\<close>, anything else \<open>ASN_PARSE_E\<close>), and then export
  writes the same 65 bytes, whatever the coordinates are, on the curve or not.\<close>

theorem x963_roundtrip:
  assumes "key_fresh key" "length bs = 65" "65 \<le> length out"
  shows "case wc_ecc_import_x963_ex (Buf bs) key ECC_SECP256R1 of
     (r, k) \<Rightarrow> r = (if hd bs = 4 then 0 else if hd bs = 2 \<or> hd bs = 3 then NOT_COMPILED_IN else ASN_PARSE_E) \<and>
       (r = 0 \<longrightarrow> clean (\<lambda>_. True) 0 h (wc_ecc_export_x963_ex k (Some out) (length out) 0)
          (\<lambda>e (o', n). e = 0 \<and> o' = Some (blit out 0 bs) \<and> n = 65))"
proof -
  obtain b cs where bs: "bs = b # cs" "length cs = 64" using assms(2) by (cases bs) auto
  show ?thesis
  proof (cases "b = 4")
    case True
    define xs ys where "xs = take 32 cs" and "ys = drop 32 cs"
    have xy: "length xs = 32" "length ys = 32" "cs = xs @ ys" using bs by (simp_all add: xs_def ys_def)
    obtain k where k: "wc_ecc_import_x963_ex (Buf (4 # xs @ ys)) key ECC_SECP256R1 = (0, k)"
      "key_good k" "key_type k = ECC_PUBLICKEY" "key_idx k = 2" "key_dp k = Some set_secp256r1"
      "sp_val (pub_x k) = be_val xs" "sp_val (pub_y k) = be_val ys"
      using import_x963_p256 [of key xs ys] assms(1) xy by (auto simp: key_fresh_def key_good_shape)
    have "p256_public k" using k xy be_val_less [of xs] be_val_less [of ys] by (simp add: p256_public_def p256_key_def)
    moreover have "x963 k = bs" using k xy bs True by (simp add: x963_def be_val_inj)
    ultimately show ?thesis using clean_export_x963 [of k out "length out"] k(1) assms(3) bs True xy by simp
  next
    case False
    then show ?thesis using import_x963_other [of b cs key] bs
      by (auto split: prod.splits simp: rc_defs)
  qed
qed

definition demo_key :: "unit ecc_key" where
  "demo_key = snd (wc_ecc_init_ex INVALID_DEVID)"

lemma demo_key_fresh: "key_fresh demo_key"
proof -
  obtain k :: "unit ecc_key" where "wc_ecc_init_ex INVALID_DEVID = (0, k)" "key_fresh k"
    using init_ex_ok by blast
  then show ?thesis by (simp add: demo_key_def)
qed

theorem x963_roundtrip_witness:
  "fst (wc_ecc_import_x963_ex (Buf (4 # replicate 64 7)) demo_key ECC_SECP256R1) = 0 \<and>
   fst (wc_ecc_import_x963_ex (Buf (2 # replicate 64 7)) demo_key ECC_SECP256R1) = NOT_COMPILED_IN"
  using x963_roundtrip [OF demo_key_fresh, of "4 # replicate 64 7" "replicate 65 0" "env0 ()"]
    x963_roundtrip [OF demo_key_fresh, of "2 # replicate 64 7" "replicate 65 0" "env0 ()"]
  by (auto split: prod.splits)

text \<open>C35: A private scalar is accepted exactly when it lies in \<open>[1, n-1]\<close> for the order n of P-256,
  whatever its encoding of up to 66 bytes; \<open>ECC_PRIV_KEY_E\<close> is the answer otherwise, and
  \<open>MEMORY_E\<close> the only other one, when an allocation failed.  An accepted scalar is written back
  as its 32-byte form, and the key can write no public part.\<close>

theorem private_key_range:
  assumes "key_fresh key" "length bs \<le> 66" "32 \<le> length out"
  shows "clean (\<lambda>_. True) 0 h (wc_ecc_import_private_key_ex (Buf bs) key ECC_SECP256R1)
    (\<lambda>r k. r = (if 1 \<le> be_val bs \<and> be_val bs < p256_order then 0 else ECC_PRIV_KEY_E) \<and>
       (r = 0 \<longrightarrow> wc_ecc_export_private_only k out (length out) = (0, blit out 0 (be_bytes 32 (be_val bs)), 32) \<and>
          run_state (wc_ecc_export_x963 k (Some out) (length out)) g = ((ECC_PRIVATEONLY_E, Some out, length out), g)))"
proof -
  have n: "p256_order < 256 ^ 32" by (simp add: p256_order_def)
  show ?thesis
    using assms(3) n
    by (intro clean_conseq [OF clean_import_private [OF assms(1,2)]])
       (auto simp: wc_ecc_export_x963_def export_private_only_ok Suc_le_eq ECC_PRIV_KEY_E_def split: if_splits)
qed

theorem private_key_range_witness:
  "\<exists>k h'. run_state (wc_ecc_import_private_key_ex (Buf [1, 0]) demo_key ECC_SECP256R1) (env0 ()) = ((0, k), h') \<and>
     wc_ecc_export_private_only k (zeros 32) 32 = (0, be_bytes 32 256, 32)"
  using clean_env0 [OF private_key_range [OF demo_key_fresh, of "[1, 0]" "zeros 32" "env0 ()" "env0 ()"]]
  by (auto simp: p256_order_def)

text \<open>C36: Without a registered device there is no ECC arithmetic.  When no callback is registered under the
  key's device id, agreeing on a secret fails with \<open>NO_VALID_DEVID\<close> and leaves the output buffer, its
  length and the whole process as they were.  Making a P-256 key fails with the same code and
  leaves the process as it was; in the key it has cleared the state and the flags and
  set the curve, but its type, its private and public numbers and everything else are the
  caller's, so no key material appears.\<close>

theorem no_device_no_arithmetic:
  assumes "dev_wf (gCryptoDev (world h))" "\<nexists>cb ctx. dev_view (gCryptoDev (world h)) (key_devId key) = Some (Some cb, ctx)"
    "key_fresh key" "n \<le> int ECC_MAXSIZE"
  shows "run_state (wc_ecc_shared_secret call key peer out len) h = ((NO_VALID_DEVID, out, len), h) \<and>
    run_state (wc_ecc_make_key_ex call (Some rng) n key ECC_SECP256R1) h =
      ((NO_VALID_DEVID, key\<lparr>key_state := ECC_STATE_NONE, key_idx := 2, key_dp := Some set_secp256r1, key_flags := WC_ECC_FLAG_NONE\<rparr>), h)"
  using assms shared_secret_none [of h key call peer out len] make_key_none [of h key "Some rng" n call]
  by (simp add: key_fresh_def)

definition demo_world :: "'cb devices \<Rightarrow> 'cb wc_world" where
  "demo_world g = \<lparr>sha256DrbgDisabled = 0, os = \<lparr>os_open = (\<lambda>_ _. True), os_read = (\<lambda>_ _. None)\<rparr>, os_time = 0, gCryptoDev = g\<rparr>"

theorem no_device_no_arithmetic_witness:
  "let call = \<lambda>_ _ info _. ret (0, info); h = env0 (demo_world (wc_CryptoCb_Init devices_static :: unit devices)) in
   run_state (wc_ecc_shared_secret call demo_key demo_key [9] 1) h = ((NO_VALID_DEVID, [9], 1), h) \<and>
   (\<exists>k. run_state (wc_ecc_make_key_ex call (Some \<lparr>rng_drbg = None, rng_status = 0\<rparr>) 32 demo_key ECC_SECP256R1) h = ((NO_VALID_DEVID, k), h) \<and> key_k k = key_k demo_key)"
proof -
  let ?h = "env0 (demo_world (wc_CryptoCb_Init devices_static :: unit devices))"
  have "dev_wf (gCryptoDev (world ?h)) \<and> dev_view (gCryptoDev (world ?h)) = (\<lambda>_. None)"
    using Init_wf [of "devices_static :: unit devices"] by (simp add: demo_world_def env0_def devices_static_def)
  then show ?thesis
    using no_device_no_arithmetic [of ?h demo_key 32 "\<lambda>_ _ info _. ret (0, info)"] demo_key_fresh by simp
qed

end
