(* ===== verification/Hpke.thy ===== *)
theory Hpke
  imports Ecc
begin

text \<open>
  \<open>wolfcrypt/src/hpke.c\<close>: hybrid public key encryption, base mode, with the one KEM, KDF and the two
  AEADs this build has.  The suite and the context are records; pointers to them, to keys
  and to outputs are never null here, byte inputs that may be are \<open>cbuf\<close>s.  A buffer written from
  an offset on is passed as its tail and put together again by \<open>into\<close>.  Fresh memory is
  zero in the model; no result depends on it.
\<close>

section \<open>Suites\<close>

definition DHKEM_P256_HKDF_SHA256 :: int where [simp]: "DHKEM_P256_HKDF_SHA256 = 0x10"
definition DHKEM_P384_HKDF_SHA384 :: int where [simp]: "DHKEM_P384_HKDF_SHA384 = 0x11"
definition DHKEM_P521_HKDF_SHA512 :: int where [simp]: "DHKEM_P521_HKDF_SHA512 = 0x12"
definition HKDF_SHA256 :: int where [simp]: "HKDF_SHA256 = 1"
definition HPKE_AES_128_GCM :: int where [simp]: "HPKE_AES_128_GCM = 1"
definition HPKE_AES_256_GCM :: int where [simp]: "HPKE_AES_256_GCM = 2"
definition DHKEM_P256_ENC_LEN :: nat where [simp]: "DHKEM_P256_ENC_LEN = 65"
definition MAX_HPKE_LABEL_SZ :: nat where [simp]: "MAX_HPKE_LABEL_SZ = 512"
definition HPKE_Nk_MAX :: nat where [simp]: "HPKE_Nk_MAX = 32"
definition HPKE_Nn_MAX :: nat where [simp]: "HPKE_Nn_MAX = 12"
definition HPKE_Nsecret_MAX :: nat where [simp]: "HPKE_Nsecret_MAX = 64"
definition KEM_SUITE_ID_LEN :: nat where [simp]: "KEM_SUITE_ID_LEN = 5"
definition HPKE_SUITE_ID_LEN :: nat where [simp]: "HPKE_SUITE_ID_LEN = 10"
definition INT_MAX :: int where [simp]: "INT_MAX = 0x7FFFFFFF"

definition ascii :: "string \<Rightarrow> byte list" where
  "ascii s = map of_char s"

definition KEM_STR :: "byte list" where "KEM_STR = ascii ''KEM''"
definition HPKE_STR :: "byte list" where "HPKE_STR = ascii ''HPKE''"
definition HPKE_VERSION_STR :: "byte list" where "HPKE_VERSION_STR = ascii ''HPKE-v1''"
definition EAE_PRK_LABEL_STR :: "byte list" where "EAE_PRK_LABEL_STR = ascii ''eae_prk''"
definition SHARED_SECRET_LABEL_STR :: "byte list" where "SHARED_SECRET_LABEL_STR = ascii ''shared_secret''"
definition PSK_ID_HASH_LABEL_STR :: "byte list" where "PSK_ID_HASH_LABEL_STR = ascii ''psk_id_hash''"
definition INFO_HASH_LABEL_STR :: "byte list" where "INFO_HASH_LABEL_STR = ascii ''info_hash''"
definition SECRET_LABEL_STR :: "byte list" where "SECRET_LABEL_STR = ascii ''secret''"
definition KEY_LABEL_STR :: "byte list" where "KEY_LABEL_STR = ascii ''key''"
definition BASE_NONCE_LABEL_STR :: "byte list" where "BASE_NONCE_LABEL_STR = ascii ''base_nonce''"
definition EXP_LABEL_STR :: "byte list" where "EXP_LABEL_STR = ascii ''exp''"

lemmas label_defs = ascii_def KEM_STR_def HPKE_STR_def HPKE_VERSION_STR_def EAE_PRK_LABEL_STR_def
  SHARED_SECRET_LABEL_STR_def PSK_ID_HASH_LABEL_STR_def INFO_HASH_LABEL_STR_def SECRET_LABEL_STR_def
  KEY_LABEL_STR_def BASE_NONCE_LABEL_STR_def EXP_LABEL_STR_def

record Hpke =
  Nh :: nat
  Nk :: nat
  Nn :: nat
  Nt :: nat
  Ndh :: nat
  Npk :: nat
  Nsecret :: nat
  kdfDigest :: nat
  kemDigest :: nat
  curveId :: int
  hpke_kem :: word16
  hpke_kdf :: word16
  hpke_aead :: word16
  kem_suite_id :: "byte list"
  hpke_suite_id :: "byte list"

record HpkeBaseContext =
  seq :: int
  ctx_key :: "byte list"
  base_nonce :: "byte list"
  exporter_secret :: "byte list"

definition context_zeroed :: HpkeBaseContext where
  "context_zeroed = \<lparr>seq = 0, ctx_key = zeros HPKE_Nk_MAX, base_nonce = zeros HPKE_Nn_MAX,
     exporter_secret = zeros HPKE_Nsecret_MAX\<rparr>"

function I2OSP_loop :: "nat \<Rightarrow> nat \<Rightarrow> int \<Rightarrow> byte list \<Rightarrow> byte list" where
  "I2OSP_loop i w n out =
     (if i < w \<and> n > 0 then I2OSP_loop (Suc i) w (n div 256) (out[w - Suc i := word_of_int n]) else out)"
  by pat_completeness auto

termination by (relation "measure (\<lambda>(i, w, n, out). w - i)") auto

declare I2OSP_loop.simps [simp del]

definition I2OSP :: "int \<Rightarrow> int \<Rightarrow> byte list \<Rightarrow> int \<times> byte list" where
  "I2OSP n w out =
     (if w \<le> 0 \<or> w > 32 \<or> n < 0 then (MP_VAL, out)
      else if w < 4 \<and> n > 2 ^ nat (w * 8) - 1 then (MP_VAL, out)
      else (0, I2OSP_loop 0 (nat w) n (blit out 0 (zeros (nat w)))))"

text \<open>A part of a buffer, from an offset on, given to a function that writes it.\<close>

definition slice_out :: "(byte list \<Rightarrow> int \<times> byte list) \<Rightarrow> byte list \<Rightarrow> nat \<Rightarrow> int \<times> byte list" where
  "slice_out f buf off = (let (r, t) = f (drop off buf) in (r, take off buf @ t))"

definition into :: "byte list \<Rightarrow> nat \<Rightarrow> (byte list \<Rightarrow> ('w, int \<times> byte list) cmd) \<Rightarrow> ('w, int \<times> byte list) cmd" where
  "into buf off f = do { (r, t) \<leftarrow> f (drop off buf); ret (r, take off buf @ t) }"

definition hpke_zeroed :: Hpke where
  "hpke_zeroed = \<lparr>Nh = 0, Nk = 0, Nn = 0, Nt = 0, Ndh = 0, Npk = 0, Nsecret = 0, kdfDigest = 0, kemDigest = 0,
     curveId = 0, hpke_kem = 0, hpke_kdf = 0, hpke_aead = 0, kem_suite_id = zeros KEM_SUITE_ID_LEN,
     hpke_suite_id = zeros HPKE_SUITE_ID_LEN\<rparr>"

definition HpkeInit_ids :: "int \<Rightarrow> int \<Rightarrow> int \<Rightarrow> Hpke \<Rightarrow> int \<times> Hpke" where
  "HpkeInit_ids kem kdf aead hpke =
     (let id1 = blit (kem_suite_id hpke) 0 KEM_STR;
          (r1, id1) = slice_out (I2OSP kem 2) id1 3;
          id2 = blit (hpke_suite_id hpke) 0 HPKE_STR;
          (r2, id2) = (if r1 = 0 then slice_out (I2OSP kem 2) id2 4 else (r1, id2));
          (r3, id2) = (if r2 = 0 then slice_out (I2OSP kdf 2) id2 6 else (r2, id2));
          (r4, id2) = (if r3 = 0 then slice_out (I2OSP aead 2) id2 8 else (r3, id2))
      in (r4, hpke\<lparr>kem_suite_id := id1, hpke_suite_id := id2\<rparr>))"

definition HpkeInit_kem :: "int \<Rightarrow> Hpke \<Rightarrow> int \<times> Hpke" where
  "HpkeInit_kem kem hpke =
     (if kem = DHKEM_P256_HKDF_SHA256
      then let hpke = hpke\<lparr>curveId := ECC_SECP256R1, Nsecret := WC_SHA256_DIGEST_SIZE, kemDigest := WC_SHA256\<rparr>;
               r = wc_ecc_get_curve_size_from_id (curveId hpke)
           in if r < 0 then (r, hpke) else (0, hpke\<lparr>Ndh := nat r, Npk := 1 + nat r * 2\<rparr>)
      else (BAD_FUNC_ARG, hpke))"

definition HpkeInit_kdf :: "int \<Rightarrow> Hpke \<Rightarrow> int \<times> Hpke" where
  "HpkeInit_kdf kdf hpke =
     (if kdf = HKDF_SHA256 then (0, hpke\<lparr>Nh := WC_SHA256_DIGEST_SIZE, kdfDigest := WC_SHA256\<rparr>)
      else (BAD_FUNC_ARG, hpke))"

definition HpkeInit_aead :: "int \<Rightarrow> Hpke \<Rightarrow> int \<times> Hpke" where
  "HpkeInit_aead aead hpke =
     (if aead = HPKE_AES_128_GCM then (0, hpke\<lparr>Nk := 16, Nn := 12, Nt := WC_AES_BLOCK_SIZE\<rparr>)
      else if aead = HPKE_AES_256_GCM then (0, hpke\<lparr>Nk := 32, Nn := 12, Nt := WC_AES_BLOCK_SIZE\<rparr>)
      else (BAD_FUNC_ARG, hpke))"

definition wc_HpkeInit :: "Hpke \<Rightarrow> int \<Rightarrow> int \<Rightarrow> int \<Rightarrow> int \<times> Hpke" where
  "wc_HpkeInit hpke kem kdf aead =
     (if kem = 0 \<or> kdf = 0 \<or> aead = 0 then (BAD_FUNC_ARG, hpke)
      else let h0 = hpke_zeroed\<lparr>hpke_kem := word_of_int kem, hpke_kdf := word_of_int kdf, hpke_aead := word_of_int aead\<rparr>;
               (r1, h1) = HpkeInit_ids kem kdf aead h0;
               (r2, h2) = (if r1 = 0 then HpkeInit_kem kem h1 else (r1, h1));
               (r3, h3) = (if r2 = 0 then HpkeInit_kdf kdf h2 else (r2, h2))
           in if r3 = 0 then HpkeInit_aead aead h3 else (r3, h3))"

definition ecc_kem :: "Hpke \<Rightarrow> bool" where
  "ecc_kem hpke \<longleftrightarrow>
     uint (hpke_kem hpke) \<in> {DHKEM_P256_HKDF_SHA256, DHKEM_P384_HKDF_SHA384, DHKEM_P521_HKDF_SHA512}"

definition wc_HpkeKemGetEncLen :: "word16 \<Rightarrow> nat" where
  "wc_HpkeKemGetEncLen kemId = (if uint kemId = DHKEM_P256_HKDF_SHA256 then DHKEM_P256_ENC_LEN else 0)"

definition wc_HpkeKemIsSupported :: "word16 \<Rightarrow> bool" where
  "wc_HpkeKemIsSupported kemId \<longleftrightarrow> uint kemId = DHKEM_P256_HKDF_SHA256"

definition wc_HpkeKdfIsSupported :: "word16 \<Rightarrow> bool" where
  "wc_HpkeKdfIsSupported kdfId \<longleftrightarrow> uint kdfId = HKDF_SHA256"

definition wc_HpkeAeadIsSupported :: "word16 \<Rightarrow> bool" where
  "wc_HpkeAeadIsSupported aeadId \<longleftrightarrow> uint aeadId = HPKE_AES_128_GCM \<or> uint aeadId = HPKE_AES_256_GCM"

section \<open>Keys of the KEM\<close>

definition wc_HpkeFreeKey :: "Hpke \<Rightarrow> word16 \<Rightarrow> 'x ecc_key option \<Rightarrow> ('w, unit) cmd" where
  "wc_HpkeFreeKey hpke kem keypair =
     (if uint kem \<in> {DHKEM_P256_HKDF_SHA256, DHKEM_P384_HKDF_SHA384, DHKEM_P521_HKDF_SHA512}
      then wc_ecc_key_free keypair else ret ())"

text \<open>The common end of the two functions that make a key object: no object after a failure, and
  \<open>MEMORY_E\<close> when there is none although nothing failed.\<close>

definition Hpke_key_result :: "Hpke \<Rightarrow> int \<Rightarrow> 'x ecc_key option \<Rightarrow> ('w, int \<times> 'x ecc_key option) cmd" where
  "Hpke_key_result hpke r key =
     (let r = (if r = 0 \<and> key = None then MEMORY_E else r)
      in if r \<noteq> 0 \<and> key \<noteq> None then do { wc_HpkeFreeKey hpke (hpke_kem hpke) key; ret (r, None) }
         else ret (r, key))"

definition wc_HpkeGenerateKeyPair ::
  "('cb, 'x, 'z) dispatch \<Rightarrow> Hpke \<Rightarrow> 'x ecc_key option \<Rightarrow> WC_RNG option \<Rightarrow>
   (('cb, 'z) wc_world_scheme, int \<times> 'x ecc_key option) cmd" where
  "wc_HpkeGenerateKeyPair call hpke keypair rng =
     (if rng = None then ret (BAD_FUNC_ARG, keypair)
      else do {
        (r, key) \<leftarrow>
          (if uint (hpke_kem hpke) = DHKEM_P256_HKDF_SHA256 then do {
             key \<leftarrow> wc_ecc_key_new;
             (case key of
                None \<Rightarrow> ret (0, None)
              | Some k \<Rightarrow> do {
                  (r, k') \<leftarrow> wc_ecc_make_key_ex call rng 32 k ECC_SECP256R1;
                  ret (r, Some k')
                })
           }
           else ret (BAD_FUNC_ARG, keypair));
        Hpke_key_result hpke r key
      })"

definition wc_HpkeSerializePublicKey ::
  "Hpke \<Rightarrow> 'x ecc_key \<Rightarrow> byte list \<Rightarrow> word16 \<Rightarrow> ('w, int \<times> byte list \<times> word16) cmd" where
  "wc_HpkeSerializePublicKey hpke key out outSz =
     (if ecc_kem hpke then do {
        (r, out', n) \<leftarrow> wc_ecc_export_x963_ex key (Some out) (unat outSz) 0;
        ret (r, the out', of_nat n)
      }
      else ret (BAD_FUNC_ARG, out, outSz))"

definition wc_HpkeDeserializePublicKey ::
  "Hpke \<Rightarrow> 'x ecc_key option \<Rightarrow> cbuf \<Rightarrow> ('w, int \<times> 'x ecc_key option) cmd" where
  "wc_HpkeDeserializePublicKey hpke key inp =
     (if is_null inp then ret (BAD_FUNC_ARG, key)
      else if csize inp < Npk hpke then ret (BUFFER_E, key)
      else do {
        (r, key') \<leftarrow>
          (if ecc_kem hpke then do {
             nk \<leftarrow> wc_ecc_key_new;
             (case nk of
                None \<Rightarrow> ret (0, None)
              | Some k \<Rightarrow> let (r, k') = wc_ecc_import_x963_ex inp k (curveId hpke) in ret (r, Some k'))
           }
           else ret (BAD_FUNC_ARG, key));
        Hpke_key_result hpke r key'
      })"

section \<open>Labelled extract and expand\<close>

definition wc_HpkeLabeledExtract ::
  "Hpke \<Rightarrow> byte list \<Rightarrow> nat \<Rightarrow> cbuf \<Rightarrow> byte list \<Rightarrow> cbuf \<Rightarrow> byte list \<Rightarrow> ('w, int \<times> byte list) cmd" where
  "wc_HpkeLabeledExtract hpke suite_id hashType salt label ikm out =
     (let remaining = MAX_HPKE_LABEL_SZ
      in if length HPKE_VERSION_STR > remaining then ret (BUFFER_E, out)
         else let remaining = remaining - length HPKE_VERSION_STR
      in if length suite_id > remaining then ret (BUFFER_E, out)
         else let remaining = remaining - length suite_id
      in if length label > remaining then ret (BUFFER_E, out)
         else let remaining = remaining - length label
      in if csize ikm > remaining then ret (BUFFER_E, out)
         else do {
           ok \<leftarrow> XMALLOC;
           if \<not> ok then ret (MEMORY_E, out)
           else do {
             let labeled_ikm = zeros MAX_HPKE_LABEL_SZ;
             let labeled_ikm = blit labeled_ikm 0 HPKE_VERSION_STR;
             let p = length HPKE_VERSION_STR;
             let labeled_ikm = blit labeled_ikm p suite_id;
             let p = p + length suite_id;
             let labeled_ikm = blit labeled_ikm p label;
             let p = p + length label;
             let (labeled_ikm, p) = (if csize ikm \<noteq> 0 then (blit labeled_ikm p (cbytes ikm), p + csize ikm) else (labeled_ikm, p));
             (r, out') \<leftarrow> wc_HKDF_Extract hashType salt (Buf (take p labeled_ikm)) out;
             XFREE (Freed_bytes labeled_ikm);
             ret (r, out')
           }
         })"

definition wc_HpkeLabeledExpand ::
  "Hpke \<Rightarrow> byte list \<Rightarrow> nat \<Rightarrow> byte list \<Rightarrow> byte list \<Rightarrow> byte list \<Rightarrow> nat \<Rightarrow> byte list \<Rightarrow> ('w, int \<times> byte list) cmd" where
  "wc_HpkeLabeledExpand hpke suite_id hashType prk label info L out =
     (let remaining = MAX_HPKE_LABEL_SZ
      in if 2 + length HPKE_VERSION_STR > remaining then ret (BUFFER_E, out)
         else let remaining = remaining - (2 + length HPKE_VERSION_STR)
      in if length suite_id > remaining then ret (BUFFER_E, out)
         else let remaining = remaining - length suite_id
      in if length label > remaining then ret (BUFFER_E, out)
         else let remaining = remaining - length label
      in if length info > remaining then ret (BUFFER_E, out)
         else do {
           ok \<leftarrow> XMALLOC;
           if \<not> ok then ret (MEMORY_E, out)
           else do {
             let (r, labeled_info) = I2OSP (int L) 2 (zeros MAX_HPKE_LABEL_SZ);
             let p = 2;
             (r, labeled_info, out') \<leftarrow>
               (if r = 0 then do {
                  let labeled_info = blit labeled_info p HPKE_VERSION_STR;
                  let p = p + length HPKE_VERSION_STR;
                  let labeled_info = blit labeled_info p suite_id;
                  let p = p + length suite_id;
                  let labeled_info = blit labeled_info p label;
                  let p = p + length label;
                  let labeled_info = blit labeled_info p info;
                  let p = p + length info;
                  (r, out') \<leftarrow> wc_HKDF_Expand hashType (Buf prk) (Buf (take p labeled_info)) out L;
                  ret (r, labeled_info, out')
                }
                else ret (r, labeled_info, out));
             XFREE (Freed_bytes labeled_info);
             ret (r, out')
           }
         })"

definition wc_HpkeContextComputeNonce :: "Hpke \<Rightarrow> HpkeBaseContext \<Rightarrow> byte list \<Rightarrow> int \<times> byte list" where
  "wc_HpkeContextComputeNonce hpke context out =
     (let (r, seq_bytes) = I2OSP (seq context) (int (Nn hpke)) (zeros HPKE_Nn_MAX)
      in if r = 0 then (r, xorbufout 0 0 0 out (base_nonce context) seq_bytes (Nn hpke)) else (r, out))"

definition wc_HpkeExtractAndExpand ::
  "Hpke \<Rightarrow> byte list \<Rightarrow> byte list \<Rightarrow> byte list \<Rightarrow> ('w, int \<times> byte list) cmd" where
  "wc_HpkeExtractAndExpand hpke dh kemContext sharedSecret = do {
     ok \<leftarrow> XMALLOC;
     if \<not> ok then ret (MEMORY_E, sharedSecret)
     else do {
       (r, eae_prk) \<leftarrow> wc_HpkeLabeledExtract hpke (kem_suite_id hpke) (kemDigest hpke) (Null 0) EAE_PRK_LABEL_STR
          (Buf dh) (zeros WC_MAX_DIGEST_SIZE);
       (r, ss) \<leftarrow>
         (if r = 0
          then wc_HpkeLabeledExpand hpke (kem_suite_id hpke) (kemDigest hpke) (take (Nsecret hpke) eae_prk)
                 SHARED_SECRET_LABEL_STR kemContext (Nsecret hpke) sharedSecret
          else ret (r, sharedSecret));
       XFREE (Freed_bytes (ForceZero 0 eae_prk WC_MAX_DIGEST_SIZE));
       ret (r, ss)
     }
   }"

definition wc_HpkeKeyScheduleBase ::
  "Hpke \<Rightarrow> HpkeBaseContext \<Rightarrow> byte list \<Rightarrow> cbuf \<Rightarrow> ('w, int \<times> HpkeBaseContext) cmd" where
  "wc_HpkeKeyScheduleBase hpke context sharedSecret info = do {
     ok1 \<leftarrow> XMALLOC;
     ok2 \<leftarrow> XMALLOC;
     if \<not> ok1 \<or> \<not> ok2 then do {
       (if ok1 then XFREE (Freed_bytes (zeros (1 + 2 * WC_MAX_DIGEST_SIZE))) else ret ());
       (if ok2 then XFREE (Freed_bytes (zeros WC_MAX_DIGEST_SIZE)) else ret ());
       ret (MEMORY_E, context)
     }
     else do {
       let context = context\<lparr>seq := 0\<rparr>;
       let ks = (zeros (1 + 2 * WC_MAX_DIGEST_SIZE))[0 := 0];
       let secret = zeros WC_MAX_DIGEST_SIZE;
       let suite_id = hpke_suite_id hpke;
       let hashType = kdfDigest hpke;
       (r, ks) \<leftarrow> into ks 1 (wc_HpkeLabeledExtract hpke suite_id hashType (Null 0) PSK_ID_HASH_LABEL_STR (Null 0));
       (r, ks) \<leftarrow> (if r = 0
          then into ks (1 + Nh hpke) (wc_HpkeLabeledExtract hpke suite_id hashType (Null 0) INFO_HASH_LABEL_STR info)
          else ret (r, ks));
       (r, secret) \<leftarrow> (if r = 0
          then wc_HpkeLabeledExtract hpke suite_id hashType (Buf (take (Nsecret hpke) sharedSecret)) SECRET_LABEL_STR (Null 0) secret
          else ret (r, secret));
       let prk = take (Nh hpke) secret;
       let kc = take (1 + 2 * Nh hpke) ks;
       (r, k) \<leftarrow> (if r = 0
          then wc_HpkeLabeledExpand hpke suite_id hashType prk KEY_LABEL_STR kc (Nk hpke) (ctx_key context)
          else ret (r, ctx_key context));
       (r, n) \<leftarrow> (if r = 0
          then wc_HpkeLabeledExpand hpke suite_id hashType prk BASE_NONCE_LABEL_STR kc (Nn hpke) (base_nonce context)
          else ret (r, base_nonce context));
       (r, e) \<leftarrow> (if r = 0
          then wc_HpkeLabeledExpand hpke suite_id hashType prk EXP_LABEL_STR kc (Nh hpke) (exporter_secret context)
          else ret (r, exporter_secret context));
       XFREE (Freed_bytes (ForceZero 0 ks (1 + 2 * WC_MAX_DIGEST_SIZE)));
       XFREE (Freed_bytes (ForceZero 0 secret WC_MAX_DIGEST_SIZE));
       ret (r, context\<lparr>ctx_key := k, base_nonce := n, exporter_secret := e\<rparr>)
     }
   }"

section \<open>Encapsulation\<close>

text \<open>The allocations that \<open>wc_HpkeEncap\<close> and \<open>wc_HpkeDecap\<close> begin with, and the wiping at their end.\<close>

definition with_kem_buffers ::
  "Hpke \<Rightarrow> byte list \<Rightarrow> (byte list \<Rightarrow> byte list \<Rightarrow> ('w, int \<times> byte list \<times> byte list \<times> byte list) cmd) \<Rightarrow> ('w, int \<times> byte list) cmd" where
  "with_kem_buffers hpke sharedSecret body = do {
     ok1 \<leftarrow> XMALLOC;
     ok2 \<leftarrow> XMALLOC;
     if \<not> ok1 \<or> \<not> ok2 then do {
       (if ok1 then XFREE (Freed_bytes (zeros (Ndh hpke))) else ret ());
       (if ok2 then XFREE (Freed_bytes (zeros (Npk hpke * 2))) else ret ());
       ret (MEMORY_E, sharedSecret)
     }
     else do {
       (r, dh, kemContext, ss) \<leftarrow> body (zeros (Ndh hpke)) (zeros (Npk hpke * 2));
       XFREE (Freed_bytes (ForceZero 0 dh (Ndh hpke)));
       XFREE (Freed_bytes (ForceZero 0 kemContext (Npk hpke * 2)));
       ret (r, ss)
     }
   }"

definition wc_HpkeEncap ::
  "('cb, 'x, 'z) dispatch \<Rightarrow> Hpke \<Rightarrow> 'x ecc_key \<Rightarrow> 'x ecc_key \<Rightarrow> byte list \<Rightarrow>
   (('cb, 'z) wc_world_scheme, int \<times> byte list) cmd" where
  "wc_HpkeEncap call hpke ephemeralKey receiverKey sharedSecret =
     with_kem_buffers hpke sharedSecret (\<lambda>dh kemContext. do {
       let receiverPubKeySz = of_nat (Npk hpke);
       let ephemeralPubKeySz = of_nat (Npk hpke);
       (r, dh, dh_len, eph) \<leftarrow>
         (if ecc_kem hpke then do {
            rng \<leftarrow> wc_rng_new (Null 0);
            if rng = None then ret (RNG_FAILURE_E, dh, Ndh hpke, ephemeralKey)
            else do {
              let prevRng = key_rng ephemeralKey;
              let (_, eph) = wc_ecc_set_rng ephemeralKey rng;
              (r, dh, dh_len) \<leftarrow> wc_ecc_shared_secret call eph receiverKey dh (Ndh hpke);
              let (_, eph) = wc_ecc_set_rng eph prevRng;
              wc_rng_free rng;
              ret (r, dh, dh_len, eph)
            }
          }
          else ret (BAD_FUNC_ARG, dh, Ndh hpke, ephemeralKey));
       (r, kemContext, ephemeralPubKeySz) \<leftarrow>
         (if r = 0 then wc_HpkeSerializePublicKey hpke eph kemContext ephemeralPubKeySz
          else ret (r, kemContext, ephemeralPubKeySz));
       (r, kemContext) \<leftarrow>
         (if r = 0 then into kemContext (unat ephemeralPubKeySz) (\<lambda>b. do {
              (r, b, _) \<leftarrow> wc_HpkeSerializePublicKey hpke receiverKey b receiverPubKeySz;
              ret (r, b)
            })
          else ret (r, kemContext));
       (r, ss) \<leftarrow>
         (if r = 0 then wc_HpkeExtractAndExpand hpke (take dh_len dh) (take (Npk hpke * 2) kemContext) sharedSecret
          else ret (r, sharedSecret));
       ret (r, dh, kemContext, ss)
     })"

definition wc_HpkeCopyPrivateKey :: "Hpke \<Rightarrow> 'x ecc_key \<Rightarrow> ('w, bool \<times> 'x ecc_key option) cmd" where
  "wc_HpkeCopyPrivateKey hpke key = do {
     (r, cpy) \<leftarrow>
       (if ecc_kem hpke then
          (case key_dp key of
             None \<Rightarrow> ret (NOT_COMPILED_IN, None)
           | Some s \<Rightarrow>
               if key_devId key \<noteq> INVALID_DEVID then ret (NOT_COMPILED_IN, None)
               else do {
                 let (r, eccPriv, eccPrivSz) = wc_ecc_export_private_only key (zeros ECC_MAXSIZE) ECC_MAXSIZE;
                 if r \<noteq> 0 then ret (r, None)
                 else do {
                   cpy \<leftarrow> wc_ecc_key_new_ex INVALID_DEVID;
                   (case cpy of
                      None \<Rightarrow> ret (MEMORY_E, None)
                    | Some c \<Rightarrow> do {
                        (r, c') \<leftarrow> wc_ecc_import_private_key_ex (Buf (take eccPrivSz eccPriv)) c (set_id s);
                        ret (r, Some c')
                      })
                 }
               })
        else ret (NOT_COMPILED_IN, None));
     if r \<noteq> 0 \<and> cpy \<noteq> None then do { wc_HpkeFreeKey hpke (hpke_kem hpke) cpy; ret (False, None) }
     else ret (r = 0, cpy)
   }"

definition wc_HpkeDecap ::
  "('cb, 'x, 'z) dispatch \<Rightarrow> Hpke \<Rightarrow> 'x ecc_key \<Rightarrow> cbuf \<Rightarrow> byte list \<Rightarrow>
   (('cb, 'z) wc_world_scheme, int \<times> byte list) cmd" where
  "wc_HpkeDecap call hpke receiverKey pubKey sharedSecret =
     with_kem_buffers hpke sharedSecret (\<lambda>dh kemContext. do {
       let receiverPubKeySz = of_nat (Npk hpke);
       (r, ephemeralKey) \<leftarrow> wc_HpkeDeserializePublicKey hpke None pubKey;
       (r, dh, dh_len, rcv) \<leftarrow>
         (if r = 0 then
            (if ecc_kem hpke then do {
               rng \<leftarrow> wc_rng_new (Null 0);
               if rng = None then ret (RNG_FAILURE_E, dh, Ndh hpke, receiverKey)
               else do {
                 (copied, privCopy) \<leftarrow> wc_HpkeCopyPrivateKey hpke receiverKey;
                 let eccPriv = (if copied then the privCopy else receiverKey);
                 let prevRng = (if copied then None else key_rng receiverKey);
                 let (_, eccPriv) = wc_ecc_set_rng eccPriv rng;
                 (r, dh, dh_len) \<leftarrow> wc_ecc_shared_secret call eccPriv (the ephemeralKey) dh (Ndh hpke);
                 rcv \<leftarrow>
                   (if privCopy \<noteq> None then do { wc_HpkeFreeKey hpke (hpke_kem hpke) privCopy; ret receiverKey }
                    else ret (snd (wc_ecc_set_rng eccPriv prevRng)));
                 wc_rng_free rng;
                 ret (r, dh, dh_len, rcv)
               }
             }
             else ret (BAD_FUNC_ARG, dh, Ndh hpke, receiverKey))
          else ret (r, dh, Ndh hpke, receiverKey));
       (if ephemeralKey \<noteq> None then wc_HpkeFreeKey hpke (hpke_kem hpke) ephemeralKey else ret ());
       (r, kemContext) \<leftarrow>
         (if r = 0 then into (blit kemContext 0 (take (Npk hpke) (cbytes pubKey))) (Npk hpke) (\<lambda>b. do {
              (r, b, _) \<leftarrow> wc_HpkeSerializePublicKey hpke rcv b receiverPubKeySz;
              ret (r, b)
            })
          else ret (r, kemContext));
       (r, ss) \<leftarrow>
         (if r = 0 then wc_HpkeExtractAndExpand hpke (take dh_len dh) (take (Npk hpke * 2) kemContext) sharedSecret
          else ret (r, sharedSecret));
       ret (r, dh, kemContext, ss)
     })"

text \<open>A secret of its own for the time of a set-up, wiped before it is released.\<close>

definition with_shared_secret ::
  "Hpke \<Rightarrow> HpkeBaseContext \<Rightarrow> cbuf \<Rightarrow> (byte list \<Rightarrow> ('w, int \<times> byte list) cmd) \<Rightarrow> ('w, int \<times> HpkeBaseContext) cmd" where
  "with_shared_secret hpke context info cap = do {
     ok \<leftarrow> XMALLOC;
     if \<not> ok then ret (MEMORY_E, context)
     else do {
       (r, ss) \<leftarrow> cap (zeros (Nsecret hpke));
       (r, context) \<leftarrow> (if r = 0 then wc_HpkeKeyScheduleBase hpke context ss info else ret (r, context));
       XFREE (Freed_bytes (ForceZero 0 ss (Nsecret hpke)));
       ret (r, context)
     }
   }"

definition wc_HpkeSetupBaseSender ::
  "('cb, 'x, 'z) dispatch \<Rightarrow> Hpke \<Rightarrow> HpkeBaseContext \<Rightarrow> 'x ecc_key \<Rightarrow> 'x ecc_key \<Rightarrow> cbuf \<Rightarrow>
   (('cb, 'z) wc_world_scheme, int \<times> HpkeBaseContext) cmd" where
  "wc_HpkeSetupBaseSender call hpke context ephemeralKey receiverKey info =
     with_shared_secret hpke context info (wc_HpkeEncap call hpke ephemeralKey receiverKey)"

definition wc_HpkeInitSealContext ::
  "('cb, 'x, 'z) dispatch \<Rightarrow> Hpke \<Rightarrow> HpkeBaseContext \<Rightarrow> 'x ecc_key \<Rightarrow> 'x ecc_key \<Rightarrow> cbuf \<Rightarrow>
   (('cb, 'z) wc_world_scheme, int \<times> HpkeBaseContext) cmd" where
  "wc_HpkeInitSealContext call hpke context ephemeralKey receiverKey info =
     (if is_null info \<and> csize info \<noteq> 0 then ret (BAD_FUNC_ARG, context)
      else wc_HpkeSetupBaseSender call hpke context_zeroed ephemeralKey receiverKey info)"

definition wc_HpkeSetupBaseReceiver ::
  "('cb, 'x, 'z) dispatch \<Rightarrow> Hpke \<Rightarrow> HpkeBaseContext \<Rightarrow> 'x ecc_key \<Rightarrow> cbuf \<Rightarrow> cbuf \<Rightarrow>
   (('cb, 'z) wc_world_scheme, int \<times> HpkeBaseContext) cmd" where
  "wc_HpkeSetupBaseReceiver call hpke context receiverKey pubKey info =
     with_shared_secret hpke context info (wc_HpkeDecap call hpke receiverKey pubKey)"

definition wc_HpkeInitOpenContext ::
  "('cb, 'x, 'z) dispatch \<Rightarrow> Hpke \<Rightarrow> HpkeBaseContext \<Rightarrow> 'x ecc_key \<Rightarrow> cbuf \<Rightarrow> cbuf \<Rightarrow>
   (('cb, 'z) wc_world_scheme, int \<times> HpkeBaseContext) cmd" where
  "wc_HpkeInitOpenContext call hpke context receiverKey pubKey info =
     (if is_null pubKey \<or> (is_null info \<and> csize info \<noteq> 0) then ret (BAD_FUNC_ARG, context)
      else wc_HpkeSetupBaseReceiver call hpke context receiverKey pubKey info)"

section \<open>Messages\<close>

definition wc_HpkeContextSealBase ::
  "Hpke \<Rightarrow> HpkeBaseContext \<Rightarrow> cbuf \<Rightarrow> cbuf \<Rightarrow> byte list \<Rightarrow> ('w, int \<times> HpkeBaseContext \<times> byte list) cmd" where
  "wc_HpkeContextSealBase hpke context aad plaintext out =
     (if (is_null aad \<and> csize aad \<noteq> 0) \<or> is_null plaintext then ret (BAD_FUNC_ARG, context, out)
      else if seq context = INT_MAX then ret (SEQ_OVERFLOW_E, context, out)
      else do {
        ok \<leftarrow> XMALLOC;
        if \<not> ok then ret (MEMORY_E, context, out)
        else do {
          let (r0, aes) = wc_AesInit aes_zeroed;
          let (r, context, out) =
            (if r0 = 0 then
               let (r1, nonce) = wc_HpkeContextComputeNonce hpke context (zeros HPKE_Nn_MAX);
                   (r2, aes) = (if r1 = 0 then wc_AesGcmSetKey aes (Buf (take (Nk hpke) (ctx_key context))) else (r1, aes));
                   ptSz = csize plaintext;
                   (r3, out) =
                     (if r2 = 0
                      then let (r, c, tag) = wc_AesGcmEncrypt aes (Some (take ptSz out)) plaintext (Buf (take (Nn hpke) nonce))
                                 (Some (drop ptSz out)) (Nt hpke) aad
                           in (r, the c @ the tag)
                      else (r2, out))
               in (r3, if r3 = 0 then context\<lparr>seq := seq context + 1\<rparr> else context, out)
             else (r0, context, out));
          XFREE (Freed_obj ''Aes'' (r0 = 0));
          ret (r, context, out)
        }
      })"

definition wc_HpkeContextOpenBase ::
  "Hpke \<Rightarrow> HpkeBaseContext \<Rightarrow> cbuf \<Rightarrow> byte list \<Rightarrow> nat \<Rightarrow> byte list \<Rightarrow> ('w, int \<times> HpkeBaseContext \<times> byte list) cmd" where
  "wc_HpkeContextOpenBase hpke context aad ciphertext ctSz out =
     (if is_null aad \<and> csize aad \<noteq> 0 then ret (BAD_FUNC_ARG, context, out)
      else if seq context = INT_MAX then ret (SEQ_OVERFLOW_E, context, out)
      else do {
        ok \<leftarrow> XMALLOC;
        if \<not> ok then ret (MEMORY_E, context, out)
        else do {
          let (r1, nonce) = wc_HpkeContextComputeNonce hpke context (zeros HPKE_Nn_MAX);
          let (r2, aes) = (if r1 = 0 then wc_AesInit aes_zeroed else (r1, aes_zeroed));
          let (r, context, out) =
            (if r2 = 0 then
               let (r3, aes) = wc_AesGcmSetKey aes (Buf (take (Nk hpke) (ctx_key context)));
                   (r4, out) =
                     (if r3 = 0
                      then let (r, p) = wc_AesGcmDecrypt aes (Some out) (Buf (take ctSz ciphertext)) (Buf (take (Nn hpke) nonce))
                                 (Some (drop ctSz ciphertext)) (Nt hpke) aad
                           in (r, the p)
                      else (r3, out))
               in (r4, if r4 = 0 then context\<lparr>seq := seq context + 1\<rparr> else context, out)
             else (r2, context, out));
          XFREE (Freed_obj ''Aes'' (r2 = 0));
          ret (r, context, out)
        }
      })"

definition wc_HpkeSealBase ::
  "('cb, 'x, 'z) dispatch \<Rightarrow> Hpke \<Rightarrow> 'x ecc_key \<Rightarrow> 'x ecc_key \<Rightarrow> cbuf \<Rightarrow> cbuf \<Rightarrow> cbuf \<Rightarrow> byte list \<Rightarrow>
   (('cb, 'z) wc_world_scheme, int \<times> byte list) cmd" where
  "wc_HpkeSealBase call hpke ephemeralKey receiverKey info aad plaintext ciphertext =
     (if (is_null info \<and> csize info \<noteq> 0) \<or> (is_null aad \<and> csize aad \<noteq> 0) \<or> is_null plaintext
      then ret (BAD_FUNC_ARG, ciphertext)
      else do {
        ok \<leftarrow> XMALLOC;
        if \<not> ok then ret (MEMORY_E, ciphertext)
        else do {
          (r, context) \<leftarrow> wc_HpkeSetupBaseSender call hpke context_zeroed ephemeralKey receiverKey info;
          (r, context, out) \<leftarrow>
            (if r = 0 then wc_HpkeContextSealBase hpke context aad plaintext ciphertext else ret (r, context, ciphertext));
          XFREE (Freed_obj ''HpkeBaseContext'' True);
          ret (r, out)
        }
      })"

definition wc_HpkeOpenBase ::
  "('cb, 'x, 'z) dispatch \<Rightarrow> Hpke \<Rightarrow> 'x ecc_key \<Rightarrow> cbuf \<Rightarrow> cbuf \<Rightarrow> cbuf \<Rightarrow> byte list \<Rightarrow> nat \<Rightarrow> byte list \<Rightarrow>
   (('cb, 'z) wc_world_scheme, int \<times> byte list) cmd" where
  "wc_HpkeOpenBase call hpke receiverKey pubKey info aad ciphertext ctSz plaintext =
     (if is_null pubKey \<or> csize pubKey = 0 \<or> (is_null info \<and> csize info \<noteq> 0) \<or> (is_null aad \<and> csize aad \<noteq> 0)
      then ret (BAD_FUNC_ARG, plaintext)
      else do {
        ok \<leftarrow> XMALLOC;
        if \<not> ok then ret (MEMORY_E, plaintext)
        else do {
          (r, context) \<leftarrow> wc_HpkeSetupBaseReceiver call hpke context_zeroed receiverKey pubKey info;
          (r, context, out) \<leftarrow>
            (if r = 0 then wc_HpkeContextOpenBase hpke context aad ciphertext ctSz plaintext else ret (r, context, plaintext));
          XFREE (Freed_obj ''HpkeBaseContext'' True);
          ret (r, out)
        }
      })"

section \<open>Base mode as RFC 9180 states it\<close>

definition rfc_kem_suite :: "byte list" where "rfc_kem_suite = ascii ''KEM'' @ [0, 0x10]"
definition rfc_suite :: "byte \<Rightarrow> byte list" where "rfc_suite a = ascii ''HPKE'' @ [0, 0x10, 0, 1, 0, a]"

definition LabeledExtract :: "byte list \<Rightarrow> byte list option \<Rightarrow> string \<Rightarrow> byte list \<Rightarrow> byte list" where
  "LabeledExtract sid salt label ikm = hkdf_extract salt (ascii ''HPKE-v1'' @ sid @ ascii label @ ikm)"

definition LabeledExpand :: "byte list \<Rightarrow> byte list \<Rightarrow> string \<Rightarrow> byte list \<Rightarrow> nat \<Rightarrow> byte list" where
  "LabeledExpand sid prk label info L =
     hkdf_expand prk (be_bytes 2 L @ ascii ''HPKE-v1'' @ sid @ ascii label @ info) L"

definition ExtractAndExpand :: "byte list \<Rightarrow> byte list \<Rightarrow> byte list" where
  "ExtractAndExpand dh kem_context =
     LabeledExpand rfc_kem_suite (LabeledExtract rfc_kem_suite None ''eae_prk'' dh) ''shared_secret'' kem_context 32"

definition KeyScheduleBase :: "byte \<Rightarrow> nat \<Rightarrow> byte list \<Rightarrow> byte list \<Rightarrow> byte list \<times> byte list \<times> byte list" where
  "KeyScheduleBase a nk shared_secret info =
     (let sid = rfc_suite a;
          ks = [0] @ LabeledExtract sid None ''psk_id_hash'' [] @ LabeledExtract sid None ''info_hash'' info;
          secret = LabeledExtract sid (Some shared_secret) ''secret'' []
      in (LabeledExpand sid secret ''key'' ks nk, LabeledExpand sid secret ''base_nonce'' ks 12,
          LabeledExpand sid secret ''exp'' ks 32))"

definition ComputeNonce :: "byte list \<Rightarrow> nat \<Rightarrow> byte list" where
  "ComputeNonce bn n = xor_bytes bn (be_bytes 12 n)"

section \<open>Integers as octets\<close>

lemma be_bytes_Suc: "be_bytes (Suc m) v = be_bytes m (v div 256) @ [of_nat v]"
  by (simp add: be_bytes_def)

lemma be_bytes_zero [simp]: "be_bytes n 0 = zeros n"
  using be_bytes_be_val [of "zeros n"] by simp

lemma zeros_snoc: "zeros (Suc m) = zeros m @ [0]"
  by (simp add: zeros_def replicate_append_same)

lemma I2OSP_loop_eq:
  "\<lbrakk>m = w - i; i \<le> w; 0 \<le> n; n < 256 ^ m\<rbrakk> \<Longrightarrow> I2OSP_loop i w n (zeros m @ suf) = be_bytes m (nat n) @ suf"
proof (induction m arbitrary: i n suf)
  case (Suc m)
  show ?case
  proof (cases "n = 0")
    case False
    have u: "(zeros (Suc m) @ suf)[w - Suc i := word_of_int n] = zeros m @ word_of_int n # suf"
    proof -
      have "w - Suc i = m" using Suc.prems(1) by simp
      then show ?thesis by (simp add: zeros_snoc list_update_append)
    qed
    have "n div 256 < 256 ^ m" using Suc.prems(3,4) by (simp add: div_less_iff_less_mult mult.commute)
    then have "I2OSP_loop (Suc i) w (n div 256) (zeros m @ word_of_int n # suf) = be_bytes m (nat (n div 256)) @ word_of_int n # suf"
      using Suc by (intro Suc.IH) auto
    moreover have "of_nat (nat n) = (word_of_int n :: byte)" using Suc.prems(3) by (simp flip: of_nat_nat)
    moreover have "i < w" using Suc.prems(1) by simp
    ultimately show ?thesis
      using False Suc.prems(2-) u by (subst I2OSP_loop.simps) (simp add: be_bytes_Suc nat_div_distrib Suc.prems(1) [symmetric] del: Suc.prems)
  qed (use Suc.prems in \<open>subst I2OSP_loop.simps; simp\<close>)
qed (subst I2OSP_loop.simps; simp)

lemma I2OSP_ok:
  assumes "0 < w" "w \<le> 32" "0 \<le> n" "n < 256 ^ nat w" "nat w \<le> length out"
  shows "I2OSP n w out = (0, be_bytes (nat w) (nat n) @ drop (nat w) out)"
proof -
  have "n \<le> 2 ^ nat (w * 8) - 1"
  proof -
    have "(256 :: int) ^ nat w = 2 ^ nat (w * 8)" using assms(1) by (simp add: nat_mult_distrib power_mult mult.commute [of "nat w"])
    then show ?thesis using assms(4) by simp
  qed
  then show ?thesis
    using assms I2OSP_loop_eq [of "nat w" "nat w" 0 n "drop (nat w) out"]
    by (simp add: I2OSP_def blit_def)
qed

lemma I2OSP_fails: "w \<in> {1, 2, 3} \<Longrightarrow> 256 ^ nat w \<le> n \<Longrightarrow> I2OSP n w out = (MP_VAL, out)"
  by (auto simp: I2OSP_def)


section \<open>Labelled extract and expand\<close>

lemma blit_at:
  "\<lbrakk>length xs = n; length ys \<le> length rest\<rbrakk> \<Longrightarrow> blit (xs @ rest) n ys = (xs @ ys) @ drop (length ys) rest"
  by (auto simp: blit_def)

lemma labeled_ikm:
  assumes "length A + length B + length C + length D \<le> n"
  shows "blit (blit (blit (blit (zeros n) 0 A) (length A) B) (length A + length B) C) (length A + length B + length C) D =
    (A @ B @ C @ D) @ zeros (n - (length A + length B + length C + length D))"
proof -
  have z: "drop m (zeros k) = zeros (k - m)" for m k by (simp add: zeros_def)
  have 1: "blit (zeros n) 0 A = A @ zeros (n - length A)"
    using blit_at [of "[]" 0 A "zeros n"] assms by (simp add: z)
  have 2: "blit (A @ zeros (n - length A)) (length A) B = (A @ B) @ zeros (n - length A - length B)"
    using blit_at [of A "length A" B "zeros (n - length A)"] assms by (simp add: z)
  have 3: "blit ((A @ B) @ zeros (n - length A - length B)) (length A + length B) C =
      (A @ B @ C) @ zeros (n - length A - length B - length C)"
    using blit_at [of "A @ B" "length A + length B" C "zeros (n - length A - length B)"] assms by (simp add: z)
  have 4: "blit ((A @ B @ C) @ zeros (n - length A - length B - length C)) (length A + length B + length C) D =
      (A @ B @ C @ D) @ zeros (n - length A - length B - length C - length D)"
    using blit_at [of "A @ B @ C" "length A + length B + length C" D] assms by (simp add: z)
  show ?thesis unfolding 1 2 3 4 by (simp add: diff_diff_left add.assoc)
qed

lemma clean_tmp:
  assumes "\<And>h'. alloc_ok h' = alloc_ok h \<Longrightarrow> clean (\<lambda>_. True) 0 h' m (succeeds P)"
  shows "clean (\<lambda>_. True) 0 h (State_Monad.bind XMALLOC (\<lambda>ok. if \<not> ok then ret (MEMORY_E, x) else
    State_Monad.bind m (\<lambda>(r, y). State_Monad.bind (XFREE (b r y)) (\<lambda>_. ret (r, y))))) (succeeds P)"
  apply (rule clean_malloc)
   apply (simp, rule clean_bind [OF assms], assumption)
    apply (auto intro!: clean_free intro: clean_ret clean_fail)
  done

lemma clean_tmp2:
  assumes "\<And>h'. alloc_ok h' = alloc_ok h \<Longrightarrow> clean (\<lambda>_. True) 0 h' m (succeeds (\<lambda>(y, z). P z))"
  shows "clean (\<lambda>_. True) 0 h (State_Monad.bind XMALLOC (\<lambda>ok. if \<not> ok then ret (MEMORY_E, x) else
    State_Monad.bind m (\<lambda>(r, y, z). State_Monad.bind (XFREE (b y)) (\<lambda>_. ret (r, z))))) (succeeds P)"
  apply (rule clean_malloc)
   apply (simp, rule clean_bind [OF assms], assumption)
    apply (auto intro!: clean_free intro: clean_ret clean_fail)
  done

lemma clean_LabeledExtract:
  assumes "is_null salt \<or> cbuf_ok salt" "is_null ikm \<longrightarrow> csize ikm = 0"
    "length HPKE_VERSION_STR + length sid + length lab + csize ikm \<le> MAX_HPKE_LABEL_SZ"
  shows "clean (\<lambda>_. True) 0 h (wc_HpkeLabeledExtract hpke sid WC_SHA256 salt lab ikm out)
    (succeeds (\<lambda>o'. o' = blit out 0 (hkdf_extract (csalt salt) (HPKE_VERSION_STR @ sid @ lab @ cbytes ikm))))"
proof -
  have ikm: "csize ikm = length (cbytes ikm)" using assms(2) by (cases ikm) auto
  define b where "b = blit (blit (blit (blit (zeros 512) 0 HPKE_VERSION_STR) (length HPKE_VERSION_STR) sid)
      (length HPKE_VERSION_STR + length sid) lab) (length HPKE_VERSION_STR + length sid + length lab) (cbytes ikm)"
  have b: "b = (HPKE_VERSION_STR @ sid @ lab @ cbytes ikm) @ zeros (512 - (length HPKE_VERSION_STR + length sid + length lab + csize ikm))"
    unfolding b_def ikm by (rule labeled_ikm) (use assms(3) ikm in simp)
  have t: "take (length HPKE_VERSION_STR + length sid + length lab + csize ikm) b = HPKE_VERSION_STR @ sid @ lab @ cbytes ikm"
    using ikm by (simp add: b)
  have e: "(if csize ikm \<noteq> 0 then (blit X p (cbytes ikm), p + csize ikm) else (X, p)) = (blit X p (cbytes ikm), p + csize ikm)"
    for X p using ikm by auto
  have ok: "cbuf_ok (Buf (HPKE_VERSION_STR @ sid @ lab @ cbytes ikm))" using assms(3) ikm by simp
  have g: "\<not> 512 < length HPKE_VERSION_STR" "\<not> 512 - length HPKE_VERSION_STR < length sid"
    "\<not> 512 - length HPKE_VERSION_STR - length sid < length lab"
    "\<not> 512 - length HPKE_VERSION_STR - length sid - length lab < csize ikm"
    using assms(3) by simp_all
  show ?thesis
    unfolding wc_HpkeLabeledExtract_def Let_def MAX_HPKE_LABEL_SZ_def if_not_P [OF g(1)] if_not_P [OF g(2)] if_not_P [OF g(3)] if_not_P [OF g(4)]
      e prod.case b_def [symmetric] t
    apply (rule clean_tmp)
    apply (rule clean_mono)
    apply (rule clean_Extract [OF assms(1) ok, simplified])
    apply simp
    done
qed

lemma LabeledExtract_too_long:
  assumes "length HPKE_VERSION_STR + length sid + length lab + csize ikm > MAX_HPKE_LABEL_SZ"
  shows "wc_HpkeLabeledExtract hpke sid t salt lab ikm out = ret (BUFFER_E, out)"
  using assms by (auto simp: wc_HpkeLabeledExtract_def Let_def)

lemma clean_LabeledExpand:
  assumes "length prk < 2 ^ 32" "L \<le> 8160" "L \<le> length out"
    "2 + length HPKE_VERSION_STR + length sid + length lab + length info \<le> MAX_HPKE_LABEL_SZ"
  shows "clean (\<lambda>_. True) 0 h (wc_HpkeLabeledExpand hpke sid WC_SHA256 prk lab info L out)
    (succeeds (\<lambda>o'. o' = blit out 0 (hkdf_expand prk (be_bytes 2 L @ HPKE_VERSION_STR @ sid @ lab @ info) L)))"
proof -
  let ?z = "zeros (510 :: nat)"
  have i: "I2OSP (int L) 2 (zeros 512) = (0, be_bytes 2 L @ ?z)"
    using I2OSP_ok [of 2 "int L" "zeros 512"] assms(2) by (simp add: zeros_def)
  have sh: "blit (be_bytes 2 L @ X) (2 + n) Y = be_bytes 2 L @ blit X n Y" for X Y n
    by (simp add: blit_def)
  define b where "b = blit (blit (blit (blit ?z 0 HPKE_VERSION_STR) (length HPKE_VERSION_STR) sid)
      (length HPKE_VERSION_STR + length sid) lab) (length HPKE_VERSION_STR + length sid + length lab) info"
  have b: "b = (HPKE_VERSION_STR @ sid @ lab @ info) @ zeros (510 - (length HPKE_VERSION_STR + length sid + length lab + length info))"
    unfolding b_def by (rule labeled_ikm) (use assms(4) in simp)
  have B: "blit (blit (blit (blit (be_bytes 2 L @ ?z) 2 HPKE_VERSION_STR) (2 + length HPKE_VERSION_STR) sid)
      (2 + length HPKE_VERSION_STR + length sid) lab) (2 + length HPKE_VERSION_STR + length sid + length lab) info =
      be_bytes 2 L @ b"
    using sh [of ?z 0 HPKE_VERSION_STR] by (simp only: b_def sh add.assoc add_0_right)
  have t: "take (2 + length HPKE_VERSION_STR + length sid + length lab + length info) (be_bytes 2 L @ b) =
      be_bytes 2 L @ HPKE_VERSION_STR @ sid @ lab @ info" by (simp add: b)
  have ok: "cbuf_ok (Buf prk)" "cbuf_ok (Buf (be_bytes 2 L @ HPKE_VERSION_STR @ sid @ lab @ info))" "L \<le> 32 * 255"
    using assms by simp_all
  have g: "\<not> 512 < 2 + length HPKE_VERSION_STR" "\<not> 512 - (2 + length HPKE_VERSION_STR) < length sid"
    "\<not> 512 - (2 + length HPKE_VERSION_STR) - length sid < length lab"
    "\<not> 512 - (2 + length HPKE_VERSION_STR) - length sid - length lab < length info"
    using assms(4) by simp_all
  show ?thesis
    unfolding wc_HpkeLabeledExpand_def Let_def MAX_HPKE_LABEL_SZ_def if_not_P [OF g(1)] if_not_P [OF g(2)] if_not_P [OF g(3)] if_not_P [OF g(4)]
      i prod.case B t if_P [OF refl]
    by (rule clean_tmp2, rule clean_map, rule clean_mono [OF clean_Expand [OF ok(1,2,3) assms(3)]]) simp_all
qed


section \<open>Suites\<close>

definition suite_ok :: "byte \<Rightarrow> Hpke \<Rightarrow> bool" where
  "suite_ok a hpke \<longleftrightarrow>
     (a = 1 \<or> a = 2) \<and> Nk hpke = (if a = 1 then 16 else 32) \<and> Nh hpke = 32 \<and> Nn hpke = 12 \<and> Nt hpke = 16 \<and>
     Ndh hpke = 32 \<and> Npk hpke = 65 \<and> Nsecret hpke = 32 \<and> kdfDigest hpke = WC_SHA256 \<and> kemDigest hpke = WC_SHA256 \<and>
     curveId hpke = ECC_SECP256R1 \<and> hpke_kem hpke = 0x10 \<and> kem_suite_id hpke = rfc_kem_suite \<and> hpke_suite_id hpke = rfc_suite a"

lemma I2OSP_2: "0 \<le> n \<Longrightarrow> n < 65536 \<Longrightarrow> 2 \<le> length out \<Longrightarrow> I2OSP n 2 out = (0, be_bytes 2 (nat n) @ drop 2 out)"
  using I2OSP_ok [of 2 n out] by simp

lemma HpkeInit_ids_ok:
  assumes "a = 1 \<or> a = 2" "kem_suite_id hpke = zeros 5" "hpke_suite_id hpke = zeros 10"
  shows "HpkeInit_ids 0x10 1 a hpke = (0, hpke\<lparr>kem_suite_id := rfc_kem_suite, hpke_suite_id := rfc_suite (word_of_int a)\<rparr>)"
proof -
  have b: "be_bytes 2 v = [of_nat (v div 256), of_nat v]" for v by (simp add: be_bytes_def numeral_2_eq_2)
  have z: "zeros 5 = [0, 0, 0, 0, 0]" "zeros 10 = [0, 0, 0, 0, 0, 0, 0, 0, 0, 0]"
    by (simp_all add: zeros_def numeral_eq_Suc)
  show ?thesis
    using assms
    by (auto simp: HpkeInit_ids_def slice_out_def I2OSP_2 b label_defs blit_def z rfc_kem_suite_def rfc_suite_def Let_def)
qed


lemma curve_size_p256: "wc_ecc_get_curve_size_from_id ECC_SECP256R1 = 32"
  by (simp add: wc_ecc_get_curve_size_from_id_def wc_ecc_get_curve_idx_def ecc_sets_def)

lemma HpkeInit_ok:
  assumes "a = 1 \<or> a = 2"
  obtains hp where "wc_HpkeInit hpke DHKEM_P256_HKDF_SHA256 HKDF_SHA256 a = (0, hp)" "suite_ok (word_of_int a) hp"
proof -
  have "HpkeInit_ids 16 1 a (hpke_zeroed\<lparr>hpke_kem := 16, hpke_kdf := 1, hpke_aead := word_of_int a\<rparr>) =
    (0, hpke_zeroed\<lparr>hpke_kem := 16, hpke_kdf := 1, hpke_aead := word_of_int a, kem_suite_id := rfc_kem_suite, hpke_suite_id := rfc_suite (word_of_int a)\<rparr>)"
    using assms by (subst HpkeInit_ids_ok) (simp_all add: hpke_zeroed_def)
  then show thesis
    using assms that curve_size_p256
    by (auto simp: wc_HpkeInit_def HpkeInit_kem_def HpkeInit_kdf_def HpkeInit_aead_def suite_ok_def Let_def)
qed

lemma suite_ecc [simp]: "suite_ok a hpke \<Longrightarrow> ecc_kem hpke"
  by (simp add: suite_ok_def ecc_kem_def)

lemmas label_strs = KEM_STR_def HPKE_STR_def HPKE_VERSION_STR_def EAE_PRK_LABEL_STR_def
  SHARED_SECRET_LABEL_STR_def PSK_ID_HASH_LABEL_STR_def INFO_HASH_LABEL_STR_def SECRET_LABEL_STR_def
  KEY_LABEL_STR_def BASE_NONCE_LABEL_STR_def EXP_LABEL_STR_def

lemma length_ascii [simp]: "length (ascii s) = length s"
  by (simp add: ascii_def)

lemma length_suites [simp]: "length rfc_kem_suite = 5" "length (rfc_suite a) = 10"
  by (simp_all add: rfc_kem_suite_def rfc_suite_def)

lemma length_LabeledExtract [simp]: "length (LabeledExtract sid salt l ikm) = 32"
  by (simp add: LabeledExtract_def hkdf_extract_def)

lemma length_hkdf_expand [simp]: "length (hkdf_expand prk info n) = n"
proof -
  have "length (concat (map (hkdf_T prk info) xs)) = 32 * length xs" if "0 \<notin> set xs" for xs
    using that by (induction xs) (auto simp: gr0_conv_Suc)
  then have "length (concat (map (hkdf_T prk info) [1..<Suc ((n + 31) div 32)])) = 32 * ((n + 31) div 32)" by simp
  moreover have "n \<le> 32 * ((n + 31) div 32)" by simp
  ultimately show ?thesis by (simp add: hkdf_expand_def)
qed

lemma length_LabeledExpand [simp]: "length (LabeledExpand sid prk l info L) = L"
  by (simp add: LabeledExpand_def)

lemma clean_LabeledExtract_rfc:
  assumes "is_null salt \<or> cbuf_ok salt" "is_null ikm \<longrightarrow> csize ikm = 0" "length sid + length l + csize ikm \<le> 505"
  shows "clean (\<lambda>_. True) 0 h (wc_HpkeLabeledExtract hpke sid WC_SHA256 salt (ascii l) ikm out)
    (succeeds (\<lambda>o'. o' = blit out 0 (LabeledExtract sid (csalt salt) l (cbytes ikm))))"
  using clean_LabeledExtract [of salt ikm sid "ascii l" h hpke out] assms by (simp add: LabeledExtract_def label_strs)

lemma clean_LabeledExpand_rfc:
  assumes "length prk < 2 ^ 32" "L \<le> 8160" "L \<le> length out" "length sid + length l + length info \<le> 503"
  shows "clean (\<lambda>_. True) 0 h (wc_HpkeLabeledExpand hpke sid WC_SHA256 prk (ascii l) info L out)
    (succeeds (\<lambda>o'. o' = blit out 0 (LabeledExpand sid prk l info L)))"
  using clean_LabeledExpand [of prk L out sid "ascii l" info h hpke] assms by (simp add: LabeledExpand_def label_strs)

lemma clean_ExtractAndExpand:
  assumes "suite_ok a hpke" "length dh \<le> 400" "length kc \<le> 400" "length ss = 32"
  shows "clean (\<lambda>_. True) 0 h (wc_HpkeExtractAndExpand hpke dh kc ss) (succeeds (\<lambda>o'. o' = ExtractAndExpand dh kc))"
proof -
  let ?prk = "LabeledExtract rfc_kem_suite None ''eae_prk'' dh"
  have s: "kem_suite_id hpke = rfc_kem_suite" "kemDigest hpke = WC_SHA256" "Nsecret hpke = 32" using assms(1) by (simp_all add: suite_ok_def)
  have 1: "clean (\<lambda>_. True) 0 g (wc_HpkeLabeledExtract hpke rfc_kem_suite WC_SHA256 (Null 0) EAE_PRK_LABEL_STR (Buf dh) (zeros WC_MAX_DIGEST_SIZE))
      (succeeds (\<lambda>o'. o' = ?prk))" for g :: "'a env"
    unfolding label_strs
    by (rule clean_conseq [OF clean_LabeledExtract_rfc]) (use assms in \<open>auto simp: csalt_def\<close>)
  have 2: "clean (\<lambda>_. True) 0 g (wc_HpkeLabeledExpand hpke rfc_kem_suite WC_SHA256 (take 32 ?prk) SHARED_SECRET_LABEL_STR kc 32 ss)
      (succeeds (\<lambda>o'. o' = ExtractAndExpand dh kc))" for g :: "'a env"
    unfolding label_strs
    by (rule clean_conseq [OF clean_LabeledExpand_rfc]) (use assms in \<open>auto simp: ExtractAndExpand_def\<close>)
  show ?thesis
    unfolding wc_HpkeExtractAndExpand_def s
    apply (rule clean_malloc)
     apply simp
     apply (rule clean_chain [OF 1 [simplified]])
      apply (simp, rule clean_free, simp, simp add: clean_fail)
     apply (simp, rule clean_bind [OF 2 [simplified]])
      apply (auto intro!: clean_free intro: clean_ret clean_fail)
    done
qed


definition context_of :: "byte \<Rightarrow> nat \<Rightarrow> byte list \<Rightarrow> byte list \<Rightarrow> HpkeBaseContext" where
  "context_of a nk ss info =
     (case KeyScheduleBase a nk ss info of (k, bn, e) \<Rightarrow>
        \<lparr>seq = 0, ctx_key = k @ zeros (32 - nk), base_nonce = bn, exporter_secret = e @ zeros 32\<rparr>)"

lemma clean_into:
  assumes "clean (\<lambda>_. True) 0 h (f (drop off buf)) (succeeds P)" "\<And>t. P t \<Longrightarrow> Q (take off buf @ t)"
  shows "clean (\<lambda>_. True) 0 h (into buf off f) (succeeds Q)"
  unfolding into_def by (rule clean_map [OF assms(1)]) (use assms(2) in simp)

lemma key_schedule_steps:
  assumes "suite_ok a hpke" "is_null info \<longrightarrow> csize info = 0" "csize info \<le> 486" "length ss = 32"
  defines "ps \<equiv> LabeledExtract (rfc_suite a) None ''psk_id_hash'' []" and "ih \<equiv> LabeledExtract (rfc_suite a) None ''info_hash'' (cbytes info)"
    and "secret \<equiv> LabeledExtract (rfc_suite a) (Some ss) ''secret'' []"
  shows "clean (\<lambda>_. True) 0 g (into ((zeros 65)[0 := 0]) 1 (wc_HpkeLabeledExtract hpke (rfc_suite a) WC_SHA256 (Null 0) PSK_ID_HASH_LABEL_STR (Null 0)))
      (succeeds (\<lambda>o'. o' = 0 # ps @ zeros 32))"
    and "clean (\<lambda>_. True) 0 g (into (0 # ps @ zeros 32) 33 (wc_HpkeLabeledExtract hpke (rfc_suite a) WC_SHA256 (Null 0) INFO_HASH_LABEL_STR info))
      (succeeds (\<lambda>o'. o' = 0 # ps @ ih))"
    and "clean (\<lambda>_. True) 0 g (wc_HpkeLabeledExtract hpke (rfc_suite a) WC_SHA256 (Buf ss) SECRET_LABEL_STR (Null 0) (zeros 32))
      (succeeds (\<lambda>o'. o' = secret))"
    and "length l \<le> 10 \<Longrightarrow> L \<le> length out \<Longrightarrow> L \<le> 64 \<Longrightarrow>
      clean (\<lambda>_. True) 0 g (wc_HpkeLabeledExpand hpke (rfc_suite a) WC_SHA256 secret (ascii l) (0 # ps @ ih) L out)
      (succeeds (\<lambda>o'. o' = LabeledExpand (rfc_suite a) secret l (0 # ps @ ih) L @ drop L out))"
proof -
  have z: "zeros 64 = zeros 32 @ zeros 32" "zeros 65 = 0 # zeros 64" by (simp_all add: zeros_def numeral_eq_Suc)
  show "clean (\<lambda>_. True) 0 g (into ((zeros 65)[0 := 0]) 1 (wc_HpkeLabeledExtract hpke (rfc_suite a) WC_SHA256 (Null 0) PSK_ID_HASH_LABEL_STR (Null 0)))
      (succeeds (\<lambda>o'. o' = 0 # ps @ zeros 32))"
    unfolding label_strs
    by (rule clean_into [OF clean_LabeledExtract_rfc]) (auto simp: csalt_def ps_def z blit_def)
  show "clean (\<lambda>_. True) 0 g (into (0 # ps @ zeros 32) 33 (wc_HpkeLabeledExtract hpke (rfc_suite a) WC_SHA256 (Null 0) INFO_HASH_LABEL_STR info))
      (succeeds (\<lambda>o'. o' = 0 # ps @ ih))"
    unfolding label_strs
    by (rule clean_into [OF clean_LabeledExtract_rfc]) (use assms in \<open>auto simp: csalt_def blit_def\<close>)
  show "clean (\<lambda>_. True) 0 g (wc_HpkeLabeledExtract hpke (rfc_suite a) WC_SHA256 (Buf ss) SECRET_LABEL_STR (Null 0) (zeros 32))
      (succeeds (\<lambda>o'. o' = secret))"
    unfolding label_strs
    by (rule clean_conseq [OF clean_LabeledExtract_rfc]) (use assms in \<open>auto simp: csalt_def\<close>)
  show "length l \<le> 10 \<Longrightarrow> L \<le> length out \<Longrightarrow> L \<le> 64 \<Longrightarrow>
      clean (\<lambda>_. True) 0 g (wc_HpkeLabeledExpand hpke (rfc_suite a) WC_SHA256 secret (ascii l) (0 # ps @ ih) L out)
      (succeeds (\<lambda>o'. o' = LabeledExpand (rfc_suite a) secret l (0 # ps @ ih) L @ drop L out))"
    by (rule clean_conseq [OF clean_LabeledExpand_rfc]) (auto simp: blit_def secret_def ps_def ih_def)
qed


text \<open>Two allocations tested together.\<close>

lemma clean_malloc2:
  assumes "\<And>h'. alloc_ok h' = alloc_ok h \<Longrightarrow> clean (\<lambda>_. True) (- 2) h' m Q"
  shows "clean (\<lambda>_. True) 0 h (State_Monad.bind XMALLOC (\<lambda>ok1. State_Monad.bind XMALLOC (\<lambda>ok2.
    if \<not> ok1 \<or> \<not> ok2
    then State_Monad.bind (if ok1 then XFREE b1 else ret ()) (\<lambda>_.
         State_Monad.bind (if ok2 then XFREE b2 else ret ()) (\<lambda>_. ret (MEMORY_E, x)))
    else m))) Q"
  apply (rule clean_malloc)
   apply (rule clean_malloc)
    apply (simp add: assms)
   apply (simp, rule clean_free, simp, simp add: clean_fail)
  apply (rule clean_malloc)
   apply (simp, rule clean_free, simp, simp add: clean_fail)
  apply (simp add: clean_fail)
  done

lemma clean_KeySchedule:
  assumes "suite_ok a hpke" "is_null info \<longrightarrow> csize info = 0" "csize info \<le> 486" "length ss = 32"
  shows "clean (\<lambda>_. True) 0 h (wc_HpkeKeyScheduleBase hpke context_zeroed ss info)
    (succeeds (\<lambda>c. c = context_of a (Nk hpke) ss (cbytes info)))"
proof -
  note st = key_schedule_steps [OF assms]
  define ps ih secret where "ps = LabeledExtract (rfc_suite a) None ''psk_id_hash'' []"
    and "ih = LabeledExtract (rfc_suite a) None ''info_hash'' (cbytes info)"
    and "secret = LabeledExtract (rfc_suite a) (Some ss) ''secret'' []"
  note st' = st [folded ps_def ih_def secret_def]
  have hp: "hpke_suite_id hpke = rfc_suite a" "kdfDigest hpke = WC_SHA256" "Nh hpke = 32" "Nn hpke = 12" "Nsecret hpke = 32"
    "Nk hpke \<le> 32" using assms(1) by (auto simp: suite_ok_def)
  have t: "take 32 secret = secret" "take 65 (0 # ps @ ih) = 0 # ps @ ih" "take 32 ss = ss"
    using assms(4) by (simp_all add: secret_def ps_def ih_def)
  have k: "clean (\<lambda>_. True) 0 g (wc_HpkeLabeledExpand hpke (rfc_suite a) WC_SHA256 secret KEY_LABEL_STR (0 # ps @ ih) (Nk hpke) (zeros 32))
      (succeeds (\<lambda>o'. o' = LabeledExpand (rfc_suite a) secret ''key'' (0 # ps @ ih) (Nk hpke) @ zeros (32 - Nk hpke)))" for g :: "'a env"
    unfolding label_strs by (rule clean_conseq [OF st'(4)]) (use hp in \<open>auto simp: zeros_def\<close>)
  have n: "clean (\<lambda>_. True) 0 g (wc_HpkeLabeledExpand hpke (rfc_suite a) WC_SHA256 secret BASE_NONCE_LABEL_STR (0 # ps @ ih) 12 (zeros 12))
      (succeeds (\<lambda>o'. o' = LabeledExpand (rfc_suite a) secret ''base_nonce'' (0 # ps @ ih) 12))" for g :: "'a env"
    unfolding label_strs by (rule clean_conseq [OF st'(4)]) (auto simp: zeros_def)
  have e: "clean (\<lambda>_. True) 0 g (wc_HpkeLabeledExpand hpke (rfc_suite a) WC_SHA256 secret EXP_LABEL_STR (0 # ps @ ih) 32 (zeros 64))
      (succeeds (\<lambda>o'. o' = LabeledExpand (rfc_suite a) secret ''exp'' (0 # ps @ ih) 32 @ zeros 32))" for g :: "'a env"
    unfolding label_strs by (rule clean_conseq [OF st'(4)]) (auto simp: zeros_def)
  have cz: "ctx_key (context_zeroed\<lparr>seq := 0\<rparr>) = zeros 32" "base_nonce (context_zeroed\<lparr>seq := 0\<rparr>) = zeros 12"
    "exporter_secret (context_zeroed\<lparr>seq := 0\<rparr>) = zeros 64" by (simp_all add: context_zeroed_def)
  have num: "1 + 2 * 32 = (65 :: nat)" "1 + 32 = (33 :: nat)" by simp_all
  note tail = clean_free [where Z = "\<lambda>_. True", OF TrueI] clean_fail
  show ?thesis
    unfolding wc_HpkeKeyScheduleBase_def Let_def hp(1-5) WC_MAX_DIGEST_SIZE_def cz num
    apply (rule clean_malloc2)
    apply (rule clean_chain [OF st'(1)])
     apply (simp add: tail)
    apply (simp, rule clean_chain [OF st'(2)])
     apply (simp add: tail)
    apply (simp add: t, rule clean_chain [OF st'(3)])
     apply (simp add: tail)
    apply (simp only: prod.case simp_thms if_True t, rule clean_chain [OF k])
     apply (simp add: tail)
    apply (simp only: prod.case simp_thms if_True t, rule clean_chain [OF n])
     apply (simp add: tail)
    apply (simp only: prod.case simp_thms if_True t, rule clean_chain [OF e])
     apply (simp add: tail)
    apply (auto intro!: tail(1) clean_ret simp: context_of_def context_zeroed_def KeyScheduleBase_def Let_def secret_def ps_def ih_def)
    done
qed

end
