(* ===== verification/HpkeCorrect.thy ===== *)
theory HpkeCorrect
  imports Hpke
begin

text \<open>
  Correctness of \<open>hpke.c\<close>: contexts seal and open messages as an AEAD (a locale, interpreted on
  AES-GCM) promises, and the set-ups of the two sides derive the key schedule of RFC 9180
  from whatever a key's device computes (a locale again, for the device).
\<close>

section \<open>Messages\<close>

text \<open>An AEAD: what it seals it opens, and it opens nothing else.\<close>

locale aead =
  fixes seal :: "'k \<Rightarrow> 'n \<Rightarrow> byte list \<Rightarrow> byte list \<Rightarrow> byte list"
    and unseal :: "'k \<Rightarrow> 'n \<Rightarrow> byte list \<Rightarrow> byte list \<Rightarrow> byte list option"
    and usable :: "'k \<Rightarrow> 'n \<Rightarrow> byte list \<Rightarrow> bool"
    and fits :: "byte list \<Rightarrow> bool"
  assumes unseal_seal: "\<lbrakk>usable k n a; fits p\<rbrakk> \<Longrightarrow> unseal k n a (seal k n a p) = Some p"
    and unseal_only: "\<lbrakk>usable k n a; fits c; unseal k n a c = Some p\<rbrakk> \<Longrightarrow> c = seal k n a p"
begin

lemma seal_inj: "\<lbrakk>usable k n a; fits p; fits p'; seal k n a p = seal k n a p'\<rbrakk> \<Longrightarrow> p = p'"
  by (metis option.inject unseal_seal)

lemma forged_rejected:
  "\<lbrakk>usable k n a; fits c; \<And>p. c \<noteq> seal k n a p\<rbrakk> \<Longrightarrow> unseal k n a c = None"
  using unseal_only by (cases "unseal k n a c") blast+

text \<open>Messages sealed one after another, each under the nonce of its number.\<close>

lemma unseal_sealed_all:
  assumes "\<And>i. usable k (nonce i) a" "list_all fits ps"
  shows "map (\<lambda>(i, p). unseal k (nonce i) a (seal k (nonce i) a p)) (enumerate s ps) = map Some ps"
  using assms by (induction ps arbitrary: s) (auto simp: unseal_seal)

end

text \<open>One call of AES-GCM under a fresh key object, as the contexts make it.\<close>

definition aes_gcm_seal :: "byte list \<Rightarrow> byte list \<Rightarrow> byte list \<Rightarrow> byte list \<Rightarrow> byte list" where
  "aes_gcm_seal key nonce aad p =
     (let (_, aes) = wc_AesGcmSetKey aes_zeroed (Buf key);
          (_, c, t) = wc_AesGcmEncrypt aes (Some (zeros (length p))) (Buf p) (Buf nonce) (Some (zeros 16)) 16 (Buf aad)
      in the c @ the t)"

definition aes_gcm_open :: "byte list \<Rightarrow> byte list \<Rightarrow> byte list \<Rightarrow> byte list \<Rightarrow> byte list option" where
  "aes_gcm_open key nonce aad c =
     (if length c < 16 then None
      else let (_, aes) = wc_AesGcmSetKey aes_zeroed (Buf key);
               n = length c - 16;
               (r, p) = wc_AesGcmDecrypt aes (Some (zeros n)) (Buf (take n c)) (Buf nonce) (Some (drop n c)) 16 (Buf aad)
           in if r = 0 then p else None)"


definition gcm_usable :: "byte list \<Rightarrow> byte list \<Rightarrow> byte list \<Rightarrow> bool" where
  "gcm_usable key nonce aad \<longleftrightarrow>
     length key \<in> {16, 24, 32} \<and> nonce \<noteq> [] \<and> length nonce < 2 ^ 32 \<and> length aad < 2 ^ 32"

definition gcm_fits :: "byte list \<Rightarrow> bool" where
  "gcm_fits m \<longleftrightarrow> length m < 2 ^ 32"

lemma aes_gcm_seal_eq:
  assumes "gcm_usable key nonce aad" "gcm_fits p"
  shows "aes_gcm_seal key nonce aad p =
    gcm_cipher (aes_encrypt key) nonce p @ gcm_tag (aes_encrypt key) nonce aad (gcm_cipher (aes_encrypt key) nonce p)"
proof -
  have "length (aes_key aes_zeroed) = 60" by (simp add: aes_zeroed_def)
  from wc_AesGcmSetKey_keyed [OF this, of key] obtain aes
    where aes: "wc_AesGcmSetKey aes_zeroed (Buf key) = (0, aes)" "gcm_keyed aes key"
    using assms(1) unfolding gcm_usable_def by blast
  show ?thesis
    using assms aes wc_AesGcmEncrypt_keyed [OF aes(2), of nonce "Buf aad" p "zeros (length p)" 16 "zeros 16"]
    by (simp add: aes_gcm_seal_def gcm_usable_def gcm_fits_def aad_ok_def)
qed

lemma aes_gcm_open_eq:
  assumes "gcm_usable key nonce aad" "gcm_fits (take (length c - 16) c)" "16 \<le> length c"
  defines "b \<equiv> take (length c - 16) c" and "t \<equiv> drop (length c - 16) c"
  shows "aes_gcm_open key nonce aad c =
    (if t = gcm_tag (aes_encrypt key) nonce aad b then Some (gcm_cipher (aes_encrypt key) nonce b) else None)"
proof -
  have "length (aes_key aes_zeroed) = 60" by (simp add: aes_zeroed_def)
  from wc_AesGcmSetKey_keyed [OF this, of key] obtain aes
    where aes: "wc_AesGcmSetKey aes_zeroed (Buf key) = (0, aes)" "gcm_keyed aes key"
    using assms(1) unfolding gcm_usable_def by blast
  show ?thesis
    using assms aes wc_AesGcmDecrypt_keyed [OF aes(2), of nonce "Buf aad" b "zeros (length c - 16)" 16 t]
    by (simp add: aes_gcm_open_def gcm_usable_def gcm_fits_def aad_ok_def AES_GCM_AUTH_E_def)
qed

interpretation gcm: aead aes_gcm_seal aes_gcm_open gcm_usable gcm_fits
proof
  fix k n a p
  assume u: "gcm_usable k n a" and p: "gcm_fits p"
  define b where "b = gcm_cipher (aes_encrypt k) n p"
  have s: "aes_gcm_seal k n a p = b @ gcm_tag (aes_encrypt k) n a b"
    using aes_gcm_seal_eq [OF u p] by (simp add: b_def)
  have "gcm_fits b" using p by (simp add: b_def gcm_fits_def)
  then show "aes_gcm_open k n a (aes_gcm_seal k n a p) = Some p"
    using aes_gcm_open_eq [OF u, of "aes_gcm_seal k n a p"] by (simp add: s) (simp add: b_def gcm_cipher_involution)
next
  fix k n a c p
  assume u: "gcm_usable k n a" and c: "gcm_fits c" and o: "aes_gcm_open k n a c = Some p"
  have l: "16 \<le> length c" using o by (cases "length c < 16") (auto simp: aes_gcm_open_def)
  define b where "b = take (length c - 16) c"
  have f: "gcm_fits b" using c by (simp add: b_def gcm_fits_def)
  have cb: "c = b @ drop (length c - 16) c" by (simp add: b_def)
  have p: "drop (length c - 16) c = gcm_tag (aes_encrypt k) n a b" "p = gcm_cipher (aes_encrypt k) n b"
    using o aes_gcm_open_eq [OF u f [unfolded b_def] l] by (auto simp: b_def split: if_splits)
  have "gcm_fits p" using c by (simp add: p gcm_fits_def b_def)
  then have "aes_gcm_seal k n a p = b @ gcm_tag (aes_encrypt k) n a b"
    using aes_gcm_seal_eq [OF u] by (simp add: p gcm_cipher_involution)
  then show "c = aes_gcm_seal k n a p" using cb p(1) by simp
qed


definition ctx_ok :: "HpkeBaseContext \<Rightarrow> bool" where
  "ctx_ok c \<longleftrightarrow> length (ctx_key c) = 32 \<and> length (base_nonce c) = 12 \<and> 0 \<le> seq c \<and> seq c \<le> INT_MAX"

abbreviation ctx_nonce :: "HpkeBaseContext \<Rightarrow> byte list" where
  "ctx_nonce c \<equiv> ComputeNonce (base_nonce c) (nat (seq c))"

lemma nonce_ok:
  assumes "suite_ok a hpke" "ctx_ok c"
  shows "wc_HpkeContextComputeNonce hpke c (zeros 12) = (0, ctx_nonce c)"
proof -
  have "I2OSP (seq c) 12 (zeros 12) = (0, be_bytes 12 (nat (seq c)))"
    using I2OSP_ok [of 12 "seq c" "zeros 12"] assms(2) by (simp add: ctx_ok_def)
  then show ?thesis
    using assms xorbufout_bytes [of 12 "base_nonce c" "be_bytes 12 (nat (seq c))" 0 0 0 "zeros 12"]
    by (simp add: wc_HpkeContextComputeNonce_def suite_ok_def ctx_ok_def ComputeNonce_def)
qed

lemma ctx_usable:
  assumes "suite_ok a hpke" "ctx_ok c" "aad_ok aad"
  shows "gcm_usable (take (Nk hpke) (ctx_key c)) (ctx_nonce c) (cbytes aad)"
proof -
  have "length (ctx_nonce c) = 12" using assms(2) by (simp add: ComputeNonce_def ctx_ok_def)
  then show ?thesis
    using assms by (auto simp: gcm_usable_def suite_ok_def ctx_ok_def aad_ok_def aad_okD)
qed

text \<open>The shape of both message functions once the cipher's key is installed: an object for the
  cipher, and a result that does not depend on it.\<close>

definition aes_call :: "'a \<Rightarrow> int \<times> 'a \<Rightarrow> ('w, int \<times> 'a) cmd" where
  "aes_call x y = do { ok \<leftarrow> XMALLOC; if \<not> ok then ret (MEMORY_E, x) else do { XFREE (Freed_obj ''Aes'' True); ret y } }"

lemma clean_aes_call: "Q r y \<Longrightarrow> clean (\<lambda>_. True) 0 h (aes_call x (r, y)) Q"
  unfolding aes_call_def by (intro clean_malloc) (simp_all add: clean_fail clean_free clean_ret)

lemma ContextSeal_eq:
  assumes "suite_ok a hpke" "ctx_ok c" "seq c < INT_MAX" "aad_ok aad" "gcm_fits p" "length p + 16 \<le> length out"
  shows "wc_HpkeContextSealBase hpke c aad (Buf p) out =
    aes_call (c, out) (0, c\<lparr>seq := seq c + 1\<rparr>, blit out 0 (aes_gcm_seal (take (Nk hpke) (ctx_key c)) (ctx_nonce c) (cbytes aad) p))"
proof -
  let ?k = "take (Nk hpke) (ctx_key c)"
  have hp: "Nn hpke = 12" "Nt hpke = 16" using assms(1) by (simp_all add: suite_ok_def)
  have u: "gcm_usable ?k (ctx_nonce c) (cbytes aad)" using assms by (intro ctx_usable)
  have "length (aes_key aes_zeroed) = 60" by (simp add: aes_zeroed_def)
  from wc_AesGcmSetKey_keyed [OF this, of ?k] obtain aes
    where aes: "wc_AesGcmSetKey aes_zeroed (Buf ?k) = (0, aes)" "gcm_keyed aes ?k"
    using u unfolding gcm_usable_def by blast
  have n: "take 12 (ctx_nonce c) = ctx_nonce c" using assms(2) by (simp add: ComputeNonce_def ctx_ok_def)
  let ?c = "gcm_cipher (aes_encrypt ?k) (ctx_nonce c) p"
  have e: "wc_AesGcmEncrypt aes (Some (take (length p) out)) (Buf p) (Buf (ctx_nonce c)) (Some (drop (length p) out)) 16 aad =
      (0, Some ?c, Some (gcm_tag (aes_encrypt ?k) (ctx_nonce c) (cbytes aad) ?c @ drop 16 (drop (length p) out)))"
    using wc_AesGcmEncrypt_keyed [OF aes(2), of "ctx_nonce c" aad p "take (length p) out" 16 "drop (length p) out"] assms u
    by (simp add: gcm_usable_def gcm_fits_def)
  have b: "blit out 0 (aes_gcm_seal ?k (ctx_nonce c) (cbytes aad) p) =
      ?c @ gcm_tag (aes_encrypt ?k) (ctx_nonce c) (cbytes aad) ?c @ drop 16 (drop (length p) out)"
    using aes_gcm_seal_eq [OF u assms(5)] by (simp add: blit_def add.commute)
  show ?thesis
    unfolding wc_HpkeContextSealBase_def aes_call_def
    using assms(1-4) nonce_ok [OF assms(1,2)] aes(1) e n
    by (auto simp: wc_AesInit_def hp b Let_def aad_ok_def cong: if_cong)
qed

lemma clean_ContextSeal:
  assumes "suite_ok a hpke" "ctx_ok c" "seq c < INT_MAX" "aad_ok aad" "gcm_fits p" "length p + 16 \<le> length out"
  shows "clean (\<lambda>_. True) 0 h (wc_HpkeContextSealBase hpke c aad (Buf p) out)
    (succeeds (\<lambda>(c', o'). c' = c\<lparr>seq := seq c + 1\<rparr> \<and>
       o' = blit out 0 (aes_gcm_seal (take (Nk hpke) (ctx_key c)) (ctx_nonce c) (cbytes aad) p)))"
  unfolding ContextSeal_eq [OF assms] by (rule clean_aes_call) simp

lemma ContextOpen_eq:
  assumes "suite_ok a hpke" "ctx_ok c" "seq c < INT_MAX" "aad_ok aad" "gcm_fits ct" "length ct = n + 16" "n \<le> length out"
  shows "wc_HpkeContextOpenBase hpke c aad ct n out =
    aes_call (c, out) (case aes_gcm_open (take (Nk hpke) (ctx_key c)) (ctx_nonce c) (cbytes aad) ct of
        Some p \<Rightarrow> (0, c\<lparr>seq := seq c + 1\<rparr>, blit out 0 p)
      | None \<Rightarrow> (AES_GCM_AUTH_E, c, blit out 0 (zeros n)))"
proof -
  let ?k = "take (Nk hpke) (ctx_key c)"
  have hp: "Nn hpke = 12" "Nt hpke = 16" using assms(1) by (simp_all add: suite_ok_def)
  have u: "gcm_usable ?k (ctx_nonce c) (cbytes aad)" using assms by (intro ctx_usable)
  have "length (aes_key aes_zeroed) = 60" by (simp add: aes_zeroed_def)
  from wc_AesGcmSetKey_keyed [OF this, of ?k] obtain aes
    where aes: "wc_AesGcmSetKey aes_zeroed (Buf ?k) = (0, aes)" "gcm_keyed aes ?k"
    using u unfolding gcm_usable_def by blast
  have n: "take 12 (ctx_nonce c) = ctx_nonce c" using assms(2) by (simp add: ComputeNonce_def ctx_ok_def)
  let ?b = "take n ct" and ?t = "drop n ct"
  have d: "wc_AesGcmDecrypt aes (Some out) (Buf ?b) (Buf (ctx_nonce c)) (Some ?t) 16 aad =
    (if ?t = gcm_tag (aes_encrypt ?k) (ctx_nonce c) (cbytes aad) ?b then (0, Some (gcm_cipher (aes_encrypt ?k) (ctx_nonce c) ?b @ drop n out))
     else (AES_GCM_AUTH_E, Some (zeros n @ drop n out)))"
    using wc_AesGcmDecrypt_keyed [OF aes(2), of "ctx_nonce c" aad ?b out 16 ?t] assms u
    by (simp add: gcm_usable_def gcm_fits_def)
  have o: "aes_gcm_open ?k (ctx_nonce c) (cbytes aad) ct =
    (if ?t = gcm_tag (aes_encrypt ?k) (ctx_nonce c) (cbytes aad) ?b then Some (gcm_cipher (aes_encrypt ?k) (ctx_nonce c) ?b) else None)"
    using aes_gcm_open_eq [OF u, of ct] assms(5,6) by (simp add: gcm_fits_def)
  show ?thesis
    unfolding wc_HpkeContextOpenBase_def o aes_call_def
    using assms(1-4,6,7) nonce_ok [OF assms(1,2)] aes(1) d n
    by (auto simp: wc_AesInit_def hp Let_def aad_ok_def blit_def AES_GCM_AUTH_E_def cong: if_cong)
qed

lemma clean_ContextOpen:
  assumes "suite_ok a hpke" "ctx_ok c" "seq c < INT_MAX" "aad_ok aad" "gcm_fits ct" "length ct = n + 16" "n \<le> length out"
  shows "clean (\<lambda>_. True) 0 h (wc_HpkeContextOpenBase hpke c aad ct n out)
    (\<lambda>r (c', o'). case aes_gcm_open (take (Nk hpke) (ctx_key c)) (ctx_nonce c) (cbytes aad) ct of
        Some p \<Rightarrow> r = 0 \<and> c' = c\<lparr>seq := seq c + 1\<rparr> \<and> o' = blit out 0 p
      | None \<Rightarrow> r = AES_GCM_AUTH_E \<and> c' = c \<and> o' = blit out 0 (zeros n))"
  unfolding ContextOpen_eq [OF assms] by (auto intro: clean_aes_call split: option.splits)

section \<open>Streams of messages\<close>

text \<open>A sender's and a receiver's loop over messages, with additional data for each, stopping at the
  first failure.\<close>

primrec seal_all ::
  "Hpke \<Rightarrow> HpkeBaseContext \<Rightarrow> (cbuf \<times> byte list) list \<Rightarrow> ('w, int \<times> HpkeBaseContext \<times> byte list list) cmd" where
  "seal_all hpke c [] = ret (0, c, [])"
| "seal_all hpke c (m # ms) = do {
     (r, c, out) \<leftarrow> wc_HpkeContextSealBase hpke c (fst m) (Buf (snd m)) (zeros (length (snd m) + 16));
     if r \<noteq> 0 then ret (r, c, []) else do {
       (r, c, outs) \<leftarrow> seal_all hpke c ms;
       ret (r, c, out # outs)
     }
   }"

primrec open_all ::
  "Hpke \<Rightarrow> HpkeBaseContext \<Rightarrow> (cbuf \<times> byte list) list \<Rightarrow> ('w, int \<times> HpkeBaseContext \<times> byte list list) cmd" where
  "open_all hpke c [] = ret (0, c, [])"
| "open_all hpke c (m # ms) = do {
     (r, c, out) \<leftarrow> wc_HpkeContextOpenBase hpke c (fst m) (snd m) (length (snd m) - 16) (zeros (length (snd m) - 16));
     if r \<noteq> 0 then ret (r, c, []) else do {
       (r, c, outs) \<leftarrow> open_all hpke c ms;
       ret (r, c, out # outs)
     }
   }"

definition message_ok :: "cbuf \<times> byte list \<Rightarrow> bool" where
  "message_ok m \<longleftrightarrow> aad_ok (fst m) \<and> length (snd m) + 16 < 2 ^ 32"

definition stream :: "Hpke \<Rightarrow> HpkeBaseContext \<Rightarrow> (cbuf \<times> byte list) list \<Rightarrow> byte list list" where
  "stream hpke c ms =
     map (\<lambda>(i, m). aes_gcm_seal (take (Nk hpke) (ctx_key c)) (ComputeNonce (base_nonce c) i) (cbytes (fst m)) (snd m))
       (enumerate (nat (seq c)) ms)"

lemma stream_Cons:
  "0 \<le> seq c \<Longrightarrow> stream hpke c (m # ms) =
     aes_gcm_seal (take (Nk hpke) (ctx_key c)) (ctx_nonce c) (cbytes (fst m)) (snd m) # stream hpke (c\<lparr>seq := seq c + 1\<rparr>) ms"
  by (simp add: stream_def nat_add_distrib)

lemma ctx_ok_next: "ctx_ok c \<Longrightarrow> seq c < INT_MAX \<Longrightarrow> ctx_ok (c\<lparr>seq := seq c + 1\<rparr>)"
  by (simp add: ctx_ok_def)

lemma length_aes_gcm_seal: "gcm_usable k n a \<Longrightarrow> gcm_fits p \<Longrightarrow> length (aes_gcm_seal k n a p) = length p + 16"
  by (simp add: aes_gcm_seal_eq)

lemma clean_seal_all:
  assumes "suite_ok a hpke"
  shows "\<lbrakk>ctx_ok c; list_all message_ok ms; seq c + int (length ms) \<le> INT_MAX\<rbrakk> \<Longrightarrow>
    clean (\<lambda>_. True) 0 h (seal_all hpke c ms)
      (succeeds (\<lambda>(c', cts). c' = c\<lparr>seq := seq c + int (length ms)\<rparr> \<and> cts = stream hpke c ms))"
proof (induction ms arbitrary: c h)
  case Nil
  then show ?case by (auto simp: stream_def intro!: clean_ret)
next
  case (Cons m ms)
  have c: "seq c < INT_MAX" "0 \<le> seq c" using Cons.prems by (auto simp: ctx_ok_def)
  have m: "aad_ok (fst m)" "gcm_fits (snd m)" using Cons.prems(2) by (simp_all add: message_ok_def gcm_fits_def)
  note u = ctx_usable [OF assms Cons.prems(1) m(1)]
  show ?case
    unfolding seal_all.simps
    apply (rule clean_then2)
     apply (rule clean_ContextSeal [OF assms Cons.prems(1) c(1) m])
     apply simp
    apply (rule clean_map2 [OF Cons.IH])
       apply (use Cons.prems c u m in \<open>auto simp: stream_Cons length_aes_gcm_seal ctx_ok_next\<close>)
    done
qed

lemma clean_open_all:
  assumes "suite_ok a hpke"
  shows "\<lbrakk>ctx_ok c; list_all message_ok ms; seq c + int (length ms) \<le> INT_MAX\<rbrakk> \<Longrightarrow>
    clean (\<lambda>_. True) 0 h (open_all hpke c (zip (map fst ms) (stream hpke c ms)))
      (succeeds (\<lambda>(c', ps). c' = c\<lparr>seq := seq c + int (length ms)\<rparr> \<and> ps = map snd ms))"
proof (induction ms arbitrary: c h)
  case Nil
  then show ?case by (auto simp: stream_def intro!: clean_ret)
next
  case (Cons m ms)
  have c: "seq c < INT_MAX" "0 \<le> seq c" using Cons.prems by (auto simp: ctx_ok_def)
  have m: "aad_ok (fst m)" "gcm_fits (snd m)" "length (snd m) + 16 < 2 ^ 32"
    using Cons.prems(2) by (simp_all add: message_ok_def gcm_fits_def)
  note u = ctx_usable [OF assms Cons.prems(1) m(1)]
  let ?ct = "aes_gcm_seal (take (Nk hpke) (ctx_key c)) (ctx_nonce c) (cbytes (fst m)) (snd m)"
  have l: "length ?ct = length (snd m) + 16" using u m(2) by (rule length_aes_gcm_seal)
  have o: "clean (\<lambda>_. True) 0 h (wc_HpkeContextOpenBase hpke c (fst m) ?ct (length ?ct - 16) (zeros (length ?ct - 16)))
      (succeeds (\<lambda>(c', o'). c' = c\<lparr>seq := seq c + 1\<rparr> \<and> o' = snd m))"
    by (rule clean_conseq [OF clean_ContextOpen [OF assms Cons.prems(1) c(1) m(1)]])
       (use l m gcm.unseal_seal [OF u m(2)] in \<open>auto simp: gcm_fits_def\<close>)
  have z: "zip (map fst (m # ms)) (stream hpke c (m # ms)) = (fst m, ?ct) # zip (map fst ms) (stream hpke (c\<lparr>seq := seq c + 1\<rparr>) ms)"
    using c by (simp add: stream_Cons)
  show ?case
    unfolding z open_all.simps fst_conv snd_conv
    apply (rule clean_then2 [OF o])
    apply (simp only:)
    apply (rule clean_map2 [OF Cons.IH])
       apply (use Cons.prems c in \<open>auto simp: ctx_ok_next\<close>)
    done
qed

lemma xor_bytes_inj: "\<lbrakk>length b = length x; length x = length y; xor_bytes b x = xor_bytes b y\<rbrakk> \<Longrightarrow> x = y"
  by (metis order_refl xor_bytes_cancel_left)

lemma ComputeNonce_inj:
  assumes "length bn = 12" "i < 256 ^ 12" "j < 256 ^ 12" "ComputeNonce bn i = ComputeNonce bn j"
  shows "i = j"
proof -
  have "be_bytes 12 i = be_bytes 12 j"
    using xor_bytes_inj [of bn "be_bytes 12 i" "be_bytes 12 j"] assms(1,4) by (simp add: ComputeNonce_def)
  then show ?thesis
    by (metis assms(2,3) be_val_be_bytes)
qed

section \<open>Properties of streams\<close>

text \<open>C24: A receiver whose context has the key, base nonce and counter of the sender's opens every stream
  of messages the sender seals, in order, each with its additional data, and both end in
  the same context; every temporary object is released.  (The counter stays in range: the
  stream ends at or before \<open>INT_MAX\<close>.)\<close>

theorem hpke_stream_roundtrip:
  assumes "suite_ok a hpke" "ctx_ok c" "list_all message_ok ms" "seq c + int (length ms) \<le> INT_MAX"
  shows "clean (\<lambda>_. True) 0 h (seal_all hpke c ms)
    (\<lambda>r (c', cts). r = 0 \<and> length cts = length ms \<and>
      clean (\<lambda>_. True) 0 g (open_all hpke c (zip (map fst ms) cts))
        (\<lambda>r (c'', ps). r = 0 \<and> c'' = c' \<and> ps = map snd ms))"
  by (rule clean_conseq [OF clean_seal_all [OF assms]])
     (use clean_open_all [OF assms, of g] in \<open>auto simp: stream_def intro: clean_conseq\<close>)

definition demo_suite :: Hpke where
  "demo_suite = snd (wc_HpkeInit hpke_zeroed DHKEM_P256_HKDF_SHA256 HKDF_SHA256 HPKE_AES_256_GCM)"

lemma demo_suite_ok: "suite_ok 2 demo_suite"
proof -
  obtain hp where "wc_HpkeInit hpke_zeroed DHKEM_P256_HKDF_SHA256 HKDF_SHA256 2 = (0, hp)" "suite_ok (word_of_int 2) hp"
    by (rule HpkeInit_ok [of 2]) simp
  then show ?thesis by (simp add: demo_suite_def)
qed

lemma demo_context_ok: "ctx_ok context_zeroed"
  by (simp add: ctx_ok_def context_zeroed_def)

definition demo_messages :: "(cbuf \<times> byte list) list" where
  "demo_messages = [(Buf [7], [1, 2, 3]), (Null 0, [])]"

theorem hpke_stream_roundtrip_witness:
  "\<exists>c cts h'. run_state (seal_all demo_suite context_zeroed demo_messages) (env0 ()) = ((0, c, cts), h') \<and>
     length cts = length demo_messages \<and>
     (\<exists>h''. run_state (open_all demo_suite context_zeroed (zip (map fst demo_messages) cts)) (env0 ()) =
        ((0, c, map snd demo_messages), h''))"
proof -
  have ms: "list_all message_ok demo_messages" "seq context_zeroed + int (length demo_messages) \<le> INT_MAX"
    by (simp_all add: message_ok_def aad_ok_def demo_messages_def context_zeroed_def)
  from clean_env0 [OF hpke_stream_roundtrip [OF demo_suite_ok demo_context_ok ms, where h = "env0 ()" and g = "env0 ()"]]
  obtain r x h' where x: "run_state (seal_all demo_suite context_zeroed demo_messages) (env0 ()) = ((r, x), h')"
    "case x of (c', cts) \<Rightarrow> r = 0 \<and> length cts = length demo_messages \<and>
      clean (\<lambda>_. True) 0 (env0 ()) (open_all demo_suite context_zeroed (zip (map fst demo_messages) cts))
        (\<lambda>r (c'', ps). r = 0 \<and> c'' = c' \<and> ps = map snd demo_messages)"
    by blast
  obtain c cts where [simp]: "x = (c, cts)" by (cases x)
  from x(2) have o: "r = 0" "length cts = length demo_messages"
    "clean (\<lambda>_. True) 0 (env0 ()) (open_all demo_suite context_zeroed (zip (map fst demo_messages) cts))
        (\<lambda>r (c'', ps). r = 0 \<and> c'' = c \<and> ps = map snd demo_messages)" by simp_all
  from clean_env0 [OF o(3)] have "\<exists>h''. run_state (open_all demo_suite context_zeroed (zip (map fst demo_messages) cts)) (env0 ()) =
        ((0, c, map snd demo_messages), h'')" by (auto split: prod.splits)
  then show ?thesis using x(1) o(1,2) by auto
qed

section \<open>The life of a context\<close>

text \<open>What a successful call of the context interface has done.\<close>

datatype context_event = Sealed "byte list" "byte list" "byte list" | Opened "byte list" "byte list" "byte list"

text \<open>The message of an event is one under the key \<open>k\<close> and the nonce \<open>n\<close>.\<close>

fun under :: "byte list \<Rightarrow> byte list \<Rightarrow> context_event \<Rightarrow> bool" where
  "under k n (Sealed aad p ct) \<longleftrightarrow> ct = aes_gcm_seal k n aad p"
| "under k n (Opened aad p ct) \<longleftrightarrow> aes_gcm_open k n aad ct = Some p"

text \<open>A history of calls of sealing and opening on one context, in any order and from any state of the
  heap: the events of the calls that had a message to show for it, oldest first.  These are the successful
  ones, and a sealing call also counts when it fails but has written to its output.\<close>

inductive context_calls :: "Hpke \<Rightarrow> HpkeBaseContext \<Rightarrow> context_event list \<Rightarrow> HpkeBaseContext \<Rightarrow> bool" for hpke c where
  unused: "context_calls hpke c [] c"
| seals: "\<lbrakk>context_calls hpke c es c1; aad_ok aad; gcm_fits p; length p + 16 \<le> length out;
    run_state (wc_HpkeContextSealBase hpke c1 aad (Buf p) out) (h :: unit env) = ((r, c2, out'), h')\<rbrakk> \<Longrightarrow>
    context_calls hpke c (es @ (if r = 0 \<or> out' \<noteq> out then [Sealed (cbytes aad) p (take (length p + 16) out')] else [])) c2"
| opens: "\<lbrakk>context_calls hpke c es c1; aad_ok aad; gcm_fits ct; length ct = n + 16; n \<le> length out;
    run_state (wc_HpkeContextOpenBase hpke c1 aad ct n out) (h :: unit env) = ((r, c2, out'), h')\<rbrakk> \<Longrightarrow>
    context_calls hpke c (es @ (if r = 0 then [Opened (cbytes aad) (take n out') ct] else [])) c2"

abbreviation context_nonces :: "HpkeBaseContext \<Rightarrow> nat \<Rightarrow> byte list list" where
  "context_nonces c m \<equiv> map (ComputeNonce (base_nonce c)) [nat (seq c)..<nat (seq c) + m]"

lemma aes_call_run:
  "run_state (aes_call x y) h = (z, h') \<Longrightarrow> z = (MEMORY_E, x) \<or> z = y"
  by (auto simp: aes_call_def XMALLOC_def XFREE_def State_Monad.bind_def split: if_splits prod.splits)

lemma aes_call_env0: "fst (run_state (aes_call x y) (env0 w)) = y"
  by (simp add: aes_call_def XMALLOC_def XFREE_def State_Monad.bind_def env0_def)

lemma seal_granted:
  assumes "suite_ok a hpke" "ctx_ok c" "seq c < INT_MAX" "aad_ok aad" "gcm_fits p" "length p + 16 \<le> length out"
  shows "\<exists>out' h'. run_state (wc_HpkeContextSealBase hpke c aad (Buf p) out) (env0 w) = ((0, c\<lparr>seq := seq c + 1\<rparr>, out'), h')"
  unfolding ContextSeal_eq [OF assms] by (metis aes_call_env0 prod.collapse)

lemma seal_call:
  assumes "suite_ok a hpke" "ctx_ok c" "aad_ok aad" "gcm_fits p" "length p + 16 \<le> length out"
    "run_state (wc_HpkeContextSealBase hpke c aad (Buf p) out) h = ((r, c', out'), h')"
  shows "if r = 0 then seq c < INT_MAX \<and> c' = c\<lparr>seq := seq c + 1\<rparr> \<and>
      take (length p + 16) out' = aes_gcm_seal (take (Nk hpke) (ctx_key c)) (ctx_nonce c) (cbytes aad) p else c' = c \<and> out' = out"
proof (cases "seq c = INT_MAX")
  case True
  then show ?thesis using assms(3,6) by (auto simp: wc_HpkeContextSealBase_def aad_ok_def rc_defs)
next
  case False
  then have s: "seq c < INT_MAX" using assms(2) by (simp add: ctx_ok_def)
  have l: "length (aes_gcm_seal (take (Nk hpke) (ctx_key c)) (ctx_nonce c) (cbytes aad) p) = length p + 16"
    using length_aes_gcm_seal [OF ctx_usable [OF assms(1-3)] assms(4)] .
  show ?thesis
    using aes_call_run [OF assms(6) [unfolded ContextSeal_eq [OF assms(1,2) s assms(3-5)]]] s l
    by (auto simp: blit_def rc_defs)
qed

lemma open_call:
  assumes "suite_ok a hpke" "ctx_ok c" "aad_ok aad" "gcm_fits ct" "length ct = n + 16" "n \<le> length out"
    "run_state (wc_HpkeContextOpenBase hpke c aad ct n out) h = ((r, c', out'), h')"
  shows "if r = 0 then seq c < INT_MAX \<and> c' = c\<lparr>seq := seq c + 1\<rparr> \<and>
      aes_gcm_open (take (Nk hpke) (ctx_key c)) (ctx_nonce c) (cbytes aad) ct = Some (take n out') else c' = c"
proof (cases "seq c = INT_MAX")
  case True
  then show ?thesis using assms(3,7) by (auto simp: wc_HpkeContextOpenBase_def aad_ok_def rc_defs)
next
  case False
  then have s: "seq c < INT_MAX" using assms(2) by (simp add: ctx_ok_def)
  have "length q = n" if "aes_gcm_open (take (Nk hpke) (ctx_key c)) (ctx_nonce c) (cbytes aad) ct = Some q" for q
    using that aes_gcm_open_eq [OF ctx_usable [OF assms(1-3)], of ct] assms(4,5) by (auto simp: gcm_fits_def split: if_splits)
  then show ?thesis
    using aes_call_run [OF assms(7) [unfolded ContextOpen_eq [OF assms(1,2) s assms(3-6)]]] s assms(6)
    by (auto simp: blit_def rc_defs split: option.splits)
qed

lemma context_history:
  assumes "suite_ok a hpke" "ctx_ok c" "context_calls hpke c es c'"
  shows "ctx_ok c' \<and> c' = c\<lparr>seq := seq c + int (length es)\<rparr> \<and>
    list_all2 (under (take (Nk hpke) (ctx_key c))) (context_nonces c (length es)) es"
  using assms(3)
proof (induction rule: context_calls.induct)
  case unused
  then show ?case using assms(2) by simp
next
  case (seals es c1 aad p out h r c2 out' h')
  have n: "0 \<le> seq c" "nat (seq c + int (length es)) = nat (seq c) + length es" using assms(2) by (auto simp: ctx_ok_def)
  show ?case
    using seal_call [OF assms(1) _ seals(2-5)] seals.IH n ctx_ok_next [of c1]
    by (auto simp: list_all2_append split: if_splits)
next
  case (opens es c1 aad ct n out h r c2 out' h')
  have n: "0 \<le> seq c" "nat (seq c + int (length es)) = nat (seq c) + length es" using assms(2) by (auto simp: ctx_ok_def)
  show ?case
    using open_call [OF assms(1) _ opens(2-6)] opens.IH n ctx_ok_next [of c1]
    by (auto simp: list_all2_append split: if_splits)
qed

lemma context_nonces_distinct:
  assumes "ctx_ok c" "seq c + int m \<le> INT_MAX"
  shows "distinct (context_nonces c m)"
proof -
  have "i = j" if "i < nat (seq c) + m" "j < nat (seq c) + m" "ComputeNonce (base_nonce c) i = ComputeNonce (base_nonce c) j" for i j
  proof -
    have "nat (seq c) + m < 256 ^ 12" using assms by (simp add: ctx_ok_def) linarith
    then show ?thesis using ComputeNonce_inj [OF _ _ _ that(3)] that(1,2) assms(1) by (simp add: ctx_ok_def del: power_numeral)
  qed
  then show ?thesis by (auto simp: distinct_map inj_on_def)
qed

text \<open>C25: Over the life of an HPKE context no nonce protects two messages.  In every history of sealing and
  opening calls on one context, in any order and with failing calls in between, the i-th
  message that was sealed or opened is one under the i-th nonce of RFC 9180 from the
  counter on, and these nonces are distinct; the counter counts the messages and never passes
  \<open>INT_MAX\<close>.  There, sealing and opening are refused with \<open>SEQ_OVERFLOW_E\<close>, nothing allocated and
  nothing written.  (A call that fails does not advance the counter: the next message
  is then the first under its nonce.)\<close>

theorem hpke_nonces_distinct:
  assumes "suite_ok a hpke" "ctx_ok c" "context_calls hpke c es c'"
  shows "list_all2 (under (take (Nk hpke) (ctx_key c))) (context_nonces c (length es)) es \<and> distinct (context_nonces c (length es)) \<and>
    seq c' = seq c + int (length es) \<and> seq c' \<le> INT_MAX \<and>
    (seq c' = INT_MAX \<longrightarrow> aad_ok aad \<longrightarrow>
      run_state (wc_HpkeContextSealBase hpke c' aad (Buf p) out) h = ((SEQ_OVERFLOW_E, c', out), h) \<and>
      run_state (wc_HpkeContextOpenBase hpke c' aad ct n out) h = ((SEQ_OVERFLOW_E, c', out), h))"
proof -
  note h = context_history [OF assms]
  have s: "seq c' = seq c + int (length es)" "seq c' \<le> INT_MAX" using h by (auto simp: ctx_ok_def)
  then show ?thesis
    using h context_nonces_distinct [OF assms(2), of "length es"]
    by (simp add: wc_HpkeContextSealBase_def wc_HpkeContextOpenBase_def aad_ok_def)
qed

theorem hpke_nonces_distinct_witness:
  "\<exists>es c'. context_calls demo_suite context_zeroed es c' \<and> length es = 2 \<and> seq c' = 2 \<and>
     list_all2 (under (zeros 32)) (context_nonces context_zeroed 2) es \<and> distinct (context_nonces context_zeroed 2)"
proof -
  let ?c1 = "context_zeroed\<lparr>seq := 1\<rparr>"
  have c: "ctx_ok context_zeroed" "ctx_ok ?c1" "seq context_zeroed = 0" by (simp_all add: ctx_ok_def context_zeroed_def)
  have a: "aad_ok (Null 0)" "gcm_fits [7]" "length [7 :: byte] + 16 \<le> length (zeros 17)" by (simp_all add: aad_ok_def gcm_fits_def)
  obtain o1 h1 where 1: "run_state (wc_HpkeContextSealBase demo_suite context_zeroed (Null 0) (Buf [7]) (zeros 17)) (env0 ()) = ((0, ?c1, o1), h1)"
    using seal_granted [OF demo_suite_ok c(1) _ a, where w = "()"] c(3) by auto
  obtain o2 h2 where 2: "run_state (wc_HpkeContextSealBase demo_suite ?c1 (Null 0) (Buf [7]) (zeros 17)) (env0 ()) = ((0, ?c1\<lparr>seq := 2\<rparr>, o2), h2)"
    using seal_granted [OF demo_suite_ok c(2) _ a, where w = "()"] by auto
  have e: "context_calls demo_suite context_zeroed [Sealed [] [7] (take 17 o1), Sealed [] [7] (take 17 o2)] (?c1\<lparr>seq := 2\<rparr>)"
    using context_calls.seals [OF context_calls.seals [OF context_calls.unused a 1] a 2] by simp
  have k: "take (Nk demo_suite) (ctx_key context_zeroed) = zeros 32" using demo_suite_ok by (simp add: suite_ok_def context_zeroed_def)
  show ?thesis
    using e hpke_nonces_distinct [OF demo_suite_ok c(1) e, of "Null 0"]
    by (intro exI [of _ "[Sealed [] [7] (take 17 o1), Sealed [] [7] (take 17 o2)]"] exI [of _ "?c1\<lparr>seq := 2\<rparr>"])
       (simp add: k c(3) numeral_2_eq_2)
qed

end
