(* ===== verification/Kem.thy ===== *)
theory Kem
  imports HpkeCorrect
begin

text \<open>
  Encapsulation and decapsulation in \<open>hpke.c\<close>, with the device that computes the Diffie-Hellman
  value as an interface: \<open>kem_device\<close> says what the code relies on, and one-shot sealing and
  opening are proved once, inside it.
\<close>

section \<open>Commands that may change the world\<close>

text \<open>\<open>leaves d h m P\<close>: the command allocates \<open>d\<close> blocks more than it releases, and its result and
  the world after it satisfy \<open>P\<close>.\<close>

definition leaves :: "('a \<Rightarrow> int) \<Rightarrow> 'w env \<Rightarrow> ('w, 'a) cmd \<Rightarrow> ('a \<Rightarrow> 'w \<Rightarrow> bool) \<Rightarrow> bool" where
  "leaves d h m P \<longleftrightarrow> wp m (\<lambda>x h'. hframe (\<lambda>_. True) (d x) h h' \<and> P x (world h')) h"

lemma leaves_ret: "d x = 0 \<Longrightarrow> P x (world h) \<Longrightarrow> leaves d h (ret x) P"
  by (simp add: leaves_def)

lemma leaves_bind:
  assumes m: "leaves e h m P"
    and f: "\<And>x h'. P x (world h') \<Longrightarrow> alloc_ok h' = alloc_ok h \<Longrightarrow> leaves (\<lambda>y. d y - e x) h' (f x) Q"
  shows "leaves d h (State_Monad.bind m f) Q"
  unfolding leaves_def wp_bind
proof (rule wp_conseq [OF m [unfolded leaves_def]])
  fix x h' assume x: "hframe (\<lambda>_. True) (e x) h h' \<and> P x (world h')"
  then have "leaves (\<lambda>y. d y - e x) h' (f x) Q" using f hframe_alloc_ok by blast
  then show "wp (f x) (\<lambda>y h''. hframe (\<lambda>_. True) (d y) h h'' \<and> Q y (world h'')) h'"
    unfolding leaves_def by (rule wp_conseq) (use x in \<open>auto dest: hframe_trans [of _ "e x" h h']\<close>)
qed

lemma leaves_conseq: "leaves d h m P \<Longrightarrow> (\<And>x w. P x w \<Longrightarrow> Q x w \<and> d x = e x) \<Longrightarrow> leaves e h m Q"
  unfolding leaves_def by (erule wp_conseq) auto

lemma leaves_malloc:
  "leaves (\<lambda>ok. if ok then 1 else 0) h XMALLOC (\<lambda>ok w. w = world h \<and> (ok \<or> \<not> alloc_ok h))"
  by (auto simp: leaves_def hframe_def alloc_ok_def)

lemma leaves_free: "leaves (\<lambda>_. - 1) h (XFREE b) (\<lambda>_ w. w = world h)"
  by (auto simp: leaves_def hframe_def)

lemma leaves_clean:
  "clean Z 0 h m Q \<Longrightarrow> leaves (\<lambda>_. 0) h m (\<lambda>(r, x) w. w = world h \<and> (Q r x \<or> r = MEMORY_E \<and> \<not> alloc_ok h))"
  unfolding leaves_def clean_def by (erule wp_conseq) (auto simp: frame_hframe intro: hframe_mono)

lemma leaves_moves:
  "moves d h m P \<Longrightarrow> leaves d h m (\<lambda>x w. P x \<and> (\<exists>t. w = (world h)\<lparr>os_time := t\<rparr>))"
  unfolding moves_def leaves_def moved_def by (erule wp_conseq) auto

lemma leaves_run:
  assumes "leaves d h m P" "run_state m h = (x, h')"
  shows "P x (world h')" "hp_live h' = hp_live h + d x"
  using assms by (auto simp: leaves_def wp_def hframe_def)

section \<open>Key objects\<close>

lemma leaves_key_new:
  "leaves (\<lambda>k. if k = None then 0 else 1) h (wc_ecc_key_new_ex devId :: ('w, 'x ecc_key option) cmd)
     (\<lambda>k w. w = world h \<and> (case k of None \<Rightarrow> \<not> alloc_ok h | Some k \<Rightarrow> key_fresh k \<and> key_devId k = devId))"
proof -
  obtain k :: "'x ecc_key" where k: "wc_ecc_init_ex devId = (0, k)" "key_fresh k" "key_devId k = devId" using init_ex_ok by blast
  show ?thesis
    unfolding wc_ecc_key_new_ex_def
    by (rule leaves_bind [OF leaves_malloc]) (use k in \<open>auto intro!: leaves_ret\<close>)
qed

lemma leaves_key_free: "leaves (\<lambda>_. if k = None then 0 else - 1) h (wc_ecc_key_free k) (\<lambda>_ w. w = world h)"
  by (cases k) (auto simp: wc_ecc_key_free_def Let_def intro: leaves_ret leaves_conseq [OF leaves_free])

lemma import_x963_bytes:
  assumes "key_fresh key" "length pt = 65" "hd pt = 4"
  obtains q where "wc_ecc_import_x963_ex (Buf pt) key ECC_SECP256R1 = (0, q)" "p256_public q" "x963 q = pt"
proof -
  define xs ys where "xs = take 32 (tl pt)" and "ys = drop 32 (tl pt)"
  have xy: "length xs = 32" "length ys = 32" "pt = 4 # xs @ ys" using assms(2,3) by (cases pt; simp add: xs_def ys_def)+
  obtain k where k: "wc_ecc_import_x963_ex (Buf (4 # xs @ ys)) key ECC_SECP256R1 = (0, k)"
      "key_good k" "key_type k = ECC_PUBLICKEY" "key_idx k = 2" "key_dp k = Some set_secp256r1"
      "sp_val (pub_x k) = be_val xs" "sp_val (pub_y k) = be_val ys"
    using import_x963_p256 [of key xs ys] assms(1) xy by (auto simp: key_fresh_def key_good_shape)
  have "p256_public k" using k xy be_val_less [of xs] be_val_less [of ys] by (simp add: p256_public_def p256_key_def)
  moreover have "x963 k = pt" using k xy by (simp add: x963_def be_val_inj)
  ultimately show thesis using that k(1) xy(3) by simp
qed

lemma leaves_FreeKey:
  "suite_ok a hpke \<Longrightarrow> leaves (\<lambda>_. if k = None then 0 else - 1) h (wc_HpkeFreeKey hpke (hpke_kem hpke) k) (\<lambda>_ w. w = world h)"
  by (simp add: wc_HpkeFreeKey_def suite_ok_def leaves_key_free)

lemma leaves_Deserialize:
  assumes hp: "suite_ok a hpke" and pt: "length pt = 65"
  shows "leaves (\<lambda>(r, k). if r = 0 then 1 else 0) h (wc_HpkeDeserializePublicKey hpke (None :: 'x ecc_key option) (Buf pt))
    (\<lambda>(r, k) w. w = world h \<and> (k = None \<longleftrightarrow> r \<noteq> 0) \<and>
      (if hd pt = 4 then (\<exists>q. r = 0 \<and> k = Some q \<and> p256_public q \<and> x963 q = pt) \<or> r = MEMORY_E \<and> \<not> alloc_ok h
       else r = ASN_PARSE_E \<or> r = NOT_COMPILED_IN \<or> r = MEMORY_E \<and> \<not> alloc_ok h))"
proof -
  let ?P = "\<lambda>(r, k) w. w = world h \<and> (k = None \<longrightarrow> r = 0 \<and> \<not> alloc_ok h) \<and>
      (\<forall>q. k = Some q \<longrightarrow> (if hd pt = 4 then r = 0 \<and> p256_public q \<and> x963 q = pt else r = ASN_PARSE_E \<or> r = NOT_COMPILED_IN))"
  have s: "Npk hpke = 65" "curveId hpke = ECC_SECP256R1" using hp by (simp_all add: suite_ok_def)
  have i: "if hd pt = 4 then r = 0 \<and> p256_public q \<and> x963 q = pt else r = ASN_PARSE_E \<or> r = NOT_COMPILED_IN"
    if "key_fresh k" "wc_ecc_import_x963_ex (Buf pt) k 7 = (r, q)" for k q :: "'x ecc_key" and r
  proof (cases "hd pt = 4")
    case True
    then show ?thesis using that(2) by (auto intro: import_x963_bytes [OF that(1) pt])
  next
    case False
    then show ?thesis
      using that(2) pt import_x963_other [of "hd pt" "tl pt" k] by (cases pt) (auto split: if_splits)
  qed
  have 1: "leaves (\<lambda>(r, k). if k = None then 0 else 1) h
     (do { nk \<leftarrow> wc_ecc_key_new;
        (case nk of None \<Rightarrow> ret (0, None)
         | Some (k :: 'x ecc_key) \<Rightarrow> (case wc_ecc_import_x963_ex (Buf pt) k 7 of (r, k') \<Rightarrow> ret (r, Some k'))) }) ?P"
    unfolding wc_ecc_key_new_def
    by (rule leaves_bind [OF leaves_key_new]) (auto intro!: leaves_ret dest: i split: option.splits prod.splits if_splits)
  have e: "wc_HpkeDeserializePublicKey hpke None (Buf pt) = State_Monad.bind (do { nk \<leftarrow> wc_ecc_key_new;
        (case nk of None \<Rightarrow> ret (0, None)
         | Some (k :: 'x ecc_key) \<Rightarrow> (case wc_ecc_import_x963_ex (Buf pt) k 7 of (r, k') \<Rightarrow> ret (r, Some k'))) })
      (\<lambda>(r, k). Hpke_key_result hpke r k)"
    using s pt hp by (simp add: wc_HpkeDeserializePublicKey_def Let_def)
  show ?thesis
    unfolding e
    apply (rule leaves_bind [OF 1])
    apply (auto simp: Hpke_key_result_def Let_def intro!: leaves_ret leaves_bind [OF leaves_FreeKey [OF hp]] split: if_splits)
     apply blast+
    done
qed


lemma clean_Serialize:
  assumes "suite_ok a hpke" "p256_public key" "65 \<le> length out"
  shows "clean (\<lambda>_. True) 0 h (wc_HpkeSerializePublicKey hpke key out 65)
    (succeeds (\<lambda>(o', n). o' = blit out 0 (x963 key) \<and> n = 65))"
proof -
  have e: "ecc_kem hpke" using assms(1) by simp
  show ?thesis
    unfolding wc_HpkeSerializePublicKey_def if_P [OF e]
    by (rule clean_bind [OF clean_export_x963 [OF assms(2,3)]]) (auto intro: clean_ret clean_fail)
qed

lemma leaves_kem_buffers:
  assumes "\<And>g. world g = world h \<Longrightarrow> alloc_ok g = alloc_ok h \<Longrightarrow>
      leaves (\<lambda>_. 0) g (body (zeros (Ndh hpke)) (zeros (Npk hpke * 2))) (\<lambda>(r, d, k, ss) w. Q (r, ss) w)"
    and "\<not> alloc_ok h \<Longrightarrow> Q (MEMORY_E, ss0) (world h)"
  shows "leaves (\<lambda>_. 0) h (with_kem_buffers hpke ss0 body) Q"
proof -
  have b: "leaves (\<lambda>_. - 2) g (do { (r, dh, kemContext, ss) \<leftarrow> body (zeros (Ndh hpke)) (zeros (Npk hpke * 2));
       XFREE (Freed_bytes (ForceZero 0 dh (Ndh hpke)));
       XFREE (Freed_bytes (ForceZero 0 kemContext (Npk hpke * 2)));
       ret (r, ss) }) Q" if "world g = world h" "alloc_ok g = alloc_ok h" for g
    by (rule leaves_bind [OF assms(1) [OF that]])
       (auto intro!: leaves_bind [OF leaves_free] leaves_ret)
  have f: "leaves (\<lambda>_. if c then - 1 else 0) g (if c then XFREE b else ret ()) (\<lambda>_ w. w = world g)" for c b and g :: "'b env"
    by (auto intro: leaves_ret leaves_conseq [OF leaves_free])
  show ?thesis
    unfolding with_kem_buffers_def
    apply (rule leaves_bind [OF leaves_malloc])
    apply (rule leaves_bind [OF leaves_malloc])
    apply (rule if_split [THEN iffD2], intro conjI impI)
     apply (rule leaves_bind [OF f])
     apply (rule leaves_bind [OF f])
     apply (rule leaves_ret)
      apply (auto intro: assms(2) b)
    done
qed

locale kem_device =
  fixes call :: "('cb, 'x, 'z) dispatch" and priv :: "'x ecc_key" and pt dh :: "byte list"
    and W V :: "('cb, 'z) wc_world_scheme \<Rightarrow> bool" and F :: "bool \<Rightarrow> int \<Rightarrow> ('cb, 'z) wc_world_scheme \<Rightarrow> bool"
  assumes time: "W (w\<lparr>os_time := t\<rparr>) = W w" "V (w\<lparr>os_time := t\<rparr>) = V w" "F ok r (w\<lparr>os_time := t\<rparr>) = F ok r w"
    and dh: "length dh = 32"
    and device: "W w \<Longrightarrow> key_devId priv \<noteq> INVALID_DEVID"
    and agreed: "\<lbrakk>W (world h); p256_public q; x963 q = pt\<rbrakk> \<Longrightarrow>
      leaves (\<lambda>_. 0) h (wc_ecc_shared_secret call (priv\<lparr>key_rng := g\<rparr>) q (zeros 32) 32)
        (\<lambda>(r, out, n) w. if r = 0 then V w \<and> out = dh \<and> n = 32 else F (alloc_ok h) r w)"
begin

text \<open>The outcomes of a call that starts in a world of \<open>W\<close>: success, in a world of \<open>V\<close>, or a failure
  of the device, of the random generator, or of an allocation, whose result satisfies \<open>D\<close>, or one
  after the agreement that \<open>E\<close> describes.\<close>

definition outcome ::
  "bool \<Rightarrow> ('a \<Rightarrow> bool) \<Rightarrow> (int \<Rightarrow> 'a \<Rightarrow> bool) \<Rightarrow> ('a \<Rightarrow> bool) \<Rightarrow> int \<times> 'a \<Rightarrow> ('cb, 'z) wc_world_scheme \<Rightarrow> bool" where
  "outcome ok D E P = (\<lambda>(r, x) w. if r = 0 then V w \<and> P x
     else D x \<and> (F ok r w \<or> r = RNG_FAILURE_E \<and> W w \<or> r = MEMORY_E \<and> \<not> ok \<and> (W w \<or> V w)) \<or> E r x \<and> V w)"

lemma agree_step:
  assumes "W (world h)" "p256_public q" "x963 q = pt"
  shows "leaves (\<lambda>_. 0) h (do {
      rng \<leftarrow> wc_rng_new (Null 0);
      if rng = None then ret (RNG_FAILURE_E, zeros 32, 32, priv)
      else do {
        let prevRng = key_rng priv;
        let (_, eph) = wc_ecc_set_rng priv rng;
        (r, d, n) \<leftarrow> wc_ecc_shared_secret call eph q (zeros 32) 32;
        let (_, eph) = wc_ecc_set_rng eph prevRng;
        wc_rng_free rng;
        ret (r, d, n, eph)
      } }) (outcome (alloc_ok h) (\<lambda>_. True) (\<lambda>_ _. False) (\<lambda>(d, n, k). d = dh \<and> n = 32 \<and> k = priv))"
  unfolding wc_ecc_set_rng_def Let_def prod.case
  apply (rule leaves_bind [OF leaves_moves [OF moves_wc_rng_new]])
   apply simp
  apply (rule if_split [THEN iffD2], intro conjI impI)
   apply (rule leaves_ret)
    apply (use assms in \<open>auto simp: outcome_def time RNG_FAILURE_E_def\<close>) [2]
  apply (rule leaves_bind [OF agreed])
     apply (use assms in \<open>auto simp: time\<close>) [3]
  apply (clarsimp split del: if_split)
  apply (rule leaves_bind [OF leaves_moves [OF moves_wc_rng_free]])
  apply (rule leaves_ret)
   apply (auto simp: outcome_def time split: if_splits)
  done

end

section \<open>Encapsulation and decapsulation\<close>

abbreviation serialize_at :: "Hpke \<Rightarrow> 'x ecc_key \<Rightarrow> byte list \<Rightarrow> ('w, int \<times> byte list) cmd" where
  "serialize_at hpke key b \<equiv> State_Monad.bind (wc_HpkeSerializePublicKey hpke key b 65) (\<lambda>(r, b, _). ret (r, b))"

lemma clean_serialize_at:
  assumes "suite_ok a hpke" "p256_public key" "length kc = 130" "take 65 kc = pre"
  shows "clean (\<lambda>_. True) 0 h (into kc 65 (serialize_at hpke key)) (succeeds (\<lambda>o'. o' = pre @ x963 key))"
  by (rule clean_into, rule clean_map2 [where P = "\<lambda>o' n. o' = x963 key \<and> n = 65"], rule clean_conseq, rule clean_Serialize)
     (use assms in auto)

lemma clean_expand_tail:
  assumes "suite_ok a hpke" "length dh = 32" "length kc = 130" "length ss = 32"
  shows "clean (\<lambda>_. True) 0 h
    (do { (r, ss) \<leftarrow> wc_HpkeExtractAndExpand hpke (take 32 dh) (take (65 * 2) kc) ss; ret (r, dh, kc, ss) })
    (succeeds (\<lambda>(d, k, s). s = ExtractAndExpand dh kc))"
  by (rule clean_map, rule clean_conseq, rule clean_ExtractAndExpand [OF assms(1)]) (use assms in auto)

lemma clean_encap_tail:
  fixes h :: "'w env"
  assumes hp: "suite_ok a hpke" and k: "p256_public e" "p256_public q" and l: "length dh = 32" "length ss = 32"
  shows "clean (\<lambda>_. True) 0 h (do {
       (r, kemContext, ephemeralPubKeySz) \<leftarrow> wc_HpkeSerializePublicKey hpke e (zeros (65 * 2)) 65;
       (r, kemContext) \<leftarrow>
         (if r = 0 then into kemContext (unat ephemeralPubKeySz) (serialize_at hpke q) else ret (r, kemContext));
       (r, ss) \<leftarrow>
         (if r = 0 then wc_HpkeExtractAndExpand hpke (take 32 dh) (take (65 * 2) kemContext) ss else ret (r, ss));
       ret (r, dh, kemContext, ss) })
     (succeeds (\<lambda>(d, k, s). s = ExtractAndExpand dh (x963 e @ x963 q)))"
proof -
  have 1: "clean (\<lambda>_. True) 0 g (wc_HpkeSerializePublicKey hpke e (zeros (65 * 2)) 65)
      (succeeds (\<lambda>(o', n). o' = x963 e @ zeros 65 \<and> n = 65))" for g :: "'w env"
    by (rule clean_conseq [OF clean_Serialize [OF hp k(1)]]) (auto simp: blit_def zeros_def)
  have t: "clean (\<lambda>_. True) 0 g (State_Monad.bind (wc_HpkeExtractAndExpand hpke (take 32 dh) (x963 e @ x963 q) ss)
      (\<lambda>(r, ss). ret (r, dh, x963 e @ x963 q, ss))) (succeeds (\<lambda>(d, k, s). s = ExtractAndExpand dh (x963 e @ x963 q)))" for g :: "'w env"
    using clean_expand_tail [OF hp l(1) _ l(2), of "x963 e @ x963 q" g] by simp
  show ?thesis
    apply (rule clean_chain [OF 1])
     apply (auto intro: clean_fail) [1]
    apply clarsimp
    apply (rule clean_chain [OF clean_serialize_at [OF hp k(2)]])
       apply simp
      apply (rule refl)
     apply (auto intro: clean_fail) [1]
    apply simp
    apply (rule t)
    done
qed

lemma copy_device_key:
  assumes "suite_ok a hpke" "key_devId key \<noteq> INVALID_DEVID"
  shows "wc_HpkeCopyPrivateKey hpke key = ret (False, None)"
  using assms by (simp add: wc_HpkeCopyPrivateKey_def rc_defs split: option.splits)

lemma clean_decap_tail:
  fixes h :: "'w env"
  assumes hp: "suite_ok a hpke" and k: "p256_public e" and l: "length dh = 32" "length ss = 32" "length pt = 65"
  shows "clean (\<lambda>_. True) 0 h (do {
       (r, kemContext) \<leftarrow> into (blit (zeros (65 * 2)) 0 (take 65 (cbytes (Buf pt)))) 65 (serialize_at hpke e);
       (r, ss) \<leftarrow>
         (if r = 0 then wc_HpkeExtractAndExpand hpke (take 32 dh) (take (65 * 2) kemContext) ss else ret (r, ss));
       ret (r, dh, kemContext, ss) })
     (succeeds (\<lambda>(d, k, s). s = ExtractAndExpand dh (pt @ x963 e)))"
proof -
  have t: "clean (\<lambda>_. True) 0 g (State_Monad.bind (wc_HpkeExtractAndExpand hpke (take 32 dh) (pt @ x963 e) ss)
      (\<lambda>(r, ss). ret (r, dh, pt @ x963 e, ss))) (succeeds (\<lambda>(d, k, s). s = ExtractAndExpand dh (pt @ x963 e)))" for g :: "'w env"
    using clean_expand_tail [OF hp l(1) _ l(2), of "pt @ x963 e" g] l(3) by simp
  show ?thesis
    apply (rule clean_chain [OF clean_serialize_at [OF hp k, where pre = pt]])
       apply (use l in \<open>simp_all add: blit_def\<close>) [2]
     apply (auto intro: clean_fail) [1]
    apply (simp add: l(3))
    apply (rule t)
    done
qed

context kem_device
begin

lemma encap:
  assumes hp: "suite_ok a hpke" and w: "W (world h)" and k: "p256_public priv" "p256_public q" "x963 q = pt" and l: "length ss = 32"
  shows "leaves (\<lambda>_. 0) h (wc_HpkeEncap call hpke priv q ss)
    (outcome (alloc_ok h) (\<lambda>_. True) (\<lambda>_ _. False) (\<lambda>s. s = ExtractAndExpand dh (x963 priv @ pt)))"
proof -
  have s: "Ndh hpke = 32" "Npk hpke = 65" "ecc_kem hpke" using hp by (simp_all add: suite_ok_def ecc_kem_def)
  have w65: "(word_of_nat 65 :: word16) = 65" by simp
  show ?thesis
    unfolding wc_HpkeEncap_def s Let_def if_P [OF s(3)] w65
    apply (rule leaves_kem_buffers)
     apply (unfold s)
     apply (rule leaves_bind [OF agree_step [unfolded Let_def, OF _ k(2,3)]])
      apply (simp add: w)
     apply (clarsimp simp: outcome_def split del: if_split)
    subgoal for g r d n e h'
      apply (cases "r = 0")
       apply (simp only: refl if_True simp_thms)
       apply (rule leaves_conseq [OF leaves_clean [OF clean_encap_tail [OF hp k(1,2) dh l]]])
       apply (auto simp: k) [1]
      apply (auto intro!: leaves_ret)
      done
    apply (simp add: outcome_def w)
    done
qed

lemma decap_agree_step:
  assumes "suite_ok a hpke" "W (world h)" "p256_public q" "x963 q = pt"
  shows "leaves (\<lambda>_. 0) h (do {
       rng \<leftarrow> wc_rng_new (Null 0);
       if rng = None then ret (RNG_FAILURE_E, zeros 32, 32, priv)
       else do {
         (copied, privCopy) \<leftarrow> wc_HpkeCopyPrivateKey hpke priv;
         let eccPriv = (if copied then the privCopy else priv);
         let prevRng = (if copied then None else key_rng priv);
         let (_, eccPriv) = wc_ecc_set_rng eccPriv rng;
         (r, dh, dh_len) \<leftarrow> wc_ecc_shared_secret call eccPriv q (zeros 32) 32;
         rcv \<leftarrow>
           (if privCopy \<noteq> None then do { wc_HpkeFreeKey hpke (hpke_kem hpke) privCopy; ret priv }
            else ret (snd (wc_ecc_set_rng eccPriv prevRng)));
         wc_rng_free rng;
         ret (r, dh, dh_len, rcv)
       } }) (outcome (alloc_ok h) (\<lambda>_. True) (\<lambda>_ _. False) (\<lambda>(d, n, k). d = dh \<and> n = 32 \<and> k = priv))"
  using agree_step [OF assms(2-)]
  by (simp only: copy_device_key [OF assms(1) device [OF assms(2)]] State_Monad.bind_left_identity prod.case if_False if_True Let_def
        wc_ecc_set_rng_def snd_conv simp_thms)

lemma decap:
  assumes hp: "suite_ok a hpke" and w: "W (world h)" and k: "p256_public priv" and l: "length ss = 32" and pt: "length pt = 65" "hd pt = 4"
  shows "leaves (\<lambda>_. 0) h (wc_HpkeDecap call hpke priv (Buf pt) ss)
    (outcome (alloc_ok h) (\<lambda>_. True) (\<lambda>_ _. False) (\<lambda>s. s = ExtractAndExpand dh (pt @ x963 priv)))"
proof -
  have s: "Ndh hpke = 32" "Npk hpke = 65" "ecc_kem hpke" using hp by (simp_all add: suite_ok_def ecc_kem_def)
  have w65: "(word_of_nat 65 :: word16) = 65" by simp
  show ?thesis
    unfolding wc_HpkeDecap_def s Let_def if_P [OF s(3)] w65
    apply (rule leaves_kem_buffers)
     apply (unfold s)
     apply (rule leaves_bind [OF leaves_Deserialize [OF hp pt(1)]])
     apply (clarsimp simp: pt simp del: State_Monad.bind_assoc split del: if_split)
    subgoal for g r q h'
      apply (cases "r = 0")
       apply (clarsimp simp del: State_Monad.bind_assoc split del: if_split)
      subgoal for q'
        apply (unfold option.sel)
        apply (rule leaves_bind [OF decap_agree_step [unfolded Let_def, OF hp, of _ q']])
           apply (simp_all add: w) [3]
        apply (clarsimp simp: outcome_def simp del: State_Monad.bind_assoc split del: if_split)
        apply (rule leaves_bind [OF leaves_FreeKey [OF hp]])
        subgoal for r d n e h1 u h2
          apply (cases "r = 0")
           apply (simp only: refl if_True simp_thms)
           apply (rule leaves_conseq [OF leaves_clean [OF clean_decap_tail [OF hp k dh l]]])
            apply (use pt in auto) [2]
          apply (auto intro!: leaves_ret)
          done
        done
      apply (auto simp: outcome_def w intro!: leaves_ret)
      done
    apply (simp add: outcome_def w)
    done
qed

end

section \<open>One-shot sealing and opening\<close>

text \<open>\<open>SealBase\<close> and \<open>OpenBase\<close> of RFC 9180, from the Diffie-Hellman value on.\<close>

definition SealBase :: "byte \<Rightarrow> nat \<Rightarrow> byte list \<Rightarrow> byte list \<Rightarrow> byte list \<Rightarrow> byte list \<Rightarrow> byte list \<Rightarrow> byte list \<Rightarrow> byte list" where
  "SealBase a nk dh enc pkR info aad p =
     (case KeyScheduleBase a nk (ExtractAndExpand dh (enc @ pkR)) info of
        (k, bn, _) \<Rightarrow> aes_gcm_seal k (ComputeNonce bn 0) aad p)"

definition OpenBase ::
  "byte \<Rightarrow> nat \<Rightarrow> byte list \<Rightarrow> byte list \<Rightarrow> byte list \<Rightarrow> byte list \<Rightarrow> byte list \<Rightarrow> byte list \<Rightarrow> byte list option" where
  "OpenBase a nk dh enc pkR info aad c =
     (case KeyScheduleBase a nk (ExtractAndExpand dh (enc @ pkR)) info of
        (k, bn, _) \<Rightarrow> aes_gcm_open k (ComputeNonce bn 0) aad c)"

lemma clean_KeySchedule_long:
  assumes "suite_ok a hpke" "csize info > 486" "length ss = 32"
  shows "clean (\<lambda>_. True) 0 h (wc_HpkeKeyScheduleBase hpke context_zeroed ss info) (\<lambda>r c. r = BUFFER_E)"
proof -
  have hp: "hpke_suite_id hpke = rfc_suite a" "kdfDigest hpke = WC_SHA256" "Nh hpke = 32"
    using assms(1) by (auto simp: suite_ok_def)
  have l: "length HPKE_VERSION_STR + length (rfc_suite a) + length INFO_HASH_LABEL_STR + csize info > MAX_HPKE_LABEL_SZ"
    using assms(2) by (simp add: label_strs)
  have num: "1 + 2 * 32 = (65 :: nat)" by simp
  note st = key_schedule_steps(1) [OF assms(1) _ _ assms(3), of "Null 0"]
  note tail = clean_free [where Z = "\<lambda>_. True", OF TrueI] clean_fail
  show ?thesis
    unfolding wc_HpkeKeyScheduleBase_def Let_def hp WC_MAX_DIGEST_SIZE_def num
    apply (rule clean_malloc2)
    apply (rule clean_chain [OF st])
       apply simp
      apply simp
     apply (simp add: tail)
    apply (simp add: into_def LabeledExtract_too_long [OF l])
    apply (auto intro!: tail(1) clean_ret)
    done
qed

lemma KeySchedule_outcome:
  assumes "suite_ok a hpke" "is_null info \<longrightarrow> csize info = 0" "length ss = 32"
  shows "clean (\<lambda>_. True) 0 h (wc_HpkeKeyScheduleBase hpke context_zeroed ss info)
    (\<lambda>r c. if csize info \<le> 486 then r = 0 \<and> c = context_of a (Nk hpke) ss (cbytes info) else r = BUFFER_E)"
  using clean_KeySchedule [OF assms(1,2) _ assms(3), of h] clean_KeySchedule_long [OF assms(1) _ assms(3), of info h]
  by (cases "csize info \<le> 486") auto

lemma context_of_ok:
  assumes "suite_ok a hpke"
  shows "ctx_ok (context_of a (Nk hpke) ss info)" "seq (context_of a (Nk hpke) ss info) = 0"
    "take (Nk hpke) (ctx_key (context_of a (Nk hpke) ss info)) = fst (KeyScheduleBase a (Nk hpke) ss info)"
    "base_nonce (context_of a (Nk hpke) ss info) = fst (snd (KeyScheduleBase a (Nk hpke) ss info))"
proof -
  have "Nk hpke = 16 \<or> Nk hpke = 32" using assms by (auto simp: suite_ok_def)
  then show "ctx_ok (context_of a (Nk hpke) ss info)" "seq (context_of a (Nk hpke) ss info) = 0"
    "take (Nk hpke) (ctx_key (context_of a (Nk hpke) ss info)) = fst (KeyScheduleBase a (Nk hpke) ss info)"
    "base_nonce (context_of a (Nk hpke) ss info) = fst (snd (KeyScheduleBase a (Nk hpke) ss info))"
    by (auto simp: context_of_def KeyScheduleBase_def ctx_ok_def Let_def)
qed

lemma length_ExtractAndExpand [simp]: "length (ExtractAndExpand dh kc) = 32"
  by (simp add: ExtractAndExpand_def)

lemma leaves_aes_call:
  "leaves (\<lambda>_. 0) h (aes_call x y) (\<lambda>z w. w = world h \<and> (z = y \<or> z = (MEMORY_E, x) \<and> \<not> alloc_ok h))"
  unfolding aes_call_def
  by (rule leaves_bind [OF leaves_malloc]) (auto intro!: leaves_bind [OF leaves_free] leaves_ret)

context kem_device
begin

abbreviation too_long :: "cbuf \<Rightarrow> int \<Rightarrow> 'a \<Rightarrow> bool" where
  "too_long info \<equiv> \<lambda>r x. r = BUFFER_E \<and> csize info > 486"

lemma shared_secret_setup:
  assumes hp: "suite_ok a hpke" and w: "W (world h)" and i: "is_null info \<longrightarrow> csize info = 0"
    and cap: "\<And>g. W (world g) \<Longrightarrow> alloc_ok g = alloc_ok h \<Longrightarrow>
      leaves (\<lambda>_. 0) g (cap (zeros 32)) (outcome (alloc_ok g) (\<lambda>_. True) (\<lambda>_ _. False) (\<lambda>s. s = ss))" and ss: "length ss = 32"
  shows "leaves (\<lambda>_. 0) h (with_shared_secret hpke context_zeroed info cap)
    (outcome (alloc_ok h) (\<lambda>_. True) (too_long info) (\<lambda>c. c = context_of a (Nk hpke) ss (cbytes info) \<and> csize info \<le> 486))"
proof -
  have s: "Nsecret hpke = 32" using hp by (simp add: suite_ok_def)
  show ?thesis
    unfolding with_shared_secret_def s
    apply (rule leaves_bind [OF leaves_malloc])
    apply (rule if_split [THEN iffD2], intro conjI impI)
     apply (rule leaves_ret)
      apply (use w in \<open>auto simp: outcome_def\<close>) [2]
    apply (rule leaves_bind [OF cap])
      apply (use w in auto) [2]
    apply (clarsimp simp: outcome_def simp del: State_Monad.bind_assoc split del: if_split)
    subgoal for ok g r s h'
      apply (cases "r = 0")
       apply (simp only: refl if_True simp_thms)
       apply (rule leaves_bind [OF leaves_clean [OF KeySchedule_outcome [OF hp i ss]]])
       apply (clarsimp simp del: State_Monad.bind_assoc split del: if_split)
       apply (rule leaves_bind [OF leaves_free])
       apply (rule leaves_ret)
        apply (auto simp: BUFFER_E_def split: if_splits) [2]
      apply simp
      apply (rule leaves_bind [OF leaves_free])
      apply (rule leaves_ret)
       apply auto
      done
    done
qed

text \<open>The common shape of \<open>wc_HpkeSealBase\<close> and \<open>wc_HpkeOpenBase\<close>: a context object, the set-up, one message.\<close>

lemma one_shot:
  assumes w: "W (world h)"
    and prep: "\<And>g. W (world g) \<Longrightarrow> alloc_ok g = alloc_ok h \<Longrightarrow> leaves (\<lambda>_. 0) g prep
      (outcome (alloc_ok g) (\<lambda>_. True) (too_long info) (\<lambda>c. c = c0 \<and> csize info \<le> 486))"
    and msg: "msg c0 = aes_call (c1, out) (r0, c2, y)" "if r0 = 0 then P y else E r0 y"
  shows "leaves (\<lambda>_. 0) h (do {
      ok \<leftarrow> XMALLOC;
      if \<not> ok then ret (MEMORY_E, out)
      else do {
        (r, context) \<leftarrow> prep;
        (r, context, x) \<leftarrow> (if r = 0 then msg context else ret (r, context, out));
        XFREE (Freed_obj ''HpkeBaseContext'' True);
        ret (r, x)
      } }) (outcome (alloc_ok h) (\<lambda>x. x = out) (\<lambda>r x. too_long info r x \<and> x = out \<or> E r x) (\<lambda>x. P x \<and> csize info \<le> 486))"
  apply (rule leaves_bind [OF leaves_malloc])
  apply (rule if_split [THEN iffD2], intro conjI impI)
   apply (rule leaves_ret)
    apply (use w in \<open>auto simp: outcome_def\<close>) [2]
  apply (rule leaves_bind [OF prep])
    apply (use w in auto) [2]
  apply (clarsimp simp: outcome_def simp del: State_Monad.bind_assoc split del: if_split)
  subgoal for ok g r s h'
    apply (cases "r = 0")
     apply (simp only: refl if_True simp_thms)
     apply (unfold msg(1))
     apply (rule leaves_bind [OF leaves_aes_call])
     apply (clarsimp simp del: State_Monad.bind_assoc split del: if_split)
     apply (rule leaves_bind [OF leaves_free])
     apply (rule leaves_ret)
      apply (use msg(2) in \<open>auto split: if_splits\<close>) [2]
    apply simp
    apply (rule leaves_bind [OF leaves_free])
    apply (rule leaves_ret)
     apply auto
    done
  done

lemma seal:
  assumes hp: "suite_ok a hpke" and w: "W (world h)" and k: "p256_public priv" "p256_public q" "x963 q = pt"
    and b: "is_null info \<longrightarrow> csize info = 0" "aad_ok aad" "gcm_fits p" "length p + 16 \<le> length out"
  shows "leaves (\<lambda>_. 0) h (wc_HpkeSealBase call hpke priv q info aad (Buf p) out)
    (outcome (alloc_ok h) (\<lambda>x. x = out) (\<lambda>r x. too_long info r x \<and> x = out)
      (\<lambda>x. x = blit out 0 (SealBase a (Nk hpke) dh (x963 priv) pt (cbytes info) (cbytes aad) p) \<and> csize info \<le> 486))"
proof -
  define ss where "ss = ExtractAndExpand dh (x963 priv @ pt)"
  let ?c = "context_of a (Nk hpke) ss (cbytes info)"
  note c = context_of_ok [OF hp]
  have g: "\<not> ((is_null info \<and> csize info \<noteq> 0) \<or> (is_null aad \<and> csize aad \<noteq> 0) \<or> is_null (Buf p))"
    using b by (auto simp: aad_ok_def)
  have prep: "leaves (\<lambda>_. 0) g (wc_HpkeSetupBaseSender call hpke context_zeroed priv q info)
      (outcome (alloc_ok g) (\<lambda>_. True) (too_long info) (\<lambda>c. c = ?c \<and> csize info \<le> 486))" if "W (world g)" for g
    unfolding wc_HpkeSetupBaseSender_def ss_def
    by (rule shared_secret_setup [OF hp that b(1) encap [OF hp _ k]]) (simp_all add: ss_def)
  note msg = ContextSeal_eq [OF hp c(1) _ b(2-4), of ss "cbytes info"]
  show ?thesis
    unfolding wc_HpkeSealBase_def if_not_P [OF g]
    by (rule leaves_conseq [OF one_shot [where msg = "\<lambda>c. wc_HpkeContextSealBase hpke c aad (Buf p) out" and E = "\<lambda>_ _. False"
          and P = "\<lambda>x. x = blit out 0 (SealBase a (Nk hpke) dh (x963 priv) pt (cbytes info) (cbytes aad) p)", OF w prep msg]])
       (auto simp: c SealBase_def ss_def split_def)
qed

lemma unseal:
  assumes hp: "suite_ok a hpke" and w: "W (world h)" and k: "p256_public priv" and pt: "length pt = 65" "hd pt = 4"
    and b: "is_null info \<longrightarrow> csize info = 0" "aad_ok aad" "gcm_fits ct" "length ct = n + 16" "n \<le> length out"
  shows "leaves (\<lambda>_. 0) h (wc_HpkeOpenBase call hpke priv (Buf pt) info aad ct n out)
    (outcome (alloc_ok h) (\<lambda>x. x = out)
      (\<lambda>r x. too_long info r x \<and> x = out \<or>
         r = AES_GCM_AUTH_E \<and> x = blit out 0 (zeros n) \<and> OpenBase a (Nk hpke) dh pt (x963 priv) (cbytes info) (cbytes aad) ct = None)
      (\<lambda>x. (\<exists>p. OpenBase a (Nk hpke) dh pt (x963 priv) (cbytes info) (cbytes aad) ct = Some p \<and> x = blit out 0 p) \<and> csize info \<le> 486))"
proof -
  define ss where "ss = ExtractAndExpand dh (pt @ x963 priv)"
  let ?c = "context_of a (Nk hpke) ss (cbytes info)"
  let ?o = "OpenBase a (Nk hpke) dh pt (x963 priv) (cbytes info) (cbytes aad) ct"
  note c = context_of_ok [OF hp]
  have g: "\<not> (is_null (Buf pt) \<or> csize (Buf pt) = 0 \<or> (is_null info \<and> csize info \<noteq> 0) \<or> (is_null aad \<and> csize aad \<noteq> 0))"
    using b pt by (auto simp: aad_ok_def)
  have prep: "leaves (\<lambda>_. 0) g (wc_HpkeSetupBaseReceiver call hpke context_zeroed priv (Buf pt) info)
      (outcome (alloc_ok g) (\<lambda>_. True) (too_long info) (\<lambda>c. c = ?c \<and> csize info \<le> 486))" if "W (world g)" for g
    unfolding wc_HpkeSetupBaseReceiver_def ss_def
    by (rule shared_secret_setup [OF hp that b(1) decap [OF hp _ k _ pt]]) (simp_all add: ss_def)
  define y where "y = (case ?o of Some p \<Rightarrow> (0, ?c\<lparr>seq := 1\<rparr>, blit out 0 p) | None \<Rightarrow> (AES_GCM_AUTH_E, ?c, blit out 0 (zeros n)))"
  have msg: "wc_HpkeContextOpenBase hpke ?c aad ct n out = aes_call (?c, out) (fst y, fst (snd y), snd (snd y))"
    using ContextOpen_eq [OF hp c(1) _ b(2-5), of ss "cbytes info"]
    by (simp add: c y_def OpenBase_def ss_def split_def split: option.splits)
  show ?thesis
    unfolding wc_HpkeOpenBase_def if_not_P [OF g]
    by (rule leaves_conseq [OF one_shot [where msg = "\<lambda>c. wc_HpkeContextOpenBase hpke c aad ct n out"
          and P = "\<lambda>x. \<exists>p. ?o = Some p \<and> x = blit out 0 p"
          and E = "\<lambda>r x. r = AES_GCM_AUTH_E \<and> x = blit out 0 (zeros n) \<and> ?o = None", OF w prep msg]])
       (auto simp: y_def AES_GCM_AUTH_E_def split: option.splits)
qed

end

definition bad_point :: "bool \<Rightarrow> int \<Rightarrow> bool" where
  "bad_point ok r \<longleftrightarrow> r = ASN_PARSE_E \<or> r = NOT_COMPILED_IN \<or> r = MEMORY_E \<and> \<not> ok"

lemma bad_point_nonzero: "bad_point ok r \<Longrightarrow> r \<noteq> 0"
  by (auto simp: bad_point_def rc_defs)

lemma decap_bad:
  assumes hp: "suite_ok a hpke" and pt: "length pt = 65" "hd pt \<noteq> 4"
  shows "leaves (\<lambda>_. 0) h (wc_HpkeDecap call hpke priv (Buf pt) ss) (\<lambda>(r, x) w. w = world h \<and> bad_point (alloc_ok h) r)"
proof -
  have s: "Ndh hpke = 32" "Npk hpke = 65" using hp by (simp_all add: suite_ok_def)
  show ?thesis
    unfolding wc_HpkeDecap_def s Let_def
    apply (rule leaves_kem_buffers)
     apply (unfold s)
     apply (rule leaves_bind [OF leaves_Deserialize [OF hp pt(1)]])
     apply (clarsimp simp: pt simp del: State_Monad.bind_assoc split del: if_split)
    subgoal for g r q h'
    proof -
      assume "alloc_ok g = alloc_ok h" "r = ASN_PARSE_E \<or> r = NOT_COMPILED_IN \<or> r = MEMORY_E \<and> \<not> alloc_ok h"
      then have "r \<noteq> 0" "bad_point (alloc_ok h) r" by (auto simp: bad_point_def rc_defs)
      then show ?thesis if "(q = None) = (r \<noteq> 0)" "world h' = world h"
        using that by (auto intro!: leaves_ret)
    qed
    apply (simp add: bad_point_def)
    done
qed

lemma unseal_bad:
  assumes hp: "suite_ok a hpke" and pt: "length pt = 65" "hd pt \<noteq> 4"
    and b: "is_null info \<longrightarrow> csize info = 0" "is_null aad \<longrightarrow> csize aad = 0"
  shows "leaves (\<lambda>_. 0) h (wc_HpkeOpenBase call hpke priv (Buf pt) info aad ct n out)
    (\<lambda>(r, x) w. w = world h \<and> x = out \<and> bad_point (alloc_ok h) r)"
proof -
  have g: "\<not> (is_null (Buf pt) \<or> csize (Buf pt) = 0 \<or> (is_null info \<and> csize info \<noteq> 0) \<or> (is_null aad \<and> csize aad \<noteq> 0))"
    using b pt by auto
  have m: "bad_point ok MEMORY_E" if "\<not> ok" for ok using that by (simp add: bad_point_def)
  have s: "leaves (\<lambda>_. 0) f (wc_HpkeSetupBaseReceiver call hpke context_zeroed priv (Buf pt) info)
      (\<lambda>(r, x) w. w = world f \<and> bad_point (alloc_ok f) r)" for f
    unfolding wc_HpkeSetupBaseReceiver_def with_shared_secret_def
    apply (rule leaves_bind [OF leaves_malloc])
    apply (rule if_split [THEN iffD2], intro conjI impI)
     apply (rule leaves_ret)
      apply (use m in auto) [2]
    apply (rule leaves_bind [OF decap_bad [OF hp pt]])
    apply (auto dest: bad_point_nonzero intro!: leaves_bind [OF leaves_free] leaves_ret)
    done
  show ?thesis
    unfolding wc_HpkeOpenBase_def if_not_P [OF g]
    apply (rule leaves_bind [OF leaves_malloc])
    apply (rule if_split [THEN iffD2], intro conjI impI)
     apply (rule leaves_ret)
      apply (use m in auto) [2]
    apply (rule leaves_bind [OF s])
    apply (auto dest: bad_point_nonzero intro!: leaves_bind [OF leaves_free] leaves_ret)
    done
qed

section \<open>What stays in released memory\<close>

lemma wp_True: "wp m (\<lambda>_ _. True) h"
  by (simp add: wp_def split: prod.splits)

lemma clean_keeps_freed:
  assumes "clean Z d h m Q" "b \<in> set (hp_freed h)"
  shows "wp m (\<lambda>_ h'. b \<in> set (hp_freed h')) h"
  by (rule wp_conseq [OF assms(1) [unfolded clean_def]]) (use assms(2) in \<open>auto simp: frame_def\<close>)

lemma tmp_freed:
  assumes "alloc_ok h"
  shows "wp (do { ok \<leftarrow> XMALLOC; if \<not> ok then ret x else do { (r, y) \<leftarrow> m; XFREE b; ret (r, y) } }) (\<lambda>_ h'. b \<in> set (hp_freed h')) h"
  using assms by (auto simp: alloc_ok_def split_def intro: wp_conseq [OF wp_True])

lemma LabeledExtract_leaves_ikm:
  assumes "alloc_ok h" "length HPKE_VERSION_STR + length sid + length lab + length ikm \<le> MAX_HPKE_LABEL_SZ"
  shows "wp (wc_HpkeLabeledExtract hpke sid t salt lab (Buf ikm) out)
    (\<lambda>_ h'. \<exists>post. Freed_bytes (HPKE_VERSION_STR @ sid @ lab @ ikm @ post) \<in> set (hp_freed h')) h"
proof -
  define b where "b = blit (blit (blit (blit (zeros 512) 0 HPKE_VERSION_STR) (length HPKE_VERSION_STR) sid)
      (length HPKE_VERSION_STR + length sid) lab) (length HPKE_VERSION_STR + length sid + length lab) ikm"
  have b: "b = (HPKE_VERSION_STR @ sid @ lab @ ikm) @ zeros (512 - (length HPKE_VERSION_STR + length sid + length lab + length ikm))"
    unfolding b_def by (rule labeled_ikm) (use assms(2) in simp)
  have e: "(if length ikm \<noteq> 0 then (blit X p ikm, p + length ikm) else (X, p)) = (blit X p ikm, p + length ikm)" for X p
    by auto
  have g: "\<not> 512 < length HPKE_VERSION_STR" "\<not> 512 - length HPKE_VERSION_STR < length sid"
    "\<not> 512 - length HPKE_VERSION_STR - length sid < length lab"
    "\<not> 512 - length HPKE_VERSION_STR - length sid - length lab < length ikm"
    using assms(2) by simp_all
  show ?thesis
    unfolding wc_HpkeLabeledExtract_def Let_def MAX_HPKE_LABEL_SZ_def csize.simps cbytes.simps
      if_not_P [OF g(1)] if_not_P [OF g(2)] if_not_P [OF g(3)] if_not_P [OF g(4)] e prod.case b_def [symmetric]
    by (rule wp_conseq [OF tmp_freed [OF assms(1)]]) (use b in \<open>auto simp: append_assoc\<close>)
qed

text \<open>C26: The Diffie-Hellman value outlives the key derivation: when no allocation fails,
  \<open>wc_HpkeExtractAndExpand\<close> releases a block of the heap that still holds the value in clear, behind
  the label of the extraction, although the header of the bridge says that the library zeroes its
  copy.\<close>

theorem dh_left_on_heap:
  assumes "suite_ok a hpke" "alloc_ok h" "length dh = 32" "length kc \<le> 400" "length ss = 32"
    "run_state (wc_HpkeExtractAndExpand hpke dh kc ss) h = (x, h')"
  shows "\<exists>pre post. Freed_bytes (pre @ dh @ post) \<in> set (hp_freed h')"
proof -
  let ?b = "\<lambda>post. Freed_bytes (HPKE_VERSION_STR @ rfc_kem_suite @ EAE_PRK_LABEL_STR @ dh @ post)"
  have s: "kem_suite_id hpke = rfc_kem_suite" "kemDigest hpke = WC_SHA256" "Nsecret hpke = 32" using assms(1) by (simp_all add: suite_ok_def)
  have 2: "wp (wc_HpkeLabeledExpand hpke rfc_kem_suite WC_SHA256 (take 32 prk) SHARED_SECRET_LABEL_STR kc 32 ss)
      (\<lambda>_ h'. \<exists>post. ?b post \<in> set (hp_freed h')) g" if "?b post \<in> set (hp_freed g)" for post prk g
    unfolding label_strs
    by (rule wp_conseq [OF clean_keeps_freed [OF clean_LabeledExpand_rfc that [unfolded label_strs]]]) (use assms in auto)
  have m: "wp XMALLOC (\<lambda>ok h'. ok \<and> alloc_ok h') h" using assms(2) by (simp add: alloc_ok_def)
  have "wp (wc_HpkeExtractAndExpand hpke dh kc ss) (\<lambda>_ h'. \<exists>post. ?b post \<in> set (hp_freed h')) h"
    unfolding wc_HpkeExtractAndExpand_def s wp_bind
    apply (rule wp_conseq [OF m])
    apply (clarsimp simp: wp_bind simp del: State_Monad.bind_assoc split del: if_split)
    apply (rule wp_conseq [OF LabeledExtract_leaves_ikm])
      apply (use assms in \<open>simp_all add: label_strs\<close>) [2]
    apply (auto simp: ex_disj_distrib intro!: wp_conseq [OF 2])
    apply assumption
    done
  then obtain post where "?b post \<in> set (hp_freed h')" using assms(6) by (auto simp: wp_def)
  then show ?thesis by (intro exI [of _ "HPKE_VERSION_STR @ rfc_kem_suite @ EAE_PRK_LABEL_STR"] exI [of _ post]) simp
qed


theorem dh_left_on_heap_witness:
  "\<exists>x h' pre post. run_state (wc_HpkeExtractAndExpand demo_suite (replicate 32 9) [] (zeros 32)) (env0 ()) = (x, h') \<and>
     Freed_bytes (pre @ replicate 32 9 @ post) \<in> set (hp_freed h')"
proof -
  obtain x h' where m: "run_state (wc_HpkeExtractAndExpand demo_suite (replicate 32 9) [] (zeros 32)) (env0 ()) = (x, h')" by (metis surj_pair)
  from dh_left_on_heap [OF demo_suite_ok _ _ _ _ m] m show ?thesis by simp
qed

end
