(* ===== verification/Port.thy ===== *)
theory Port
  imports CryptoCb
begin

text \<open>
  The start-up and shut-down of the library, \<open>wc_port.c\<close>: the counted initialisation state with its
  compare-and-exchange loops, \<open>wolfCrypt_Init\<close> and \<open>wolfCrypt_Cleanup\<close>. The loops of this build have
  no other thread to wait for, so they are partial functions: \<open>None\<close> is a call that never returns.
\<close>

section \<open>The state\<close>

definition WC_INIT_STATE_UNINITED :: "3 word" where [simp]: "WC_INIT_STATE_UNINITED = 0"
definition WC_INIT_STATE_INITING :: "3 word" where [simp]: "WC_INIT_STATE_INITING = 1"
definition WC_INIT_STATE_INITED :: "3 word" where [simp]: "WC_INIT_STATE_INITED = 2"
definition WC_INIT_STATE_CLEANING_UP :: "3 word" where [simp]: "WC_INIT_STATE_CLEANING_UP = 3"
definition WC_INIT_STATE_BAD_STATE :: "3 word" where [simp]: "WC_INIT_STATE_BAD_STATE = 4"

record wc_init_state =
  init_st :: "3 word"
  init_count :: "29 word"

definition WC_INIT_STATE_INITIALIZER :: wc_init_state where
  "WC_INIT_STATE_INITIALIZER = \<lparr>init_st = 0, init_count = 0\<rparr>"

text \<open>The compare-and-exchange: whether it succeeded, the variable and the expected value afterwards.\<close>

definition wolfSSL_Atomic_Uint_CompareExchange :: "'a \<Rightarrow> 'a \<Rightarrow> 'a \<Rightarrow> bool \<times> 'a \<times> 'a" where
  "wolfSSL_Atomic_Uint_CompareExchange c expected new = (if c = expected then (True, new, expected) else (False, c, c))"

section \<open>Counting up and down\<close>

partial_function (option) InitUp_loop :: "wc_init_state \<Rightarrow> wc_init_state \<Rightarrow> (int \<times> wc_init_state) option" where
  "InitUp_loop s e =
     (if init_count e = 2 ^ 29 - 1 then Some (SEQ_OVERFLOW_E, s)
      else if init_st e = WC_INIT_STATE_UNINITED \<and> init_count e \<noteq> 0 then Some (BAD_STATE_E, s)
      else if init_st e \<noteq> WC_INIT_STATE_UNINITED \<and> init_st e \<ge> WC_INIT_STATE_BAD_STATE then Some (BAD_STATE_E, s)
      else if init_st e \<noteq> WC_INIT_STATE_UNINITED \<and> init_count e = 0 then Some (BAD_STATE_E, s)
      else let e' = (if init_st e = WC_INIT_STATE_UNINITED then e else e\<lparr>init_st := WC_INIT_STATE_INITED\<rparr>);
               new = e\<lparr>init_st := (if init_st e = WC_INIT_STATE_UNINITED then WC_INIT_STATE_INITING else WC_INIT_STATE_INITED),
                       init_count := init_count e + 1\<rparr>;
               (ok, s', e'') = wolfSSL_Atomic_Uint_CompareExchange s e' new
           in if ok then Some (uint (init_st new), s') else InitUp_loop s' e'')"

definition wc_local_InitUp :: "wc_init_state \<Rightarrow> (int \<times> wc_init_state) option" where
  "wc_local_InitUp s = InitUp_loop s s"

definition wc_local_InitUpDone :: "wc_init_state \<Rightarrow> int \<times> wc_init_state" where
  "wc_local_InitUpDone s =
     (if init_st s \<noteq> WC_INIT_STATE_INITING then (BAD_FUNC_ARG, s) else (0, s\<lparr>init_st := WC_INIT_STATE_INITED\<rparr>))"

partial_function (option) InitDown_loop :: "wc_init_state \<Rightarrow> wc_init_state \<Rightarrow> (int \<times> wc_init_state) option" where
  "InitDown_loop s e =
     (if init_st e \<ge> WC_INIT_STATE_BAD_STATE then Some (BAD_STATE_E, s)
      else if init_st e = WC_INIT_STATE_UNINITED then
        (if init_count e = 0 then Some (ALREADY_E, s) else Some (BAD_STATE_E, s))
      else if init_st e = WC_INIT_STATE_INITING then Some (BAD_FUNC_ARG, s)
      else if init_st e = WC_INIT_STATE_CLEANING_UP then
        (if init_count e = 1 then Some (ALREADY_E, s) else Some (BAD_STATE_E, s))
      else if init_count e = 0 then Some (BAD_STATE_E, s)
      else let new = (if init_count e = 1 then e\<lparr>init_st := WC_INIT_STATE_CLEANING_UP\<rparr> else e\<lparr>init_count := init_count e - 1\<rparr>);
               (ok, s', e') = wolfSSL_Atomic_Uint_CompareExchange s e new
           in if ok then Some (uint (init_st new), s') else InitDown_loop s' e')"

definition wc_local_InitDown :: "wc_init_state \<Rightarrow> (int \<times> wc_init_state) option" where
  "wc_local_InitDown s = InitDown_loop s s"

definition wc_local_InitDownDone :: "wc_init_state \<Rightarrow> int \<times> wc_init_state" where
  "wc_local_InitDownDone s =
     (if init_st s \<noteq> WC_INIT_STATE_CLEANING_UP then (BAD_FUNC_ARG, s)
      else (0, s\<lparr>init_st := WC_INIT_STATE_UNINITED, init_count := 0\<rparr>))"

section \<open>Initialisation and cleanup\<close>

definition wc_DrbgState_MutexInit :: int where "wc_DrbgState_MutexInit = 0"
definition wc_DrbgState_MutexFree :: int where "wc_DrbgState_MutexFree = 0"

definition WC_INIT_STATE_RAISE_BAD_STATE :: "wc_init_state \<Rightarrow> wc_init_state" where
  "WC_INIT_STATE_RAISE_BAD_STATE s = s\<lparr>init_st := WC_INIT_STATE_BAD_STATE\<rparr>"

definition wolfCrypt_Init :: "wc_init_state \<Rightarrow> 'cb devices \<Rightarrow> (int \<times> wc_init_state \<times> 'cb devices) option" where
  "wolfCrypt_Init s g = Option.bind (wc_local_InitUp s) (\<lambda>(r, s).
     Some (if r < 0 then (r, s, g)
           else if r = uint WC_INIT_STATE_INITED then (0, s, g)
           else let g = wc_CryptoCb_Init g; r = wc_DrbgState_MutexInit
                in if r \<noteq> 0 then (r, WC_INIT_STATE_RAISE_BAD_STATE s, g)
                   else let (r, s) = wc_local_InitUpDone s in (r, s, g)))"

definition wolfCrypt_Cleanup :: "wc_init_state \<Rightarrow> 'cb devices \<Rightarrow> (int \<times> wc_init_state \<times> 'cb devices) option" where
  "wolfCrypt_Cleanup s g = Option.bind (wc_local_InitDown s) (\<lambda>(r, s).
     Some (if r < 0 then (r, s, g)
           else if r = uint WC_INIT_STATE_INITED then (0, s, g)
           else let g = wc_CryptoCb_Cleanup g; (r, s) = wc_local_InitDownDone s in (r, s, g)))"

section \<open>Reference counting\<close>

text \<open>The states between two calls: shut down, or in use \<open>n\<close> times.\<close>

definition in_use :: "nat \<Rightarrow> wc_init_state" where
  "in_use n = \<lparr>init_st = (if n = 0 then WC_INIT_STATE_UNINITED else WC_INIT_STATE_INITED), init_count = word_of_nat n\<rparr>"

lemma count_eq: "n < 2 ^ 29 \<Longrightarrow> m < 2 ^ 29 \<Longrightarrow> (word_of_nat n :: 29 word) = word_of_nat m \<longleftrightarrow> n = m"
  by (simp add: word_of_nat_eq_iff take_bit_nat_eq_self)

lemma count_simps:
  assumes "n < 2 ^ 29"
  shows "(word_of_nat n :: 29 word) = 0 \<longleftrightarrow> n = 0" "(word_of_nat n :: 29 word) = 1 \<longleftrightarrow> n = 1"
    "(word_of_nat n :: 29 word) = 2 ^ 29 - 1 \<longleftrightarrow> n = 2 ^ 29 - 1"
  using count_eq [OF assms, of 0] count_eq [OF assms, of 1] count_eq [OF assms, of "2 ^ 29 - 1"] by simp_all

lemma InitUp_used:
  assumes "n < 2 ^ 29 - 1"
  shows "wc_local_InitUp (in_use n) =
    Some (if n = 0 then (1, \<lparr>init_st = 1, init_count = 1\<rparr>) else (2, in_use (Suc n)))"
proof -
  have c: "(word_of_nat n :: 29 word) = 0 \<longleftrightarrow> n = 0" "(word_of_nat n :: 29 word) \<noteq> 2 ^ 29 - 1"
    using assms count_simps [of n] by auto
  show ?thesis
    unfolding wc_local_InitUp_def InitUp_loop.simps [of "in_use n" "in_use n"]
    by (cases "n = 0") (use c in \<open>simp_all add: in_use_def wolfSSL_Atomic_Uint_CompareExchange_def add.commute take_bit_eq_mod\<close>)
qed

lemma InitDown_used:
  assumes "n < 2 ^ 29"
  shows "wc_local_InitDown (in_use n) =
    Some (if n = 0 then (ALREADY_E, in_use n) else if n = 1 then (3, \<lparr>init_st = 3, init_count = 1\<rparr>) else (2, in_use (n - 1)))"
proof -
  have c: "(word_of_nat n :: 29 word) = 0 \<longleftrightarrow> n = 0" "(word_of_nat n :: 29 word) = 1 \<longleftrightarrow> n = 1"
    using assms count_simps [of n] by auto
  show ?thesis
    unfolding wc_local_InitDown_def InitDown_loop.simps [of "in_use n" "in_use n"]
    by (cases "n = 0"; cases "n = 1") (use c in \<open>simp_all add: in_use_def wolfSSL_Atomic_Uint_CompareExchange_def of_nat_diff take_bit_eq_mod\<close>)
qed

lemma Init_used:
  assumes "n < 2 ^ 29 - 1"
  shows "wolfCrypt_Init (in_use n) g = Some (0, in_use (Suc n), if n = 0 then wc_CryptoCb_Init g else g)"
  unfolding wolfCrypt_Init_def InitUp_used [OF assms] by (auto simp: wc_DrbgState_MutexInit_def wc_local_InitUpDone_def in_use_def)

lemma Cleanup_used:
  assumes "n < 2 ^ 29"
  shows "wolfCrypt_Cleanup (in_use n) g =
    Some (if n = 0 then (ALREADY_E, in_use 0, g) else (0, in_use (n - 1), if n = 1 then wc_CryptoCb_Cleanup g else g))"
  unfolding wolfCrypt_Cleanup_def InitDown_used [OF assms] by (auto simp: wc_local_InitDownDone_def in_use_def ALREADY_E_def)

section \<open>Properties\<close>

lemma st_cases: "(x :: 3 word) = 0 \<or> x = 1 \<or> x = 2 \<or> x = 3 \<or> 4 \<le> x"
proof -
  have "uint x < 8" "0 \<le> uint x" using uint_lt2p [of x] by simp_all
  then have "uint x = 0 \<or> uint x = 1 \<or> uint x = 2 \<or> uint x = 3 \<or> 4 \<le> uint x" by linarith
  then show ?thesis by (simp add: word_uint_eq_iff word_le_def take_bit_eq_mod)
qed

lemma st_le: "\<not> (4 :: 3 word) \<le> 1" "\<not> (4 :: 3 word) \<le> 2" "\<not> (4 :: 3 word) \<le> 3"
  by (simp_all add: word_le_def take_bit_eq_mod)

abbreviation busy :: "wc_init_state \<Rightarrow> bool" where
  "busy s \<equiv> (init_st s = WC_INIT_STATE_INITING \<or> init_st s = WC_INIT_STATE_CLEANING_UP) \<and> init_count s \<noteq> 0 \<and> init_count s \<noteq> 2 ^ 29 - 1"

lemma InitUp_spins: "InitUp_loop s e = Some y \<Longrightarrow> \<not> (busy s \<and> e = s)"
proof (induction rule: InitUp_loop.raw_induct [rotated, consumes 1])
  case (1 f s e y)
  show ?case
  proof
    assume b: "busy s \<and> e = s"
    then have "e \<noteq> e\<lparr>init_st := WC_INIT_STATE_INITED\<rparr>" by (cases e) auto
    then have "f s s = Some y" using 1(2) b st_le by (auto simp: wolfSSL_Atomic_Uint_CompareExchange_def split: if_splits)
    then show False using 1(1) b by blast
  qed
qed

lemma InitUp_answers: "\<not> busy s \<Longrightarrow> wc_local_InitUp s \<noteq> None"
  unfolding wc_local_InitUp_def InitUp_loop.simps [of s s]
  using st_cases [of "init_st s"] st_le by (cases s) (auto simp: wolfSSL_Atomic_Uint_CompareExchange_def take_bit_eq_mod)

text \<open>C32: When the start-up calls return. \<open>wc_local_InitUp\<close> never returns exactly when the state is that
  of an initialisation or a cleanup in progress, since this build has no other thread that could
  end it; \<open>wc_local_InitDown\<close> always returns.\<close>

theorem init_calls_return:
  "(wc_local_InitUp s = None \<longleftrightarrow>
      (init_st s = WC_INIT_STATE_INITING \<or> init_st s = WC_INIT_STATE_CLEANING_UP) \<and>
      init_count s \<noteq> 0 \<and> init_count s \<noteq> 2 ^ 29 - 1) \<and>
   (\<exists>r s'. wc_local_InitDown s = Some (r, s'))"
proof -
  have "\<exists>r s'. wc_local_InitDown s = Some (r, s')"
    unfolding wc_local_InitDown_def InitDown_loop.simps [of s s]
    by (auto simp: wolfSSL_Atomic_Uint_CompareExchange_def)
  moreover have "busy s \<Longrightarrow> wc_local_InitUp s = None"
    using InitUp_spins [of s s] by (cases "wc_local_InitUp s") (auto simp: wc_local_InitUp_def)
  ultimately show ?thesis using InitUp_answers [of s] by blast
qed

text \<open>Sequences of calls, and what they come to with a plain counter.\<close>

datatype port_call = PortInit | PortCleanup

fun port_run :: "port_call list \<Rightarrow> wc_init_state \<Rightarrow> 'cb devices \<Rightarrow> (int list \<times> wc_init_state \<times> 'cb devices) option" where
  "port_run [] s g = Some ([], s, g)"
| "port_run (c # cs) s g =
     Option.bind (case c of PortInit \<Rightarrow> wolfCrypt_Init s g | PortCleanup \<Rightarrow> wolfCrypt_Cleanup s g) (\<lambda>(r, s, g).
       Option.bind (port_run cs s g) (\<lambda>(rs, s, g). Some (r # rs, s, g)))"

fun count_run :: "port_call list \<Rightarrow> nat \<Rightarrow> int list \<times> nat" where
  "count_run [] n = ([], n)"
| "count_run (PortInit # cs) n = (let (rs, m) = count_run cs (Suc n) in (0 # rs, m))"
| "count_run (PortCleanup # cs) n = (let (rs, m) = count_run cs (n - 1) in ((if n = 0 then ALREADY_E else 0) # rs, m))"

lemma port_run_count:
  assumes "n + length cs < 2 ^ 29 - 1" "length g = 8" "n > 0 \<Longrightarrow> dev_wf g \<and> dev_view g = Map.empty"
  shows "\<exists>rs m g'. count_run cs n = (rs, m) \<and> port_run cs (in_use n) g = Some (rs, in_use m, g') \<and> length g' = 8 \<and>
    (m > 0 \<longrightarrow> dev_wf g' \<and> dev_view g' = Map.empty)"
  using assms
proof (induction cs arbitrary: n g)
  case (Cons c cs)
  show ?case
  proof (cases c)
    case PortInit
    have w: "dev_wf (wc_CryptoCb_Init g) \<and> dev_view (wc_CryptoCb_Init g) = Map.empty" using Init_wf [of g] Cons.prems(2) by simp
    let ?g = "if n = 0 then wc_CryptoCb_Init g else g"
    have "length ?g = 8" "dev_wf ?g \<and> dev_view ?g = Map.empty" using Cons.prems w by (auto simp: wc_CryptoCb_Init_def)
    then obtain rs m g' where "count_run cs (Suc n) = (rs, m)" "port_run cs (in_use (Suc n)) ?g = Some (rs, in_use m, g')"
      "length g' = 8" "m > 0 \<longrightarrow> dev_wf g' \<and> dev_view g' = Map.empty"
      using Cons.IH [of "Suc n" ?g] Cons.prems by auto
    then show ?thesis using Init_used [of n g] Cons.prems PortInit by auto
  next
    case PortCleanup
    let ?g = "if n = 1 then wc_CryptoCb_Cleanup g else g"
    have c: "length ?g = 8" "n > 1 \<Longrightarrow> dev_wf ?g \<and> dev_view ?g = Map.empty"
      using Cons.prems Cleanup_wf [of g] by (auto simp: dev_wf_def)
    moreover have l: "n - 1 + length cs < 2 ^ 29 - 1" using Cons.prems(1) by simp
    ultimately obtain rs m g' where "count_run cs (n - 1) = (rs, m)" "port_run cs (in_use (n - 1)) ?g = Some (rs, in_use m, g')"
      "length g' = 8" "m > 0 \<longrightarrow> dev_wf g' \<and> dev_view g' = Map.empty"
      using Cons.IH [of "n - 1" ?g] l by auto
    then show ?thesis using Cleanup_used [of n g] Cons.prems PortCleanup by (cases "n = 0") auto
  qed
qed simp

text \<open>C31: The library is reference counted: any sequence of \<open>wolfCrypt_Init\<close> and \<open>wolfCrypt_Cleanup\<close>
  calls shorter than the counter's range returns, with the answers of a plain counter (an
  initialisation always succeeds, a cleanup with nothing to clean up answers \<open>ALREADY_E\<close>), and
  while the library is in use its device table is well-formed.\<close>

theorem port_refines_counter:
  assumes "length cs < 2 ^ 29 - 1" "length g = MAX_CRYPTO_DEVID_CALLBACKS"
  shows "\<exists>rs n g'. count_run cs 0 = (rs, n) \<and> port_run cs WC_INIT_STATE_INITIALIZER g = Some (rs, in_use n, g') \<and>
    (n > 0 \<longrightarrow> dev_wf g' \<and> dev_view g' = Map.empty)"
proof -
  have "in_use 0 = WC_INIT_STATE_INITIALIZER" by (simp add: in_use_def WC_INIT_STATE_INITIALIZER_def)
  then show ?thesis using port_run_count [of 0 cs g] assms by auto
qed

theorem port_refines_counter_witness:
  "\<exists>g'. port_run [PortInit, PortInit, PortCleanup, PortCleanup, PortCleanup, PortInit] WC_INIT_STATE_INITIALIZER
      (devices_static :: unit devices) = Some ([0, 0, 0, 0, ALREADY_E, 0], in_use 1, g') \<and> dev_wf g'"
  using port_refines_counter [of "[PortInit, PortInit, PortCleanup, PortCleanup, PortCleanup, PortInit]" "devices_static :: unit devices"]
  by (auto simp: devices_static_def)

end
