(* ===== verification/Bridge.thy ===== *)
theory Bridge
  imports Kem Port
begin

text \<open>
  The receiver and sender core of ZROtext, \<open>zrotext_hpke_core.c\<close>: the crypto callback that hands
  every Diffie-Hellman computation to the host platform, its registration, \<open>zt_hpke_open\<close> and
  \<open>zt_hpke_seal_cek\<close>. The callback is the provider of the interface \<open>kem_device\<close>.
\<close>

section \<open>The bridge and the callback\<close>

definition ZT_HPKE_DEVID :: int where "ZT_HPKE_DEVID = 0x5A544B31"

text \<open>\<open>agree\<close> is a function of the host: it reads the peer's point and the state of the host, and
  answers a code and the bytes it has written to \<open>out\<close>.\<close>

record ('c, 'h) zt_hpke_bridge =
  bridge_agree :: "('c \<Rightarrow> byte list \<Rightarrow> ('h, int \<times> byte list) state) option"
  bridge_ctx :: 'c

text \<open>The functions that the program registers as callbacks: one.\<close>

datatype zt_callback = Zt_ecdh_callback

record 'h zt_world = "zt_callback wc_world" +
  zt_device_registered :: int
  wolfcrypt_init_state :: wc_init_state
  host :: 'h

type_synonym ('c, 'h) bridge_info = "('c, 'h) zt_hpke_bridge wc_CryptoInfo"

definition on_host :: "('h, 'a) state \<Rightarrow> ('h zt_world, 'a) cmd" where
  "on_host m = on_world (State (\<lambda>w. case run_state m (host w) of (x, s) \<Rightarrow> (x, w\<lparr>host := s\<rparr>)))"

text \<open>What an array of fixed size holds after bytes were written from its start on.\<close>

definition written :: "byte list \<Rightarrow> byte list \<Rightarrow> byte list" where
  "written out bs = take (length out) bs @ drop (length bs) out"

definition zt_ecdh_callback ::
  "int \<Rightarrow> ('c, 'h) bridge_info \<Rightarrow> ptr \<Rightarrow> ('h zt_world, int \<times> ('c, 'h) bridge_info) cmd" where
  "zt_ecdh_callback devId info ctx =
     (if algo_type info \<noteq> WC_ALGO_TYPE_PK then ret (BAD_STATE_E, info)
      else if pk_type info \<noteq> WC_PK_TYPE_ECDH then ret (BAD_STATE_E, info)
      else case (ecdh_private_key info, ecdh_public_key info, ecdh_out info, ecdh_outlen info) of
        (Some priv, Some peer, Some out, Some outLen) \<Rightarrow>
          (case (key_dp priv, key_dp peer) of
             (Some pd, Some qd) \<Rightarrow>
               if set_id pd \<noteq> ECC_SECP256R1 \<or> set_id qd \<noteq> ECC_SECP256R1 then ret (ECC_BAD_ARG_E, info)
               else if outLen < 32 then ret (ECC_BAD_ARG_E, info)
               else (case key_devCtx priv of
                   None \<Rightarrow> ret (BAD_STATE_E, info)
                 | Some bridge \<Rightarrow>
                     (case bridge_agree bridge of
                        None \<Rightarrow> ret (BAD_STATE_E, info)
                      | Some agree \<Rightarrow> do {
                          (r, peerPoint, peerPointSz) \<leftarrow>
                            wc_ecc_export_x963_ex peer (Some (zeros DHKEM_P256_ENC_LEN)) DHKEM_P256_ENC_LEN 0;
                          if r \<noteq> 0 \<or> peerPointSz \<noteq> DHKEM_P256_ENC_LEN then ret (ECC_BAD_ARG_E, info)
                          else do {
                            (rc, bs) \<leftarrow> on_host (agree (bridge_ctx bridge) (the peerPoint));
                            let info = info\<lparr>ecdh_out := Some (written out bs)\<rparr>;
                            if rc \<noteq> 0 \<or> rc = CRYPTOCB_UNAVAILABLE
                            then ret (if rc = 0 then BAD_STATE_E else rc, info)
                            else ret (0, info\<lparr>ecdh_outlen := Some 32\<rparr>)
                          }
                        }))
           | _ \<Rightarrow> ret (ECC_BAD_ARG_E, info))
      | _ \<Rightarrow> ret (BAD_FUNC_ARG, info))"

text \<open>The end of the life of a local object: the log of released memory says whether it was wiped.\<close>

definition end_of_life :: "freed \<Rightarrow> ('w, unit) cmd" where
  "end_of_life b = State (\<lambda>h. ((), h\<lparr>hp_freed := hp_freed h @ [b]\<rparr>))"

definition ecc_cleared :: "'x ecc_key \<Rightarrow> bool" where
  "ecc_cleared key \<longleftrightarrow> sp_val (pub_x key) = 0 \<and> sp_val (pub_y key) = 0 \<and> sp_val (pub_z key) = 0 \<and> sp_val (key_k key) = 0"

fun zt_call :: "(zt_callback, ('c, 'h) zt_hpke_bridge, ('h, unit) zt_world_ext) dispatch" where
  "zt_call Zt_ecdh_callback devId info ctx = zt_ecdh_callback devId info ctx"

section \<open>Registration\<close>

definition zt_hpke_init :: "('h zt_world, int) cmd" where
  "zt_hpke_init = on_world (State (\<lambda>w.
     if zt_device_registered w = 0 then
       (case wc_CryptoCb_RegisterDevice ZT_HPKE_DEVID (Some Zt_ecdh_callback) None (gCryptoDev w) of
          (r, g) \<Rightarrow> if r \<noteq> 0 then (BAD_STATE_E, w\<lparr>gCryptoDev := g\<rparr>)
                    else (0, w\<lparr>gCryptoDev := g, zt_device_registered := 1\<rparr>))
     else (0, w)))"

definition zt_hpke_deinit :: "('h zt_world, unit) cmd" where
  "zt_hpke_deinit = on_world (State (\<lambda>w.
     ((), w\<lparr>gCryptoDev := wc_CryptoCb_UnRegisterDevice ZT_HPKE_DEVID (gCryptoDev w), zt_device_registered := 0\<rparr>)))"

section \<open>Opening\<close>

definition zt_open_args ::
  "('c, 'h) zt_hpke_bridge option \<Rightarrow> cbuf \<Rightarrow> cbuf \<Rightarrow> cbuf \<Rightarrow> cbuf \<Rightarrow> cbuf \<Rightarrow> byte list option \<Rightarrow> int" where
  "zt_open_args bridge recipient enc ct info aad pt =
     (if bridge = None \<or> is_null recipient \<or> is_null enc \<or> is_null ct \<or> is_null info \<or> is_null aad \<or> pt = None
      then BAD_FUNC_ARG
      else if INT_MAX < int (csize recipient) \<or> INT_MAX < int (csize enc) \<or> INT_MAX < int (csize ct) \<or> INT_MAX < int (csize info) \<or> INT_MAX < int (csize aad)
      then BAD_FUNC_ARG
      else if csize recipient \<noteq> DHKEM_P256_ENC_LEN then BAD_FUNC_ARG
      else if csize enc \<noteq> DHKEM_P256_ENC_LEN then BAD_FUNC_ARG
      else if csize ct < 17 then BAD_FUNC_ARG
      else if csize info = 0 \<or> csize aad = 0 then BAD_FUNC_ARG
      else if csize info = csize aad \<and> cbytes info = cbytes aad then BAD_FUNC_ARG
      else if length (the pt) < csize ct - 16 then BUFFER_E
      else 0)"

definition zt_hpke_open ::
  "('c, 'h) zt_hpke_bridge option \<Rightarrow> cbuf \<Rightarrow> cbuf \<Rightarrow> cbuf \<Rightarrow> cbuf \<Rightarrow> cbuf \<Rightarrow> byte list option \<Rightarrow>
   ('h zt_world, int \<times> byte list option) cmd" where
  "zt_hpke_open bridge recipient enc ct info aad pt =
     (let bad = zt_open_args bridge recipient enc ct info aad pt in
      if bad \<noteq> 0 then ret (bad, pt)
      else do {
        r \<leftarrow> zt_hpke_init;
        if r \<noteq> 0 then ret (r, pt)
        else let (r, hpke) = wc_HpkeInit hpke_zeroed DHKEM_P256_HKDF_SHA256 HKDF_SHA256 HPKE_AES_128_GCM in
        if r \<noteq> 0 then ret (r, pt)
        else let (r, recipientKey) = wc_ecc_init_ex ZT_HPKE_DEVID in
        if r \<noteq> 0 then ret (r, pt)
        else let recipientKey = recipientKey\<lparr>key_devCtx := bridge\<rparr>;
                 (r, recipientKey) = wc_ecc_import_x963_ex recipient recipientKey ECC_SECP256R1 in
        do {
          (r, out) \<leftarrow>
            (if r = 0 then wc_HpkeOpenBase zt_call hpke recipientKey enc info aad (cbytes ct) (csize ct - 16) (the pt)
             else ret (r, the pt));
          end_of_life (Freed_obj ''ecc_key'' (ecc_cleared (wc_ecc_free recipientKey)));
          end_of_life (Freed_obj ''Hpke'' True);
          ret (r, Some out)
        }
      })"

section \<open>Sealing\<close>

definition zt_seal_args ::
  "('c, 'h) zt_hpke_bridge option \<Rightarrow> cbuf \<Rightarrow> cbuf \<Rightarrow> cbuf \<Rightarrow> cbuf \<Rightarrow> cbuf \<Rightarrow> byte list option \<Rightarrow> int" where
  "zt_seal_args bridge ephemeral recipient cek info aad ct =
     (if bridge = None \<or> bridge_agree (the bridge) = None \<or> is_null ephemeral \<or> is_null recipient \<or> is_null cek \<or>
         is_null info \<or> is_null aad \<or> ct = None \<or> csize ephemeral \<noteq> 65 \<or> csize recipient \<noteq> 65 \<or> csize cek \<noteq> 32 \<or>
         csize info = 0 \<or> csize aad = 0 \<or> csize info > 1024 \<or> csize aad > 1024 \<or>
         csize info = csize aad \<and> cbytes info = cbytes aad
      then BAD_FUNC_ARG
      else if length (the ct) < 48 then BUFFER_E
      else 0)"

text \<open>The part between the two labels of the function: the two keys are imported and the message is sealed.\<close>

definition zt_seal_keys ::
  "Hpke \<Rightarrow> ('c, 'h) zt_hpke_bridge option \<Rightarrow> cbuf \<Rightarrow> cbuf \<Rightarrow> cbuf \<Rightarrow> cbuf \<Rightarrow> cbuf \<Rightarrow> byte list \<Rightarrow>
   ('h zt_world, int \<times> byte list) cmd" where
  "zt_seal_keys hpke bridge ephemeral recipient cek info aad ct =
     (let (r, ephemeralKey) = wc_ecc_init_ex ZT_HPKE_DEVID in
      if r \<noteq> 0 then ret (r, ct)
      else let ephemeralKey = ephemeralKey\<lparr>key_devCtx := bridge\<rparr>; (r, recipientKey) = wc_ecc_init_ex INVALID_DEVID in
      if r \<noteq> 0 then do { end_of_life (Freed_obj ''ecc_key'' (ecc_cleared (wc_ecc_free ephemeralKey))); ret (r, ct) }
      else let (r, ephemeralKey) = wc_ecc_import_x963_ex ephemeral ephemeralKey ECC_SECP256R1;
               (r, recipientKey) =
                 (if r = 0 then wc_ecc_import_x963_ex recipient recipientKey ECC_SECP256R1 else (r, recipientKey)) in
      do {
        (r, ct) \<leftarrow>
          (if r = 0 then wc_HpkeSealBase zt_call hpke ephemeralKey recipientKey info aad cek ct else ret (r, ct));
        end_of_life (Freed_obj ''ecc_key'' (ecc_cleared (wc_ecc_free recipientKey)));
        end_of_life (Freed_obj ''ecc_key'' (ecc_cleared (wc_ecc_free ephemeralKey)));
        ret (r, ct)
      })"

definition zt_hpke_seal_cek ::
  "('c, 'h) zt_hpke_bridge option \<Rightarrow> cbuf \<Rightarrow> cbuf \<Rightarrow> cbuf \<Rightarrow> cbuf \<Rightarrow> cbuf \<Rightarrow> byte list option \<Rightarrow>
   ('h zt_world, int \<times> byte list option) cmd" where
  "zt_hpke_seal_cek bridge ephemeral recipient cek info aad ct =
     (let bad = zt_seal_args bridge ephemeral recipient cek info aad ct in
      if bad \<noteq> 0 then ret (bad, ct)
      else do {
        let ct = blit (the ct) 0 (zeros 48);
        r \<leftarrow> zt_hpke_init;
        if r \<noteq> 0 then ret (r, Some ct)
        else let (r, hpke) = wc_HpkeInit hpke_zeroed DHKEM_P256_HKDF_SHA256 HKDF_SHA256 HPKE_AES_128_GCM in
        if r \<noteq> 0 then ret (r, Some ct)
        else do {
          (r, ct) \<leftarrow> zt_seal_keys hpke bridge ephemeral recipient cek info aad ct;
          end_of_life (Freed_obj ''Hpke'' True);
          ret (r, Some (if r \<noteq> 0 then ForceZero 0 ct 48 else ct))
        }
      })"

section \<open>The callback as a key-agreement device\<close>

lemma leaves_shared_secret:
  assumes "dev_view (gCryptoDev (world h)) (key_devId priv) = Some (Some cb, ctx)"
    "leaves (\<lambda>_. 0) h (call cb (key_devId priv) (ecdh_request priv q out n) ctx)
      (\<lambda>(r, info) w. \<exists>o' n'. ecdh_out info = Some o' \<and> ecdh_outlen info = Some n' \<and>
         Q (if r = NOT_COMPILED_IN \<or> r = CRYPTOCB_UNAVAILABLE then NO_VALID_DEVID else r, o', n') w)"
  shows "leaves (\<lambda>_. 0) h (wc_ecc_shared_secret call priv q out n) Q"
  unfolding leaves_def
  by (rule shared_secret_wp [OF assms(1)], rule wp_conseq [OF assms(2) [unfolded leaves_def]]) auto

lemma leaves_on_host:
  "leaves (\<lambda>_. 0) h (on_host m) (\<lambda>x w. case run_state m (host (world h)) of (y, s) \<Rightarrow> x = y \<and> w = (world h)\<lparr>host := s\<rparr>)"
  by (auto simp: leaves_def on_host_def wp_def on_world_def hframe_def split: prod.splits)

lemma leaves_end_of_life: "leaves (\<lambda>_. 0) h (end_of_life b) (\<lambda>_ w. w = world h)"
  by (auto simp: leaves_def end_of_life_def wp_def hframe_def)

text \<open>What the host answers for the point \<open>pt\<close> in the state \<open>s\<close>; a bridge without \<open>agree\<close> is a failure.\<close>

definition zt_answer :: "('c, 'h) zt_hpke_bridge \<Rightarrow> byte list \<Rightarrow> 'h \<Rightarrow> (int \<times> byte list) \<times> 'h" where
  "zt_answer b pt s =
     (case bridge_agree b of None \<Rightarrow> ((BAD_STATE_E, []), s) | Some agree \<Rightarrow> run_state (agree (bridge_ctx b) pt) s)"

definition zt_rc :: "('c, 'h) zt_hpke_bridge \<Rightarrow> byte list \<Rightarrow> 'h \<Rightarrow> int" where
  "zt_rc b pt s = fst (fst (zt_answer b pt s))"

definition zt_dh :: "('c, 'h) zt_hpke_bridge \<Rightarrow> byte list \<Rightarrow> 'h \<Rightarrow> byte list" where
  "zt_dh b pt s = written (zeros 32) (snd (fst (zt_answer b pt s)))"

definition zt_after :: "('c, 'h) zt_hpke_bridge \<Rightarrow> byte list \<Rightarrow> 'h \<Rightarrow> 'h" where
  "zt_after b pt s = snd (zt_answer b pt s)"

definition zt_key :: "('c, 'h) zt_hpke_bridge \<Rightarrow> byte list \<Rightarrow> ('c, 'h) zt_hpke_bridge ecc_key" where
  "zt_key b bs =
     snd (wc_ecc_import_x963_ex (Buf bs) ((snd (wc_ecc_init_ex ZT_HPKE_DEVID))\<lparr>key_devCtx := Some b\<rparr>) ECC_SECP256R1)"

text \<open>A point of the P-256 format.\<close>

definition point :: "byte list \<Rightarrow> bool" where
  "point bs \<longleftrightarrow> length bs = 65 \<and> hd bs = 4"

definition registered :: "'h zt_world \<Rightarrow> bool" where
  "registered w \<longleftrightarrow> dev_view (gCryptoDev w) ZT_HPKE_DEVID = Some (Some Zt_ecdh_callback, None)"

definition before :: "byte list \<Rightarrow> 'h zt_world \<Rightarrow> 'h zt_world \<Rightarrow> bool" where
  "before bs w0 w \<longleftrightarrow> point bs \<and> registered w0 \<and> (\<exists>t. w = w0\<lparr>os_time := t\<rparr>)"

definition asked :: "('c, 'h) zt_hpke_bridge \<Rightarrow> byte list \<Rightarrow> 'h zt_world \<Rightarrow> 'h zt_world \<Rightarrow> bool" where
  "asked b pt w0 w \<longleftrightarrow> (\<exists>t. w = w0\<lparr>os_time := t, host := zt_after b pt (host w0)\<rparr>)"

definition answered :: "('c, 'h) zt_hpke_bridge \<Rightarrow> byte list \<Rightarrow> 'h zt_world \<Rightarrow> 'h zt_world \<Rightarrow> bool" where
  "answered b pt w0 w \<longleftrightarrow> asked b pt w0 w \<and> zt_rc b pt (host w0) = 0"

text \<open>The code that a failure of the host becomes on its way through the library.\<close>

definition host_code :: "int \<Rightarrow> int" where
  "host_code rc = (if rc = NOT_COMPILED_IN \<or> rc = CRYPTOCB_UNAVAILABLE then NO_VALID_DEVID else rc)"

definition device_failure ::
  "('c, 'h) zt_hpke_bridge \<Rightarrow> byte list \<Rightarrow> byte list \<Rightarrow> 'h zt_world \<Rightarrow> bool \<Rightarrow> int \<Rightarrow> 'h zt_world \<Rightarrow> bool" where
  "device_failure b bs pt w0 ok r w \<longleftrightarrow>
     zt_rc b pt (host w0) \<noteq> 0 \<and> r = host_code (zt_rc b pt (host w0)) \<and> asked b pt w0 w \<or>
     r = ECC_BAD_ARG_E \<and> \<not> ok \<and> before bs w0 w"

lemma length_written [simp]: "length (written out bs) = length out"
  by (simp add: written_def)

lemma zt_import:
  assumes "point bs" "key_fresh k0"
  obtains k where "wc_ecc_import_x963_ex (Buf bs) k0 ECC_SECP256R1 = (0, k)"
    "p256_public k" "x963 k = bs" "key_devId k = key_devId k0" "key_devCtx k = key_devCtx k0"
proof -
  define xs ys where "xs = take 32 (tl bs)" and "ys = drop 32 (tl bs)"
  have xy: "length xs = 32" "length ys = 32" "bs = 4 # xs @ ys"
    using assms(1) by (cases bs; simp add: xs_def ys_def point_def)+
  obtain k where "wc_ecc_import_x963_ex (Buf (4 # xs @ ys)) k0 ECC_SECP256R1 = (0, k)"
      "key_devId k = key_devId k0" "key_devCtx k = key_devCtx k0"
    using import_x963_p256 [of k0 xs ys] assms(2) xy by (auto simp: key_fresh_def key_good_shape)
  then show thesis
    using import_x963_bytes [OF assms(2), of bs] assms(1) that xy(3) by (auto simp: point_def)
qed

lemma zt_key:
  assumes "point bs"
  shows "wc_ecc_import_x963_ex (Buf bs) ((snd (wc_ecc_init_ex ZT_HPKE_DEVID))\<lparr>key_devCtx := Some b\<rparr>) ECC_SECP256R1 = (0, zt_key b bs)"
    "p256_public (zt_key b bs)" "x963 (zt_key b bs) = bs" "key_devId (zt_key b bs) = ZT_HPKE_DEVID" "key_devCtx (zt_key b bs) = Some b"
proof -
  let ?k0 = "(snd (wc_ecc_init_ex ZT_HPKE_DEVID))\<lparr>key_devCtx := Some b\<rparr>"
  obtain k0 :: "('a, 'b) zt_hpke_bridge ecc_key" where "wc_ecc_init_ex ZT_HPKE_DEVID = (0, k0)" "key_fresh k0" "key_devId k0 = ZT_HPKE_DEVID"
    using init_ex_ok by blast
  then have "key_fresh ?k0" "key_devId ?k0 = ZT_HPKE_DEVID" by (auto simp: key_fresh_def key_good_def)
  then obtain k where "wc_ecc_import_x963_ex (Buf bs) ?k0 ECC_SECP256R1 = (0, k)"
    "p256_public k" "x963 k = bs" "key_devId k = ZT_HPKE_DEVID" "key_devCtx k = Some b"
    using zt_import [OF assms, of ?k0] by auto
  then show "wc_ecc_import_x963_ex (Buf bs) ?k0 ECC_SECP256R1 = (0, zt_key b bs)"
    "p256_public (zt_key b bs)" "x963 (zt_key b bs) = bs" "key_devId (zt_key b bs) = ZT_HPKE_DEVID" "key_devCtx (zt_key b bs) = Some b"
    by (auto simp: zt_key_def)
qed

lemma leaves_callback:
  fixes h :: "'h zt_world env" and q :: "('c, 'h) zt_hpke_bridge ecc_key"
  assumes k: "p256_public k" "key_devCtx k = Some b" and q: "p256_public q"
  shows "leaves (\<lambda>_. 0) h (zt_ecdh_callback devId (ecdh_request k q (zeros 32) 32) ctx)
    (\<lambda>(r, info) w. \<exists>o' n'. ecdh_out info = Some o' \<and> ecdh_outlen info = Some n' \<and>
       (w = world h \<and> r = ECC_BAD_ARG_E \<and> \<not> alloc_ok h \<or>
        w = (world h)\<lparr>host := zt_after b (x963 q) (host (world h))\<rparr> \<and> r = zt_rc b (x963 q) (host (world h)) \<and>
        (r = 0 \<longrightarrow> o' = zt_dh b (x963 q) (host (world h)) \<and> n' = 32)))"
proof -
  have d: "key_dp k = Some set_secp256r1" "key_dp q = Some set_secp256r1" using k(1) q by (simp_all add: p256_public_def p256_key_def)
  have i: "set_id set_secp256r1 = ECC_SECP256R1" by (simp add: set_secp256r1_def)
  have z: "x963 q = blit (zeros 65) 0 (x963 q)" using q by (simp add: blit_def x963_def)
  show ?thesis
  proof (cases "bridge_agree b")
    case None
    then show ?thesis using d i k(2)
      by (auto simp: zt_ecdh_callback_def zt_after_def zt_rc_def zt_answer_def rc_defs intro!: leaves_ret)
  next
    case (Some agree)
    then show ?thesis
      using d i k(2)
      apply (simp add: zt_ecdh_callback_def zeros_def [symmetric] del: State_Monad.bind_assoc)
      apply (rule leaves_bind [OF leaves_clean [OF clean_export_x963 [OF q]]])
        apply simp_all [2]
      apply (clarsimp split del: if_split simp del: State_Monad.bind_assoc)
      subgoal for r o' n' h'
        apply (cases "r = 0")
         apply (clarsimp simp: rc_defs z [symmetric] simp del: State_Monad.bind_assoc split del: if_split)
         apply (rule leaves_bind [OF leaves_on_host])
         apply (auto simp: zt_after_def zt_rc_def zt_dh_def zt_answer_def Let_def rc_defs intro!: leaves_ret split: prod.splits) [1]
        apply (auto simp: intro!: leaves_ret)
        done
      done
  qed
qed


lemma callback_agrees:
  fixes b :: "('c, 'h) zt_hpke_bridge"
  assumes w: "before bs w0 (world h)" and q: "p256_public q" "x963 q = pt"
  shows "leaves (\<lambda>_. 0) h (wc_ecc_shared_secret zt_call ((zt_key b bs)\<lparr>key_rng := g\<rparr>) q (zeros 32) 32)
    (\<lambda>(r, out, n) w. if r = 0 then answered b pt w0 w \<and> out = zt_dh b pt (host w0) \<and> n = 32
       else device_failure b bs pt w0 (alloc_ok h) r w)"
proof -
  let ?k = "(zt_key b bs)\<lparr>key_rng := g\<rparr>"
  obtain t where t: "point bs" "registered w0" "world h = w0\<lparr>os_time := t\<rparr>" using w by (auto simp: before_def)
  note k = zt_key [OF t(1), of b]
  have p: "p256_public ?k" "key_devCtx ?k = Some b" using k by (simp_all add: p256_public_def p256_key_def key_good_def)
  have v: "dev_view (gCryptoDev (world h)) (key_devId ?k) = Some (Some Zt_ecdh_callback, None)"
    using t k by (simp add: registered_def)
  show ?thesis
    apply (rule leaves_shared_secret [OF v])
    apply (unfold zt_call.simps)
    apply (rule leaves_conseq [OF leaves_callback [OF p q(1)]])
    apply (clarsimp simp: q t(3))
    apply (auto simp: before_def asked_def answered_def device_failure_def host_code_def t rc_defs)
    done
qed

lemma forget_time: "(\<exists>u. w\<lparr>os_time := t\<rparr> = w0\<lparr>os_time := u\<rparr>) \<longleftrightarrow> (\<exists>u. w = w0\<lparr>os_time := u\<rparr>)" for w w0 :: "'h zt_world"
  by (cases w; cases w0) auto

interpretation zt: kem_device zt_call "zt_key b bs" pt "zt_dh b pt (host w0)" "before bs w0" "answered b pt w0" "device_failure b bs pt w0"
  for b :: "('c, 'h) zt_hpke_bridge" and bs pt :: "byte list" and w0 :: "'h zt_world"
proof
  have b: "before bs w0 (w\<lparr>os_time := t\<rparr>) = before bs w0 w" for w t
    by (simp add: before_def forget_time)
  have a: "asked b pt w0 (w\<lparr>os_time := t\<rparr>) = asked b pt w0 w" for w t
    by (cases w; cases w0) (auto simp: asked_def)
  show "before bs w0 (w\<lparr>os_time := t\<rparr>) = before bs w0 w"
    "answered b pt w0 (w\<lparr>os_time := t\<rparr>) = answered b pt w0 w"
    "device_failure b bs pt w0 ok r (w\<lparr>os_time := t\<rparr>) = device_failure b bs pt w0 ok r w" for w t ok r
    by (simp_all add: a b answered_def device_failure_def)
  show "length (zt_dh b pt (host w0)) = 32" by (simp add: zt_dh_def)
  show "key_devId (zt_key b bs) \<noteq> INVALID_DEVID" if "before bs w0 w" for w
    using that zt_key(4) [of bs b] by (auto simp: before_def ZT_HPKE_DEVID_def INVALID_DEVID_def)
qed (rule callback_agrees)

section \<open>The registration as an invariant\<close>

text \<open>The library is loaded, and the flag and the table agree: no device but the bridge's is ever registered.\<close>

definition zt_inv :: "'h zt_world \<Rightarrow> bool" where
  "zt_inv w \<longleftrightarrow> dev_wf (gCryptoDev w) \<and>
     dev_view (gCryptoDev w) =
       (if zt_device_registered w = 0 then Map.empty else [ZT_HPKE_DEVID \<mapsto> (Some Zt_ecdh_callback, None)]) \<and>
     wolfcrypt_init_state w = in_use 1"

definition zt_ready :: "'h zt_world \<Rightarrow> 'h zt_world" where
  "zt_ready w =
     (if zt_device_registered w = 0
      then w\<lparr>gCryptoDev := snd (wc_CryptoCb_RegisterDevice ZT_HPKE_DEVID (Some Zt_ecdh_callback) None (gCryptoDev w)),
             zt_device_registered := 1\<rparr>
      else w)"

lemma devid_valid: "ZT_HPKE_DEVID \<noteq> INVALID_DEVID"
  by (simp add: ZT_HPKE_DEVID_def INVALID_DEVID_def)

lemma register_first:
  assumes "dev_wf g" "dev_view g = Map.empty"
  shows "\<exists>g'. wc_CryptoCb_RegisterDevice ZT_HPKE_DEVID (Some Zt_ecdh_callback) None g = (0, g') \<and>
    dev_wf g' \<and> dev_view g' = [ZT_HPKE_DEVID \<mapsto> (Some Zt_ecdh_callback, None)]"
  using devs.reg_accepts [OF assms(1) devid_valid, of "(Some Zt_ecdh_callback, None)"]
    devs.reg_inv [OF assms(1), of ZT_HPKE_DEVID "(Some Zt_ecdh_callback, None)"] assms(2)
  by (intro exI [of _ "snd (wc_CryptoCb_RegisterDevice ZT_HPKE_DEVID (Some Zt_ecdh_callback) None g)"])
     (simp add: prod_eq_iff)

lemma zt_ready:
  assumes "zt_inv w"
  shows "zt_inv (zt_ready w)" "registered (zt_ready w)" "host (zt_ready w) = host w" "zt_device_registered (zt_ready w) \<noteq> 0"
  using assms register_first [of "gCryptoDev w"] by (auto simp: zt_inv_def zt_ready_def registered_def)

lemma leaves_init:
  assumes "zt_inv (world h)"
  shows "leaves (\<lambda>_. 0) h zt_hpke_init (\<lambda>r w. r = 0 \<and> w = zt_ready (world h))"
  using assms register_first [of "gCryptoDev (world h)"]
  by (auto simp: leaves_def zt_hpke_init_def wp_def on_world_def hframe_def zt_inv_def zt_ready_def split: prod.splits)

lemma zt_inv_time: "zt_inv (w\<lparr>os_time := t\<rparr>) = zt_inv w" "zt_inv (w\<lparr>os_time := t, host := s\<rparr>) = zt_inv w"
  by (simp_all add: zt_inv_def)

section \<open>What opening does\<close>

definition key_format_code :: "byte list \<Rightarrow> int" where
  "key_format_code bs = (if hd bs = 2 \<or> hd bs = 3 then NOT_COMPILED_IN else ASN_PARSE_E)"

text \<open>The answers of \<open>zt_hpke_open\<close> to arguments that pass its checks, with the state of the host
  afterwards: \<open>ok\<close> says that no allocation fails.\<close>

inductive open_spec ::
  "('c, 'h) zt_hpke_bridge \<Rightarrow> byte list \<Rightarrow> byte list \<Rightarrow> byte list \<Rightarrow> byte list \<Rightarrow> byte list \<Rightarrow> byte list \<Rightarrow> bool \<Rightarrow> 'h \<Rightarrow>
   int \<Rightarrow> byte list \<Rightarrow> 'h \<Rightarrow> bool"
  for b pk enc ct info aad pt ok s where
  opened: "\<lbrakk>point pk; point enc; zt_rc b enc s = 0; length info \<le> 486;
      OpenBase 1 16 (zt_dh b enc s) enc pk info aad ct = Some p; out = blit pt 0 p\<rbrakk> \<Longrightarrow>
    open_spec b pk enc ct info aad pt ok s 0 out (zt_after b enc s)"
| forged: "\<lbrakk>point pk; point enc; zt_rc b enc s = 0;
      OpenBase 1 16 (zt_dh b enc s) enc pk info aad ct = None; out = blit pt 0 (zeros (length ct - 16))\<rbrakk> \<Longrightarrow>
    open_spec b pk enc ct info aad pt ok s AES_GCM_AUTH_E out (zt_after b enc s)"
| info_long: "\<lbrakk>point pk; point enc; zt_rc b enc s = 0; length info > 486\<rbrakk> \<Longrightarrow>
    open_spec b pk enc ct info aad pt ok s BUFFER_E pt (zt_after b enc s)"
| refused: "\<lbrakk>point pk; point enc; zt_rc b enc s \<noteq> 0\<rbrakk> \<Longrightarrow>
    open_spec b pk enc ct info aad pt ok s (host_code (zt_rc b enc s)) pt (zt_after b enc s)"
| bad_recipient: "\<not> point pk \<Longrightarrow> open_spec b pk enc ct info aad pt ok s (key_format_code pk) pt s"
| bad_enc: "\<lbrakk>point pk; \<not> point enc; bad_point ok r\<rbrakk> \<Longrightarrow> open_spec b pk enc ct info aad pt ok s r pt s"
| no_random: "point pk \<Longrightarrow> point enc \<Longrightarrow> open_spec b pk enc ct info aad pt ok s RNG_FAILURE_E pt s"
| no_memory: "\<lbrakk>point pk; point enc; \<not> ok; r = MEMORY_E \<or> r = ECC_BAD_ARG_E; s' = s \<or> s' = zt_after b enc s\<rbrakk> \<Longrightarrow>
    open_spec b pk enc ct info aad pt ok s r pt s'"

inductive_cases open_specE: "open_spec b pk enc ct info aad pt ok s r out s'"

lemma open_argsD:
  assumes "zt_open_args (Some b) (Buf pk) (Buf enc) (Buf ct) (Buf info) (Buf aad) (Some pt) = 0"
  shows "length pk = 65" "length enc = 65" "17 \<le> length ct" "length ct - 16 \<le> length pt" "info \<noteq> []" "aad \<noteq> []" "info \<noteq> aad"
    "length ct < 2 ^ 32" "length info < 2 ^ 32" "length aad < 2 ^ 32"
  using assms by (auto simp: zt_open_args_def rc_defs split: if_splits)

lemma suite_bridge:
  obtains hp where "wc_HpkeInit hpke_zeroed DHKEM_P256_HKDF_SHA256 HKDF_SHA256 HPKE_AES_128_GCM = (0, hp)" "suite_ok 1 hp" "Nk hp = 16"
proof -
  obtain hp where hp: "wc_HpkeInit hpke_zeroed DHKEM_P256_HKDF_SHA256 HKDF_SHA256 1 = (0, hp)" "suite_ok (word_of_int 1) hp"
    by (rule HpkeInit_ok [of 1 hpke_zeroed]) simp
  then show thesis using that by (simp add: suite_ok_def)
qed


lemma leaves_tail:
  assumes "leaves (\<lambda>_. 0) h m P"
  shows "leaves (\<lambda>_. 0) h (do { (r, x) \<leftarrow> m; end_of_life a; end_of_life c; ret (r, f r x) }) (\<lambda>(r, y) w. \<exists>x. y = f r x \<and> P (r, x) w)"
  by (rule leaves_bind [OF assms])
     (auto intro!: leaves_bind [OF leaves_end_of_life] leaves_ret)

lemma import_bad:
  assumes "\<not> point bs" "length bs = 65"
  shows "fst (wc_ecc_import_x963_ex (Buf bs) key ECC_SECP256R1) = key_format_code bs"
  using assms import_x963_other [of "hd bs" "tl bs" key] by (cases bs) (auto simp: point_def key_format_code_def)

lemma key_format_code_nonzero: "key_format_code bs \<noteq> 0"
  by (simp add: key_format_code_def rc_defs)

lemma open_base:
  fixes b :: "('c, 'h) zt_hpke_bridge"
  assumes w: "zt_inv (world h)" "registered (world h)"
    and l: "length enc = 65" "17 \<le> length ct" "length ct - 16 \<le> length pt" "length ct < 2 ^ 32" "length aad < 2 ^ 32"
    and hp: "suite_ok 1 hp" "Nk hp = 16" and p: "point pk"
  shows "leaves (\<lambda>_. 0) h (wc_HpkeOpenBase zt_call hp (zt_key b pk) (Buf enc) (Buf info) (Buf aad) ct (length ct - 16) pt)
    (\<lambda>(r, x) w. zt_inv w \<and> zt_device_registered w = zt_device_registered (world h) \<and>
       open_spec b pk enc ct info aad pt (alloc_ok h) (host (world h)) r x (host w))"
proof (cases "point enc")
  case False
  show ?thesis
    by (rule leaves_conseq [OF unseal_bad [OF hp(1) l(1)]])
       (use False l w p in \<open>auto simp: point_def intro: bad_enc\<close>)
next
  case True
  have x: "x963 (zt_key b pk) = pk" "p256_public (zt_key b pk)" using zt_key [OF p] by auto
  have 1: "before pk (world h) (world h)"
    using p w(2) by (auto simp: before_def intro: exI [of _ "os_time (world h)"])
  have e: "length enc = 65" "hd enc = 4" using True by (auto simp: point_def)
  show ?thesis
    apply (rule leaves_conseq [OF zt.unseal [OF hp(1) 1 x(2) e]])
         apply (use l in \<open>auto simp: aad_ok_def gcm_fits_def\<close>) [5]
    apply (clarsimp simp: zt.outcome_def x hp split del: if_split)
    subgoal for r out w
      apply (cases "r = 0")
       apply (auto simp: answered_def asked_def zt_inv_time w intro: opened [OF p True]) [1]
      apply (auto simp: answered_def asked_def before_def device_failure_def zt_inv_time w
        intro: forged [OF p True] info_long [OF p True] refused [OF p True] no_random [OF p True] no_memory [OF p True])
      done
    done
qed

lemma leaves_open:
  fixes b :: "('c, 'h) zt_hpke_bridge"
  assumes inv: "zt_inv (world h)" and a: "zt_open_args (Some b) (Buf pk) (Buf enc) (Buf ct) (Buf info) (Buf aad) (Some pt) = 0"
  shows "leaves (\<lambda>_. 0) h (zt_hpke_open (Some b) (Buf pk) (Buf enc) (Buf ct) (Buf info) (Buf aad) (Some pt))
    (\<lambda>(r, out) w. zt_inv w \<and> zt_device_registered w \<noteq> 0 \<and>
       (\<exists>x. out = Some x \<and> open_spec b pk enc ct info aad pt (alloc_ok h) (host (world h)) r x (host w)))"
proof -
  obtain hp where hp: "wc_HpkeInit hpke_zeroed DHKEM_P256_HKDF_SHA256 HKDF_SHA256 HPKE_AES_128_GCM = (0, hp)" "suite_ok 1 hp" "Nk hp = 16"
    by (rule suite_bridge)
  obtain k0 :: "('c, 'h) zt_hpke_bridge ecc_key" where k0: "wc_ecc_init_ex ZT_HPKE_DEVID = (0, k0)" using init_ex_ok by blast
  let ?k = "k0\<lparr>key_devCtx := Some b\<rparr>"
  obtain r k where k: "wc_ecc_import_x963_ex (Buf pk) ?k ECC_SECP256R1 = (r, k)" by force
  note d = open_argsD [OF a]
  have m: "leaves (\<lambda>_. 0) g
       (if r = 0 then wc_HpkeOpenBase zt_call hp k (Buf enc) (Buf info) (Buf aad) ct (length ct - 16) pt else ret (r, pt))
       (\<lambda>(r, x) w. zt_inv w \<and> zt_device_registered w \<noteq> 0 \<and>
          open_spec b pk enc ct info aad pt (alloc_ok h) (host (world h)) r x (host w))"
    if g: "world g = zt_ready (world h)" "alloc_ok g = alloc_ok h" for g
  proof (cases "point pk")
    case True
    then have "r = 0" "k = zt_key b pk" using zt_key(1) [OF True, of b] k k0 by simp_all
    then show ?thesis
      using open_base [of g enc ct pt aad hp pk b info] zt_ready [OF inv] d hp True g
      by (auto elim!: leaves_conseq)
  next
    case False
    then have "r = key_format_code pk" using import_bad [OF False d(1), of ?k] k by simp
    then show ?thesis using zt_ready [OF inv] g False key_format_code_nonzero [of pk] by (auto intro!: leaves_ret intro: bad_recipient)
  qed
  show ?thesis
    unfolding zt_hpke_open_def a hp(1) k0 Let_def prod.case k option.sel cbytes.simps csize.simps
    apply (simp del: State_Monad.bind_assoc split del: if_split)
    apply (rule leaves_bind [OF leaves_init [OF inv]])
    apply (clarsimp simp del: State_Monad.bind_assoc split del: if_split)
    apply (rule leaves_conseq [OF leaves_tail [OF m]])
    apply auto
    done
qed

section \<open>What sealing does\<close>

text \<open>The answers of \<open>zt_hpke_seal_cek\<close> to arguments that pass its checks. Whatever the failure, the 48
  bytes of the output are zero.\<close>

inductive seal_spec ::
  "('c, 'h) zt_hpke_bridge \<Rightarrow> byte list \<Rightarrow> byte list \<Rightarrow> byte list \<Rightarrow> byte list \<Rightarrow> byte list \<Rightarrow> byte list \<Rightarrow> bool \<Rightarrow> 'h \<Rightarrow>
   int \<Rightarrow> byte list \<Rightarrow> 'h \<Rightarrow> bool"
  for b eph pk cek info aad ct ok s where
  sealed: "\<lbrakk>point eph; point pk; zt_rc b pk s = 0; length info \<le> 486;
      out = SealBase 1 16 (zt_dh b pk s) eph pk info aad cek @ drop 48 ct\<rbrakk> \<Longrightarrow>
    seal_spec b eph pk cek info aad ct ok s 0 out (zt_after b pk s)"
| seal_info_long: "\<lbrakk>point eph; point pk; zt_rc b pk s = 0; length info > 486; out = zeros 48 @ drop 48 ct\<rbrakk> \<Longrightarrow>
    seal_spec b eph pk cek info aad ct ok s BUFFER_E out (zt_after b pk s)"
| seal_refused: "\<lbrakk>point eph; point pk; zt_rc b pk s \<noteq> 0; out = zeros 48 @ drop 48 ct\<rbrakk> \<Longrightarrow>
    seal_spec b eph pk cek info aad ct ok s (host_code (zt_rc b pk s)) out (zt_after b pk s)"
| seal_bad_point: "\<lbrakk>\<not> point eph \<or> \<not> point pk; r = key_format_code (if point eph then pk else eph); out = zeros 48 @ drop 48 ct\<rbrakk> \<Longrightarrow>
    seal_spec b eph pk cek info aad ct ok s r out s"
| seal_no_random: "\<lbrakk>point eph; point pk; out = zeros 48 @ drop 48 ct\<rbrakk> \<Longrightarrow>
    seal_spec b eph pk cek info aad ct ok s RNG_FAILURE_E out s"
| seal_no_memory: "\<lbrakk>point eph; point pk; \<not> ok; r = MEMORY_E \<or> r = ECC_BAD_ARG_E; s' = s \<or> s' = zt_after b pk s;
      out = zeros 48 @ drop 48 ct\<rbrakk> \<Longrightarrow>
    seal_spec b eph pk cek info aad ct ok s r out s'"

inductive_cases seal_specE: "seal_spec b eph pk cek info aad ct ok s r out s'"

lemma seal_argsD:
  assumes "zt_seal_args (Some b) (Buf eph) (Buf pk) (Buf cek) (Buf info) (Buf aad) (Some ct) = 0"
  shows "length eph = 65" "length pk = 65" "length cek = 32" "48 \<le> length ct" "info \<noteq> []" "aad \<noteq> []" "info \<noteq> aad"
    "length info \<le> 1024" "length aad \<le> 1024"
  using assms by (auto simp: zt_seal_args_def rc_defs split: if_splits)

lemma base_usable:
  "length aad < 2 ^ 32 \<Longrightarrow>
   gcm_usable (fst (KeyScheduleBase 1 16 ss info)) (ComputeNonce (fst (snd (KeyScheduleBase 1 16 ss info))) 0) aad"
proof -
  have "length (ComputeNonce (fst (snd (KeyScheduleBase 1 16 ss info))) 0) = 12" "length (fst (KeyScheduleBase 1 16 ss info)) = 16"
    by (simp_all add: KeyScheduleBase_def Let_def ComputeNonce_def)
  then show "length aad < 2 ^ 32 \<Longrightarrow> ?thesis" by (auto simp: gcm_usable_def)
qed

lemma length_SealBase: "length p < 2 ^ 32 \<Longrightarrow> length aad < 2 ^ 32 \<Longrightarrow> length (SealBase 1 16 dh enc pk info aad p) = length p + 16"
  using length_aes_gcm_seal [OF base_usable] by (simp add: SealBase_def split_def gcm_fits_def)

lemma OpenBase_SealBase:
  "length p < 2 ^ 32 \<Longrightarrow> length aad < 2 ^ 32 \<Longrightarrow> OpenBase 1 16 dh enc pk info aad (SealBase 1 16 dh enc pk info aad p) = Some p"
  using gcm.unseal_seal [OF base_usable] by (simp add: SealBase_def OpenBase_def split_def gcm_fits_def)

lemma OpenBase_only:
  "\<lbrakk>length c < 2 ^ 32; length aad < 2 ^ 32; OpenBase 1 16 dh enc pk info aad c = Some p\<rbrakk> \<Longrightarrow> c = SealBase 1 16 dh enc pk info aad p"
  using gcm.unseal_only [OF base_usable] by (simp add: SealBase_def OpenBase_def split_def gcm_fits_def)

lemma seal_base:
  fixes b :: "('c, 'h) zt_hpke_bridge" and q :: "('c, 'h) zt_hpke_bridge ecc_key"
  assumes w: "zt_inv (world h)" "registered (world h)"
    and l: "length cek = 32" "48 \<le> length ct" "length aad \<le> 1024"
    and hp: "suite_ok 1 hp" "Nk hp = 16" and p: "point eph" "point pk" and q: "p256_public q" "x963 q = pk"
  shows "leaves (\<lambda>_. 0) h (wc_HpkeSealBase zt_call hp (zt_key b eph) q (Buf info) (Buf aad) (Buf cek) (zeros 48 @ drop 48 ct))
    (\<lambda>(r, x) w. zt_inv w \<and> zt_device_registered w = zt_device_registered (world h) \<and>
       seal_spec b eph pk cek info aad ct (alloc_ok h) (host (world h)) r x (host w))"
proof -
  have x: "x963 (zt_key b eph) = eph" "p256_public (zt_key b eph)" using zt_key [OF p(1)] by auto
  have 1: "before eph (world h) (world h)"
    using p w(2) by (auto simp: before_def intro: exI [of _ "os_time (world h)"])
  have o: "blit (zeros 48 @ drop 48 ct) 0 (SealBase 1 16 d eph pk info aad cek) = SealBase 1 16 d eph pk info aad cek @ drop 48 ct" for d
    using length_SealBase [of cek aad d eph pk info] l by (simp add: blit_def)
  show ?thesis
    apply (rule leaves_conseq [OF zt.seal [OF hp(1) 1 x(2) q]])
        apply (use l in \<open>auto simp: aad_ok_def gcm_fits_def\<close>) [4]
    apply (clarsimp simp: zt.outcome_def x hp o split del: if_split)
    subgoal for r out w
      apply (cases "r = 0")
       apply (auto simp: answered_def asked_def zt_inv_time w intro: sealed [OF p]) [1]
      apply (auto simp: answered_def asked_def before_def device_failure_def zt_inv_time w
        intro: seal_info_long [OF p] seal_refused [OF p] seal_no_random [OF p] seal_no_memory [OF p])
      done
    done
qed

lemma seal_spec_failure: "seal_spec b eph pk cek info aad ct ok s r out s' \<Longrightarrow> r \<noteq> 0 \<Longrightarrow> ForceZero 0 out 48 = out"
  by (erule seal_specE) (auto simp: ForceZero_zeros)

lemma leaves_seal_keys:
  fixes b :: "('c, 'h) zt_hpke_bridge"
  assumes w: "zt_inv (world h)" "registered (world h)"
    and l: "length eph = 65" "length pk = 65" "length cek = 32" "48 \<le> length ct" "length aad \<le> 1024"
    and hp: "suite_ok 1 hp" "Nk hp = 16"
  shows "leaves (\<lambda>_. 0) h (zt_seal_keys hp (Some b) (Buf eph) (Buf pk) (Buf cek) (Buf info) (Buf aad) (zeros 48 @ drop 48 ct))
    (\<lambda>(r, x) w. zt_inv w \<and> zt_device_registered w = zt_device_registered (world h) \<and>
       seal_spec b eph pk cek info aad ct (alloc_ok h) (host (world h)) r x (host w))"
    (is "leaves _ _ _ ?Q")
proof -
  obtain k0 q0 :: "('c, 'h) zt_hpke_bridge ecc_key" where k0: "wc_ecc_init_ex ZT_HPKE_DEVID = (0, k0)"
    and q0: "wc_ecc_init_ex INVALID_DEVID = (0, q0)" "key_fresh q0" using init_ex_ok by meson
  let ?k = "k0\<lparr>key_devCtx := Some b\<rparr>"
  obtain r k where k: "wc_ecc_import_x963_ex (Buf eph) ?k ECC_SECP256R1 = (r, k)" by force
  obtain r' q where q: "(if r = 0 then wc_ecc_import_x963_ex (Buf pk) q0 ECC_SECP256R1 else (r, q0)) = (r', q)" by force
  have m: "leaves (\<lambda>_. 0) h (if r' = 0 then wc_HpkeSealBase zt_call hp k q (Buf info) (Buf aad) (Buf cek) (zeros 48 @ drop 48 ct)
      else ret (r', zeros 48 @ drop 48 ct)) ?Q"
  proof (cases "point eph \<and> point pk")
    case True
    then have r: "r = 0" "k = zt_key b eph" using zt_key(1) [of eph b] k k0 by simp_all
    then have "r' = 0" "p256_public q" "x963 q = pk" using True q zt_import [of pk q0] q0(2) by auto
    then show ?thesis using seal_base [OF w l(3-5) hp, of eph pk q b info] True r by simp
  next
    case False
    have "r' = key_format_code (if point eph then pk else eph)"
      using False import_bad [of eph ?k] import_bad [of pk q0] l k q zt_key(1) [of eph b] k0 key_format_code_nonzero [of eph]
      by (auto split: if_splits)
    then show ?thesis using key_format_code_nonzero False w by (auto intro!: leaves_ret intro: seal_bad_point)
  qed
  show ?thesis
    unfolding zt_seal_keys_def k0 q0(1) Let_def prod.case k q
    apply (simp only: simp_thms if_False)
    apply (rule leaves_conseq [OF leaves_tail [where f = "\<lambda>r x. x", OF m]])
    apply auto
    done
qed

lemma leaves_seal:
  fixes b :: "('c, 'h) zt_hpke_bridge"
  assumes inv: "zt_inv (world h)" and a: "zt_seal_args (Some b) (Buf eph) (Buf pk) (Buf cek) (Buf info) (Buf aad) (Some ct) = 0"
  shows "leaves (\<lambda>_. 0) h (zt_hpke_seal_cek (Some b) (Buf eph) (Buf pk) (Buf cek) (Buf info) (Buf aad) (Some ct))
    (\<lambda>(r, out) w. zt_inv w \<and> zt_device_registered w \<noteq> 0 \<and>
       (\<exists>x. out = Some x \<and> seal_spec b eph pk cek info aad ct (alloc_ok h) (host (world h)) r x (host w)))"
proof -
  obtain hp where hp: "wc_HpkeInit hpke_zeroed DHKEM_P256_HKDF_SHA256 HKDF_SHA256 HPKE_AES_128_GCM = (0, hp)" "suite_ok 1 hp" "Nk hp = 16"
    by (rule suite_bridge)
  note d = seal_argsD [OF a]
  have z: "blit ct 0 (zeros 48) = zeros 48 @ drop 48 ct" using d(4) by (simp add: blit_def)
  show ?thesis
    unfolding zt_hpke_seal_cek_def a hp(1) Let_def prod.case option.sel z
    apply (simp del: State_Monad.bind_assoc split del: if_split)
    apply (rule leaves_bind [OF leaves_init [OF inv]])
    apply (clarsimp simp del: State_Monad.bind_assoc split del: if_split)
    subgoal for h'
      apply (rule leaves_bind [OF leaves_seal_keys [OF _ _ d(1-4) d(9) hp(2,3)]])
        apply (use zt_ready [OF inv] in simp_all) [2]
      apply (clarsimp split del: if_split)
      apply (rule leaves_bind [OF leaves_end_of_life])
      apply (rule leaves_ret)
       apply (use zt_ready [OF inv] in \<open>auto simp: seal_spec_failure\<close>)
      done
    done
qed

section \<open>Histories\<close>

text \<open>The calls that the host makes, with any arguments.\<close>

datatype ('c, 'h) host_call =
    HostInit
  | HostDeinit
  | HostOpen "('c, 'h) zt_hpke_bridge option" cbuf cbuf cbuf cbuf cbuf "byte list option"
  | HostSeal "('c, 'h) zt_hpke_bridge option" cbuf cbuf cbuf cbuf cbuf "byte list option"

fun host_exec :: "('c, 'h) host_call \<Rightarrow> ('h zt_world, int) cmd" where
  "host_exec HostInit = zt_hpke_init"
| "host_exec HostDeinit = do { zt_hpke_deinit; ret 0 }"
| "host_exec (HostOpen b pk enc ct info aad pt) = do { (r, _) \<leftarrow> zt_hpke_open b pk enc ct info aad pt; ret r }"
| "host_exec (HostSeal b eph pk cek info aad ct) = do { (r, _) \<leftarrow> zt_hpke_seal_cek b eph pk cek info aad ct; ret r }"

inductive host_steps :: "'h zt_world env \<Rightarrow> (('c, 'h) host_call \<times> int) list \<Rightarrow> 'h zt_world env \<Rightarrow> bool" where
  host_refl: "host_steps h [] h"
| host_snoc: "host_steps h tr h' \<Longrightarrow> run_state (host_exec c) h' = (r, h'') \<Longrightarrow> host_steps h (tr @ [(c, r)]) h''"

inductive_simps host_steps_Nil [simp]: "host_steps h [] h'"

lemma leaves_deinit:
  assumes "zt_inv (world h)"
  shows "leaves (\<lambda>_. 0) h zt_hpke_deinit (\<lambda>_ w. zt_inv w \<and> zt_device_registered w = 0 \<and> host w = host (world h))"
  using assms devs.unreg_inv [of "gCryptoDev (world h)" ZT_HPKE_DEVID] devs.unreg_view [of "gCryptoDev (world h)" ZT_HPKE_DEVID]
  by (auto simp: leaves_def zt_hpke_deinit_def wp_def on_world_def hframe_def zt_inv_def fun_upd_idem)

lemma not_null: "\<not> is_null b \<Longrightarrow> \<exists>xs. b = Buf xs"
  by (cases b) auto

lemma leaves_open_any:
  assumes "zt_inv (world h)"
  shows "leaves (\<lambda>_. 0) h (zt_hpke_open b pk enc ct info aad pt) (\<lambda>_ w. zt_inv w)"
proof (cases "zt_open_args b pk enc ct info aad pt = 0")
  case True
  then obtain b' pk' enc' ct' info' aad' pt' where a: "b = Some b'" "pk = Buf pk'" "enc = Buf enc'" "ct = Buf ct'" "info = Buf info'" "aad = Buf aad'" "pt = Some pt'"
    using not_null by (force simp: zt_open_args_def BAD_FUNC_ARG_def split: if_splits)
  show ?thesis using True by (auto simp: a intro: leaves_conseq [OF leaves_open [OF assms]])
next
  case False
  then show ?thesis using assms by (simp add: zt_hpke_open_def Let_def leaves_ret)
qed

lemma leaves_seal_any:
  assumes "zt_inv (world h)"
  shows "leaves (\<lambda>_. 0) h (zt_hpke_seal_cek b eph pk cek info aad ct) (\<lambda>_ w. zt_inv w)"
proof (cases "zt_seal_args b eph pk cek info aad ct = 0")
  case True
  then obtain b' eph' pk' cek' info' aad' ct' where a: "b = Some b'" "eph = Buf eph'" "pk = Buf pk'" "cek = Buf cek'" "info = Buf info'" "aad = Buf aad'" "ct = Some ct'"
    using not_null by (force simp: zt_seal_args_def BAD_FUNC_ARG_def split: if_splits)
  show ?thesis using True by (auto simp: a intro: leaves_conseq [OF leaves_seal [OF assms]])
next
  case False
  then show ?thesis using assms by (simp add: zt_hpke_seal_cek_def Let_def leaves_ret)
qed

lemma leaves_host_exec:
  assumes "zt_inv (world h)"
  shows "leaves (\<lambda>_. 0) h (host_exec c) (\<lambda>r w. zt_inv w \<and> (c = HostInit \<or> c = HostDeinit \<longrightarrow> r = 0))"
proof (cases c)
  case HostInit
  then show ?thesis using assms zt_ready(1) by (auto intro: leaves_conseq [OF leaves_init])
next
  case HostDeinit
  then show ?thesis using assms by (auto intro!: leaves_bind [OF leaves_deinit] leaves_ret)
next
  case HostOpen
  then show ?thesis using assms by (auto intro!: leaves_bind [OF leaves_open_any] leaves_ret)
next
  case HostSeal
  then show ?thesis using assms by (auto intro!: leaves_bind [OF leaves_seal_any] leaves_ret)
qed

lemma host_steps_inv:
  "host_steps h tr h' \<Longrightarrow> zt_inv (world h) \<Longrightarrow>
   zt_inv (world h') \<and> hp_live h' = hp_live h \<and> (\<forall>(c, r) \<in> set tr. c = HostInit \<or> c = HostDeinit \<longrightarrow> r = 0)"
proof (induction rule: host_steps.induct)
  case (host_snoc h tr h' c r h'')
  then have "zt_inv (world h')" by simp
  from leaves_run [OF leaves_host_exec [OF this] host_snoc.hyps(2)] show ?case using host_snoc.IH host_snoc.prems by auto
qed simp


section \<open>Properties\<close>

text \<open>A host for the witnesses: it counts its calls and always agrees on the same value.\<close>

definition demo_bridge :: "(unit, nat) zt_hpke_bridge" where
  "demo_bridge = \<lparr>bridge_agree = Some (\<lambda>_ _. State (\<lambda>n. ((0, replicate 32 9), Suc n))), bridge_ctx = ()\<rparr>"

definition demo_zt :: "nat zt_world env" where
  "demo_zt = env0 (wc_world.extend (demo_world (wc_CryptoCb_Init devices_static)) \<lparr>zt_device_registered = 0, wolfcrypt_init_state = in_use 1, host = 0\<rparr>)"

definition demo_point :: "byte list" where
  "demo_point = 4 # replicate 64 7"

lemma demo_zt_inv: "zt_inv (world demo_zt)" "alloc_ok demo_zt" "host (world demo_zt) = 0"
  using Init_wf [of "devices_static :: zt_callback devices"]
  by (simp_all add: demo_zt_def zt_inv_def env0_def alloc_ok_def wc_world.defs demo_world_def devices_static_def)

lemma demo_args:
  "zt_open_args (Some demo_bridge) (Buf demo_point) (Buf demo_point) (Buf (zeros 48)) (Buf [1]) (Buf [2]) (Some (zeros 32)) = 0"
  "zt_seal_args (Some demo_bridge) (Buf demo_point) (Buf demo_point) (Buf (zeros 32)) (Buf [1]) (Buf [2]) (Some (zeros 48)) = 0"
  by (simp_all add: zt_open_args_def zt_seal_args_def demo_point_def demo_bridge_def)

lemma demo_answer: "zt_rc demo_bridge pt n = 0" "zt_dh demo_bridge pt n = replicate 32 9" "zt_after demo_bridge pt n = Suc n"
  by (simp_all add: zt_rc_def zt_dh_def zt_after_def zt_answer_def demo_bridge_def written_def)

lemma shared_secret_unavailable:
  fixes b :: "('c, 'h) zt_hpke_bridge"
  assumes "registered (world h)" "point bs" "p256_public q" "alloc_ok h"
    "zt_rc b (x963 q) (host (world h)) = CRYPTOCB_UNAVAILABLE"
    "run_state (wc_ecc_shared_secret zt_call (zt_key b bs) q (zeros 32) 32) h = ((r, out, n), h')"
  shows "r = NO_VALID_DEVID"
proof -
  have "before bs (world h) (world h)"
    using assms(1,2) by (auto simp: before_def intro!: exI [of _ "os_time (world h)"])
  from leaves_run(1) [OF callback_agrees [OF this assms(3) refl, where b = b and g = "key_rng (zt_key b bs)"]] assms(4-6)
  show ?thesis by (fastforce simp: answered_def device_failure_def host_code_def rc_defs split: if_splits)
qed

text \<open>C1: Opening an envelope does what the abstract description \<open>open_spec\<close> says, on every branch: for
  arguments that pass its checks, \<open>zt_hpke_open\<close> asks the host for one key agreement, answers 0
  with the plaintext of RFC 9180 \<open>OpenBase\<close> when the tag is right, \<open>AES_GCM_AUTH_E\<close> with the
  plaintext area zeroed when it is not, passes a failure of the host on, leaves the output alone on
  every other failure (a malformed key, too long an info, no random generator, no memory), and
  releases every block it has allocated.\<close>

theorem zt_open_refines:
  assumes "zt_inv (world h)" "zt_open_args (Some b) (Buf pk) (Buf enc) (Buf ct) (Buf info) (Buf aad) (Some pt) = 0"
    "run_state (zt_hpke_open (Some b) (Buf pk) (Buf enc) (Buf ct) (Buf info) (Buf aad) (Some pt)) h = ((r, out), h')"
  shows "zt_inv (world h') \<and> zt_device_registered (world h') \<noteq> 0 \<and> hp_live h' = hp_live h \<and>
    (\<exists>x. out = Some x \<and> open_spec b pk enc ct info aad pt (alloc_ok h) (host (world h)) r x (host (world h')))"
  using leaves_run [OF leaves_open [OF assms(1,2)] assms(3)] by simp

theorem zt_open_refines_witness:
  "\<exists>r x h'. run_state (zt_hpke_open (Some demo_bridge) (Buf demo_point) (Buf demo_point) (Buf (zeros 48)) (Buf [1]) (Buf [2])
       (Some (zeros 32))) demo_zt = ((r, Some x), h') \<and>
     zt_inv (world h') \<and> open_spec demo_bridge demo_point demo_point (zeros 48) [1] [2] (zeros 32) True 0 r x (host (world h'))"
proof -
  let ?m = "zt_hpke_open (Some demo_bridge) (Buf demo_point) (Buf demo_point) (Buf (zeros 48)) (Buf [1]) (Buf [2]) (Some (zeros 32))"
  obtain r out h' where "run_state ?m demo_zt = ((r, out), h')" by (metis surj_pair)
  then show ?thesis using zt_open_refines [OF demo_zt_inv(1) demo_args(1)] by (fastforce simp: demo_zt_inv)
qed

text \<open>C2: Sealing a content key does what \<open>seal_spec\<close> says: for arguments that pass its checks,
  \<open>zt_hpke_seal_cek\<close> answers 0 with the 48 bytes of RFC 9180 \<open>SealBase\<close> under the value that the
  host has agreed on, and after every failure the 48 bytes of the output are zero; it asks the
  host at most once and releases every block it has allocated.\<close>

theorem zt_seal_refines:
  assumes "zt_inv (world h)" "zt_seal_args (Some b) (Buf eph) (Buf pk) (Buf cek) (Buf info) (Buf aad) (Some ct) = 0"
    "run_state (zt_hpke_seal_cek (Some b) (Buf eph) (Buf pk) (Buf cek) (Buf info) (Buf aad) (Some ct)) h = ((r, out), h')"
  shows "zt_inv (world h') \<and> zt_device_registered (world h') \<noteq> 0 \<and> hp_live h' = hp_live h \<and>
    (\<exists>x. out = Some x \<and> seal_spec b eph pk cek info aad ct (alloc_ok h) (host (world h)) r x (host (world h')))"
  using leaves_run [OF leaves_seal [OF assms(1,2)] assms(3)] by simp

theorem zt_seal_refines_witness:
  "\<exists>r x h'. run_state (zt_hpke_seal_cek (Some demo_bridge) (Buf demo_point) (Buf demo_point) (Buf (zeros 32)) (Buf [1]) (Buf [2])
       (Some (zeros 48))) demo_zt = ((r, Some x), h') \<and>
     zt_inv (world h') \<and> seal_spec demo_bridge demo_point demo_point (zeros 32) [1] [2] (zeros 48) True 0 r x (host (world h'))"
proof -
  let ?m = "zt_hpke_seal_cek (Some demo_bridge) (Buf demo_point) (Buf demo_point) (Buf (zeros 32)) (Buf [1]) (Buf [2]) (Some (zeros 48))"
  obtain r out h' where "run_state ?m demo_zt = ((r, out), h')" by (metis surj_pair)
  then show ?thesis using zt_seal_refines [OF demo_zt_inv(1) demo_args(2)] by (fastforce simp: demo_zt_inv)
qed

text \<open>C3: Nothing but a sealed message opens. When \<open>zt_hpke_open\<close> answers 0, the ciphertext is exactly
  \<open>SealBase\<close> of the plaintext it has written, under the agreed value, the recipient's key, the info
  and the additional data of the call; otherwise the output is the caller's, or zeroed.\<close>

theorem open_only_authentic:
  assumes "zt_inv (world h)" "zt_open_args (Some b) (Buf pk) (Buf enc) (Buf ct) (Buf info) (Buf aad) (Some pt) = 0"
    "run_state (zt_hpke_open (Some b) (Buf pk) (Buf enc) (Buf ct) (Buf info) (Buf aad) (Some pt)) h = ((r, out), h')"
  shows "if r = 0
    then \<exists>p. ct = SealBase 1 16 (zt_dh b enc (host (world h))) enc pk info aad p \<and> out = Some (p @ drop (length p) pt)
    else out = Some pt \<or> out = Some (zeros (length ct - 16) @ drop (length ct - 16) pt)"
proof -
  note d = open_argsD [OF assms(2)]
  obtain x where x: "out = Some x" "open_spec b pk enc ct info aad pt (alloc_ok h) (host (world h)) r x (host (world h'))"
    using leaves_run(1) [OF leaves_open [OF assms(1,2)] assms(3)] by auto
  have o: "\<exists>p'. ct = SealBase 1 16 (zt_dh b enc (host (world h))) enc pk info aad p' \<and> p @ drop (length p) pt = p' @ drop (length p') pt"
    if "OpenBase 1 16 (zt_dh b enc (host (world h))) enc pk info aad ct = Some p" for p
    using OpenBase_only [OF d(8,10) that] by blast
  from x(2) show ?thesis
    by (cases rule: open_spec.cases) (use x(1) d o in \<open>auto simp: blit_def rc_defs host_code_def key_format_code_def bad_point_def\<close>)
qed

theorem open_only_authentic_witness:
  "\<exists>r out h'. run_state (zt_hpke_open (Some demo_bridge) (Buf demo_point) (Buf demo_point) (Buf (zeros 48)) (Buf [1]) (Buf [2])
       (Some (zeros 32))) demo_zt = ((r, out), h') \<and>
     (if r = 0 then \<exists>p. zeros 48 = SealBase 1 16 (replicate 32 9) demo_point demo_point [1] [2] p \<and> out = Some (p @ drop (length p) (zeros 32))
      else out = Some (zeros 32))"
proof -
  let ?m = "zt_hpke_open (Some demo_bridge) (Buf demo_point) (Buf demo_point) (Buf (zeros 48)) (Buf [1]) (Buf [2]) (Some (zeros 32))"
  obtain r out h' where m: "run_state ?m demo_zt = ((r, out), h')" by (metis surj_pair)
  from open_only_authentic [OF demo_zt_inv(1) demo_args(1) this] show ?thesis using m by (simp add: demo_answer split: if_splits)
qed

text \<open>C5: Any sequence of calls of the host keeps the registration sound and the heap balanced: from a
  world whose flag and table agree, whatever calls of \<open>zt_hpke_init\<close>, \<open>zt_hpke_deinit\<close>,
  \<open>zt_hpke_open\<close> and \<open>zt_hpke_seal_cek\<close> follow, with arguments of any kind, the table holds the
  bridge's callback exactly when the flag is set, \<open>zt_hpke_init\<close> always answers 0, and no block
  of the heap stays allocated.\<close>

theorem host_histories:
  assumes "zt_inv (world h)" "host_steps h tr h'"
  shows "zt_inv (world h') \<and> hp_live h' = hp_live h \<and> (\<forall>(c, r) \<in> set tr. c = HostInit \<or> c = HostDeinit \<longrightarrow> r = 0)"
  using host_steps_inv [OF assms(2,1)] .

theorem host_histories_witness:
  "\<exists>h'. host_steps demo_zt [(HostInit :: (unit, nat) host_call, 0), (HostDeinit, 0), (HostInit, 0)] h' \<and> zt_inv (world h') \<and> hp_live h' = 0"
proof -
  obtain r1 h1 where 1: "run_state (host_exec (HostInit :: (unit, nat) host_call)) demo_zt = (r1, h1)" by force
  obtain r2 h2 where 2: "run_state (host_exec (HostDeinit :: (unit, nat) host_call)) h1 = (r2, h2)" by force
  obtain r3 h3 where 3: "run_state (host_exec (HostInit :: (unit, nat) host_call)) h2 = (r3, h3)" by force
  have s: "host_steps demo_zt [(HostInit :: (unit, nat) host_call, r1), (HostDeinit, r2), (HostInit, r3)] h3"
    using host_snoc [OF host_snoc [OF host_snoc [OF host_refl 1] 2] 3] by simp
  then show ?thesis using host_histories [OF demo_zt_inv(1) s] by (auto simp: demo_zt_def env0_def)
qed

text \<open>C27: The guard of the callback does not keep \<open>CRYPTOCB_UNAVAILABLE\<close> back.  When the host answers that code
  for the sender's point, the callback returns it unchanged, contrary to the comment above the
  callback; \<open>wc_ecc_shared_secret\<close>, run on the recipient's key with the device registered, then
  reports \<open>NO_VALID_DEVID\<close>, as if there were no device; and that is what \<open>zt_hpke_open\<close> answers
  its caller, unless it fails before it gets there, for want of a random generator.\<close>

theorem unavailable_passes_guard:
  fixes b :: "('c, 'h) zt_hpke_bridge"
  assumes "zt_inv (world h)" "registered (world h)" "alloc_ok h" "point pk" "point enc"
    "zt_open_args (Some b) (Buf pk) (Buf enc) (Buf ct) (Buf info) (Buf aad) (Some pt) = 0"
    "zt_rc b enc (host (world h)) = CRYPTOCB_UNAVAILABLE"
  shows "fst (fst (run_state (zt_ecdh_callback ZT_HPKE_DEVID (ecdh_request (zt_key b pk) (zt_key c enc) (zeros 32) 32) None) h)) = CRYPTOCB_UNAVAILABLE \<and>
    fst (fst (run_state (wc_ecc_shared_secret zt_call (zt_key b pk) (zt_key c enc) (zeros 32) 32) h)) = NO_VALID_DEVID \<and>
    fst (fst (run_state (zt_hpke_open (Some b) (Buf pk) (Buf enc) (Buf ct) (Buf info) (Buf aad) (Some pt)) h)) \<in> {NO_VALID_DEVID, RNG_FAILURE_E}"
proof -
  note k = zt_key [OF assms(4), of b] and q = zt_key [OF assms(5), of c]
  obtain r1 i h1 where 1: "run_state (zt_ecdh_callback ZT_HPKE_DEVID (ecdh_request (zt_key b pk) (zt_key c enc) (zeros 32) 32) None) h = ((r1, i), h1)"
    by (metis surj_pair)
  obtain r2 o2 n2 h2 where 2: "run_state (wc_ecc_shared_secret zt_call (zt_key b pk) (zt_key c enc) (zeros 32) 32) h = ((r2, o2, n2), h2)"
    by (metis surj_pair)
  obtain r3 o3 h3 where 3: "run_state (zt_hpke_open (Some b) (Buf pk) (Buf enc) (Buf ct) (Buf info) (Buf aad) (Some pt)) h = ((r3, o3), h3)"
    by (metis surj_pair)
  have "r1 = CRYPTOCB_UNAVAILABLE"
    using leaves_run(1) [OF leaves_callback [OF k(2,5) q(2)] 1] assms(3,7) q(3) by auto
  moreover have "r2 = NO_VALID_DEVID"
    using shared_secret_unavailable [OF assms(2,4) q(2) assms(3) _ 2] assms(7) q(3) by simp
  moreover have "r3 \<in> {NO_VALID_DEVID, RNG_FAILURE_E}"
    using leaves_run(1) [OF leaves_open [OF assms(1,6)] 3] assms(3-5,7)
    by (auto elim!: open_specE simp: host_code_def rc_defs)
  ultimately show ?thesis using 1 2 3 by simp
qed

theorem unavailable_passes_guard_witness:
  "\<exists>h. let b = demo_bridge\<lparr>bridge_agree := Some (\<lambda>_ _. State (\<lambda>n. ((CRYPTOCB_UNAVAILABLE, []), n)))\<rparr>
   in fst (fst (run_state (zt_ecdh_callback ZT_HPKE_DEVID (ecdh_request (zt_key b demo_point) (zt_key b demo_point) (zeros 32) 32) None) h)) = CRYPTOCB_UNAVAILABLE \<and>
     fst (fst (run_state (wc_ecc_shared_secret zt_call (zt_key b demo_point) (zt_key b demo_point) (zeros 32) 32) h)) = NO_VALID_DEVID"
proof -
  let ?b = "demo_bridge\<lparr>bridge_agree := Some (\<lambda>_ _. State (\<lambda>n. ((CRYPTOCB_UNAVAILABLE, []), n)))\<rparr>"
  let ?h = "demo_zt\<lparr>world := zt_ready (world demo_zt)\<rparr>"
  have p: "point demo_point" by (simp add: point_def demo_point_def)
  have a: "alloc_ok ?h" using demo_zt_inv(2) by (simp add: alloc_ok_def)
  have c: "zt_rc ?b pt n = CRYPTOCB_UNAVAILABLE" for pt n by (simp add: zt_rc_def zt_answer_def)
  have "zt_open_args (Some ?b) (Buf demo_point) (Buf demo_point) (Buf (zeros 48)) (Buf [1]) (Buf [2]) (Some (zeros 32)) = 0"
    by (simp add: zt_open_args_def demo_point_def)
  from unavailable_passes_guard [OF _ _ a p p this c, of ?b] show ?thesis
    using zt_ready [OF demo_zt_inv(1)] by (intro exI [of _ ?h]) (simp add: Let_def)
qed

end
