(* ===== verification/Jvm.thy ===== *)
theory Jvm
  imports Bridge
begin

text \<open>
  The Java side as the adapters see it. The adapters call the virtual machine through the table of
  functions \<open>JNIEnv\<close>, which is a parameter of their model; the locale \<open>jni\<close> collects what its
  specification says of the functions that are used, and a virtual machine that satisfies it is
  given at the end.
\<close>

section \<open>The function table\<close>

type_synonym jref = nat
type_synonym jclass = nat

datatype local_ref = ArrayRef jref | ClassRef jclass

datatype release_mode = Copy_back | JNI_ABORT

record 'j JNIEnv =
  NewByteArray :: "nat \<Rightarrow> ('j, jref option) state"
  SetByteArrayRegion :: "jref \<Rightarrow> nat \<Rightarrow> byte list \<Rightarrow> ('j, unit) state"
  GetArrayLength :: "jref \<Rightarrow> ('j, int) state"
  GetByteArrayElements :: "jref \<Rightarrow> ('j, byte list option) state"
  ReleaseByteArrayElements :: "jref \<Rightarrow> byte list \<Rightarrow> release_mode \<Rightarrow> ('j, unit) state"
  CallObjectMethod :: "jref \<Rightarrow> nat \<Rightarrow> jref \<Rightarrow> jref \<Rightarrow> ('j, jref option) state"
  ExceptionCheck :: "('j, bool) state"
  ExceptionClear :: "('j, unit) state"
  DeleteLocalRef :: "local_ref \<Rightarrow> ('j, unit) state"
  GetObjectClass :: "jref \<Rightarrow> ('j, jclass option) state"
  GetMethodID :: "jclass option \<Rightarrow> string \<Rightarrow> string \<Rightarrow> ('j, nat option) state"
  FindClass :: "string \<Rightarrow> ('j, jclass option) state"
  ThrowNew :: "jclass \<Rightarrow> string \<Rightarrow> ('j, unit) state"

text \<open>Release without copying back, as the adapters do with their inputs: only what was obtained.\<close>

definition release_all :: "'j JNIEnv \<Rightarrow> jref list \<Rightarrow> byte list option list \<Rightarrow> ('j, unit list) state" where
  "release_all env as es =
     State_Monad.traverse_list (\<lambda>(a, e). case e of None \<Rightarrow> ret () | Some xs \<Rightarrow> ReleaseByteArrayElements env a xs JNI_ABORT) (zip as es)"

text \<open>What its documentation promises, in terms of the byte arrays \<open>A\<close>, the pending exception \<open>E\<close> and
  the number \<open>N\<close> of arrays whose elements are held. The Kotlin method that is called back may create
  objects, but does not write the arrays that exist; \<open>G key p xs\<close> says that it may return \<open>xs\<close> for a key
  and a point.\<close>

locale jni =
  fixes env :: "'j JNIEnv" and A :: "'j \<Rightarrow> jref \<Rightarrow> byte list option" and E :: "'j \<Rightarrow> string option" and N :: "'j \<Rightarrow> int"
    and G :: "jref \<Rightarrow> byte list \<Rightarrow> byte list \<Rightarrow> bool"
  assumes new_array: "wp (NewByteArray env n) (\<lambda>r j'. N j' = N j \<and>
      (case r of None \<Rightarrow> A j' = A j \<and> E j' \<noteq> None | Some a \<Rightarrow> A j a = None \<and> A j' = (A j)(a \<mapsto> zeros n) \<and> E j' = E j)) j"
    and set_region: "A j a = Some xs \<Longrightarrow> off + length bs \<le> length xs \<Longrightarrow>
      wp (SetByteArrayRegion env a off bs) (\<lambda>_ j'. N j' = N j \<and> E j' = E j \<and> A j' = (A j)(a \<mapsto> blit xs off bs)) j"
    and array_length: "A j a = Some xs \<Longrightarrow> wp (GetArrayLength env a) (\<lambda>n j'. n = int (length xs) \<and> j' = j) j"
    and elements: "A j a = Some xs \<Longrightarrow> wp (GetByteArrayElements env a) (\<lambda>r j'. A j' = A j \<and> E j' = E j \<and>
      (case r of None \<Rightarrow> N j' = N j | Some ys \<Rightarrow> ys = xs \<and> N j' = N j + 1)) j"
    and release: "A j a = Some xs \<Longrightarrow> length ys = length xs \<Longrightarrow> wp (ReleaseByteArrayElements env a ys mode) (\<lambda>_ j'. E j' = E j \<and> N j' = N j - 1 \<and>
      A j' = (if mode = Copy_back then (A j)(a \<mapsto> ys) else A j)) j"
    and call: "A j peer = Some p \<Longrightarrow> wp (CallObjectMethod env receiver method key peer) (\<lambda>r j'. N j' = N j \<and> (\<forall>x. A j x \<noteq> None \<longrightarrow> A j' x = A j x) \<and>
      (case r of None \<Rightarrow> True | Some a \<Rightarrow> A j a = None \<and> (\<exists>xs. A j' a = Some xs \<and> G key p xs))) j"
    and check: "wp (ExceptionCheck env) (\<lambda>b j'. j' = j \<and> b = (E j \<noteq> None)) j"
    and clear: "wp (ExceptionClear env) (\<lambda>_ j'. N j' = N j \<and> A j' = A j \<and> E j' = None) j"
    and delete: "wp (DeleteLocalRef env (ArrayRef a)) (\<lambda>_ j'. N j' = N j \<and> E j' = E j \<and> (\<forall>x. x \<noteq> a \<longrightarrow> A j' x = A j x)) j"
    and delete_class: "wp (DeleteLocalRef env (ClassRef cl)) (\<lambda>_ j'. N j' = N j \<and> E j' = E j \<and> A j' = A j) j"
    and object_class: "wp (GetObjectClass env a) (\<lambda>_ j'. N j' = N j \<and> A j' = A j \<and> E j' = E j) j"
    and method_id: "wp (GetMethodID env c name sig) (\<lambda>r j'. N j' = N j \<and> A j' = A j \<and> (if r = None then E j' \<noteq> None else E j' = E j)) j"
    and find_class: "wp (FindClass env name) (\<lambda>r j'. N j' = N j \<and> A j' = A j \<and> (if r = None then E j' \<noteq> None else E j' = E j)) j"
    and throw_new: "wp (ThrowNew env cl msg) (\<lambda>_ j'. N j' = N j \<and> A j' = A j \<and> E j' \<noteq> None) j"
begin

text \<open>A step that keeps the arrays of \<open>j\<close>, and the elements held.\<close>

definition kept :: "'j \<Rightarrow> 'j \<Rightarrow> bool" where
  "kept j j' \<longleftrightarrow> N j' = N j \<and> (\<forall>x. A j x \<noteq> None \<longrightarrow> A j' x = A j x)"

lemma kept_refl [simp]: "kept j j"
  by (simp add: kept_def)

lemma kept_trans: "kept j j' \<Longrightarrow> kept j' j'' \<Longrightarrow> kept j j''"
  by (simp add: kept_def)

lemma all_elements:
  assumes "list_all (\<lambda>a. A j a \<noteq> None) as"
  shows "wp (State_Monad.traverse_list (GetByteArrayElements env) as) (\<lambda>es j'. A j' = A j \<and> E j' = E j \<and>
    N j' = N j + int (length (filter (\<lambda>e. e \<noteq> None) es)) \<and> list_all2 (\<lambda>a e. e = None \<or> e = A j a) as es) j"
  using assms
proof (induction as arbitrary: j)
  case (Cons a as)
  then obtain xs where a: "A j a = Some xs" by auto
  show ?case
    apply simp
    apply (rule wp_conseq [OF elements [OF a]])
    apply (unfold wp_bind)
    apply (rule wp_conseq [OF Cons.IH])
     apply (use Cons.prems in simp)
    apply (auto simp: a split: option.splits)
    done
qed simp

lemma all_released_len:
  assumes "list_all2 (\<lambda>a e. case e of None \<Rightarrow> True | Some ys \<Rightarrow> \<exists>xs. A j a = Some xs \<and> length ys = length xs) as es"
  shows "wp (release_all env as es) (\<lambda>_ j'. A j' = A j \<and> E j' = E j \<and>
    N j' = N j - int (length (filter (\<lambda>e. e \<noteq> None) es))) j"
  using assms
proof (induction es arbitrary: as j rule: list.induct)
  case (Cons e es)
  then obtain a as' where as: "as = a # as'" "case e of None \<Rightarrow> True | Some ys \<Rightarrow> \<exists>xs. A j a = Some xs \<and> length ys = length xs"
      "list_all2 (\<lambda>a e. case e of None \<Rightarrow> True | Some ys \<Rightarrow> \<exists>xs. A j a = Some xs \<and> length ys = length xs) as' es"
    by (cases as) auto
  show ?case
  proof (cases e)
    case None
    then show ?thesis
      unfolding as(1) release_all_def by simp (rule wp_conseq [OF Cons.IH [OF as(3), unfolded release_all_def]], simp)
  next
    case (Some ys)
    then obtain xs where x: "A j a = Some xs" "length ys = length xs" using as(2) by auto
    have "wp (ReleaseByteArrayElements env a ys JNI_ABORT) (\<lambda>_ j'. E j' = E j \<and> N j' = N j - 1 \<and> A j' = A j) j"
      by (rule wp_conseq [OF release [OF x]]) auto
    then show ?thesis
      unfolding as(1) Some release_all_def
      apply simp
      apply (erule wp_conseq)
      apply (unfold wp_bind)
      apply (rule wp_conseq [OF Cons.IH [unfolded release_all_def]])
       apply (use as in auto)
      done
  qed
qed (auto simp: release_all_def)

lemma all_released:
  assumes "list_all2 (\<lambda>a e. e = None \<or> e = A j a) as es" "list_all (\<lambda>a. A j a \<noteq> None) as"
  shows "wp (release_all env as es) (\<lambda>_ j'. A j' = A j \<and> E j' = E j \<and>
    N j' = N j - int (length (filter (\<lambda>e. e \<noteq> None) es))) j"
  by (rule all_released_len, rule list_all2_mono [OF assms(1)]) (auto dest: sym split: option.splits)

end

section \<open>A virtual machine\<close>

text \<open>The behaviour of the Kotlin method that the adapters call back: it throws, or returns an array or null.\<close>

datatype agreement = Throws | Returns "byte list option"

record jvm =
  jheap :: "byte list list"
  jpending :: "string option"
  jpinned :: int
  jgrant :: "nat \<Rightarrow> bool"
  jrequests :: nat

definition array_at :: "byte list list \<Rightarrow> jref \<Rightarrow> byte list option" where
  "array_at hs a = (if a < length hs then Some (hs ! a) else None)"

abbreviation jarrays :: "jvm \<Rightarrow> jref \<Rightarrow> byte list option" where
  "jarrays j \<equiv> array_at (jheap j)"

text \<open>Each request for memory or for a class may be refused.\<close>

definition jask :: "(jvm, bool) state" where
  "jask = State (\<lambda>j. (jgrant j (jrequests j), j\<lparr>jrequests := Suc (jrequests j)\<rparr>))"

definition jthrow :: "string \<Rightarrow> (jvm, unit) state" where
  "jthrow e = State (\<lambda>j. ((), j\<lparr>jpending := Some e\<rparr>))"

definition jnew :: "byte list \<Rightarrow> (jvm, jref option) state" where
  "jnew bs = State (\<lambda>j. (Some (length (jheap j)), j\<lparr>jheap := jheap j @ [bs]\<rparr>))"

definition jwrite :: "jref \<Rightarrow> byte list \<Rightarrow> (jvm, unit) state" where
  "jwrite a bs = State (\<lambda>j. ((), j\<lparr>jheap := (jheap j)[a := bs]\<rparr>))"

definition jread :: "jref \<Rightarrow> (jvm, byte list) state" where
  "jread a = State (\<lambda>j. (if a < length (jheap j) then jheap j ! a else [], j))"

definition jpin :: "int \<Rightarrow> (jvm, unit) state" where
  "jpin n = State (\<lambda>j. ((), j\<lparr>jpinned := jpinned j + n\<rparr>))"

definition jvm_env :: "(jref \<Rightarrow> byte list \<Rightarrow> agreement) \<Rightarrow> jvm JNIEnv" where
  "jvm_env agreeFromNative = \<lparr>
     NewByteArray = (\<lambda>n. do { ok \<leftarrow> jask; if ok then jnew (zeros n) else do { jthrow ''OutOfMemoryError''; ret None } }),
     SetByteArrayRegion = (\<lambda>a off bs. do { xs \<leftarrow> jread a;
        if off + length bs \<le> length xs then jwrite a (blit xs off bs) else jthrow ''ArrayIndexOutOfBoundsException'' }),
     GetArrayLength = (\<lambda>a. do { xs \<leftarrow> jread a; ret (int (length xs)) }),
     GetByteArrayElements = (\<lambda>a. do { ok \<leftarrow> jask; xs \<leftarrow> jread a; if ok then do { jpin 1; ret (Some xs) } else ret None }),
     ReleaseByteArrayElements = (\<lambda>a xs mode. do { jpin (- 1); if mode = Copy_back then jwrite a xs else ret () }),
     CallObjectMethod = (\<lambda>receiver method key peer. do { p \<leftarrow> jread peer;
        (case agreeFromNative key p of Throws \<Rightarrow> do { jthrow ''GeneralSecurityException''; ret None } | Returns None \<Rightarrow> ret None | Returns (Some bs) \<Rightarrow> jnew bs) }),
     ExceptionCheck = State (\<lambda>j. (jpending j \<noteq> None, j)),
     ExceptionClear = State (\<lambda>j. ((), j\<lparr>jpending := None\<rparr>)),
     DeleteLocalRef = (\<lambda>a. ret ()),
     GetObjectClass = (\<lambda>a. ret (Some 0)),
     GetMethodID = (\<lambda>c name sig. do { ok \<leftarrow> jask; if ok then ret (Some 0) else do { jthrow ''NoSuchMethodError''; ret None } }),
     FindClass = (\<lambda>name. do { ok \<leftarrow> jask; if ok then ret (Some 0) else do { jthrow ''NoClassDefFoundError''; ret None } }),
     ThrowNew = (\<lambda>c msg. jthrow msg)\<rparr>"

lemma wp_jask [simp]: "wp jask Q j = Q (jgrant j (jrequests j)) (j\<lparr>jrequests := Suc (jrequests j)\<rparr>)"
  by (simp add: wp_def jask_def)

lemma wp_jthrow [simp]: "wp (jthrow e) Q j = Q () (j\<lparr>jpending := Some e\<rparr>)"
  by (simp add: wp_def jthrow_def)

lemma wp_jnew [simp]: "wp (jnew bs) Q j = Q (Some (length (jheap j))) (j\<lparr>jheap := jheap j @ [bs]\<rparr>)"
  by (simp add: wp_def jnew_def)

lemma wp_jwrite [simp]: "wp (jwrite a bs) Q j = Q () (j\<lparr>jheap := (jheap j)[a := bs]\<rparr>)"
  by (simp add: wp_def jwrite_def)

lemma wp_jread [simp]: "wp (jread a) Q j = Q (if a < length (jheap j) then jheap j ! a else []) j"
  by (simp add: wp_def jread_def)

lemma wp_jpin [simp]: "wp (jpin n) Q j = Q () (j\<lparr>jpinned := jpinned j + n\<rparr>)"
  by (simp add: wp_def jpin_def)

lemma array_at_append: "array_at (hs @ [bs]) = (array_at hs)(length hs \<mapsto> bs)"
  by (auto simp: array_at_def nth_append)

lemma array_at_update: "a < length hs \<Longrightarrow> array_at (hs[a := bs]) = (array_at hs)(a \<mapsto> bs)"
  by (auto simp: array_at_def)

lemma array_atD: "array_at hs a = Some xs \<Longrightarrow> a < length hs \<and> hs ! a = xs"
  by (auto simp: array_at_def split: if_splits)

lemma array_at_fresh: "array_at hs (length hs) = None"
  by (simp add: array_at_def)

lemma wp_State: "wp (State f) Q j = (case f j of (x, j') \<Rightarrow> Q x j')"
  by (simp add: wp_def)

lemmas jvm_simps = jvm_env_def array_at_append array_at_update array_at_fresh wp_State

interpretation jvm: jni "jvm_env f" jarrays jpending jpinned "\<lambda>key p xs. f key p = Returns (Some xs)"
  for f :: "jref \<Rightarrow> byte list \<Rightarrow> agreement"
  by unfold_locales (auto simp: jvm_simps dest!: array_atD split: option.splits agreement.splits)

end
