(* ===== verification/Jni.thy ===== *)
theory Jni
  imports Jvm
begin

text \<open>
  The adapter between the receiver core and the Android key store, \<open>zrotext_hpke_jni.c\<close>: the agreement
  through a Kotlin method, \<open>nativeOpen\<close>, and the load and unload hooks of the library.
\<close>

section \<open>The adapter\<close>

definition ZT_PEER_POINT_LEN :: nat where [simp]: "ZT_PEER_POINT_LEN = 65"
definition ZT_SHARED_SECRET_LEN :: nat where [simp]: "ZT_SHARED_SECRET_LEN = 32"

record 'j JniBridge =
  jb_env :: "'j JNIEnv"
  jb_receiver :: jref
  jb_agreeMethod :: nat
  jb_privateKey :: jref

definition AGREE_METHOD_NAME :: string where "AGREE_METHOD_NAME = ''agreeFromNative''"
definition AGREE_METHOD_SIG :: string where "AGREE_METHOD_SIG = ''(Ljava/security/PrivateKey;[B)[B''"

definition throwSecurity :: "'j JNIEnv \<Rightarrow> string \<Rightarrow> ('j, unit) state" where
  "throwSecurity env message = do {
     cls \<leftarrow> FindClass env ''java/security/GeneralSecurityException'';
     (case cls of None \<Rightarrow> ret () | Some c \<Rightarrow> ThrowNew env c message)
   }"

definition jni_agree :: "'j JniBridge \<Rightarrow> byte list \<Rightarrow> ('j, int \<times> byte list) state" where
  "jni_agree bridge peerPoint = (let env = jb_env bridge in do {
     peer \<leftarrow> NewByteArray env ZT_PEER_POINT_LEN;
     bad \<leftarrow> (if peer = None then ret True else ExceptionCheck env);
     if bad then do {
       e \<leftarrow> ExceptionCheck env;
       (if e then ExceptionClear env else ret ());
       ret (BAD_STATE_E, [])
     }
     else do {
       SetByteArrayRegion env (the peer) 0 peerPoint;
       agreed \<leftarrow> CallObjectMethod env (jb_receiver bridge) (jb_agreeMethod bridge) (jb_privateKey bridge) (the peer);
       DeleteLocalRef env (ArrayRef (the peer));
       e \<leftarrow> ExceptionCheck env;
       if e then do { ExceptionClear env; ret (BAD_STATE_E, []) }
       else (case agreed of
           None \<Rightarrow> ret (BAD_STATE_E, [])
         | Some a \<Rightarrow> do {
             len \<leftarrow> GetArrayLength env a;
             if len \<noteq> int ZT_SHARED_SECRET_LEN then do { DeleteLocalRef env (ArrayRef a); ret (ECC_BAD_ARG_E, []) }
             else do {
               elements \<leftarrow> GetByteArrayElements env a;
               (case elements of
                  None \<Rightarrow> do { DeleteLocalRef env (ArrayRef a); ret (BAD_STATE_E, []) }
                | Some xs \<Rightarrow> do {
                    let out = take ZT_SHARED_SECRET_LEN xs;
                    ReleaseByteArrayElements env a (blit xs 0 (zeros ZT_SHARED_SECRET_LEN)) Copy_back;
                    DeleteLocalRef env (ArrayRef a);
                    ret (0, out)
                  })
             }
           })
     }
   })"

text \<open>\<open>nativeOpen\<close> keeps the identity of the method in a static variable, which is passed in and out.\<close>

definition nativeOpen ::
  "'j JNIEnv \<Rightarrow> nat option \<Rightarrow> jref \<Rightarrow> jref \<Rightarrow> jref \<Rightarrow> jref \<Rightarrow> jref \<Rightarrow> jref \<Rightarrow> jref \<Rightarrow> ('j zt_world, jref option \<times> nat option) cmd" where
  "nativeOpen env agreeMethod receiver privateKey jRecipient jEnc jCt jInfo jAad = do {
     agreeMethod \<leftarrow> (if agreeMethod = None then do {
         cls \<leftarrow> on_host (GetObjectClass env receiver);
         on_host (GetMethodID env cls AGREE_METHOD_NAME AGREE_METHOD_SIG)
       } else ret agreeMethod);
     if agreeMethod = None then ret (None, None)
     else do {
       recipientSz \<leftarrow> on_host (GetArrayLength env jRecipient);
       encSz \<leftarrow> on_host (GetArrayLength env jEnc);
       ctSz \<leftarrow> on_host (GetArrayLength env jCt);
       infoSz \<leftarrow> on_host (GetArrayLength env jInfo);
       aadSz \<leftarrow> on_host (GetArrayLength env jAad);
       if ctSz < 17 \<or> recipientSz < 0 \<or> encSz < 0 \<or> infoSz < 0 \<or> aadSz < 0
       then do { on_host (throwSecurity env ''HPKE open rejected''); ret (None, agreeMethod) }
       else do {
         let ptSz = nat (ctSz - 16);
         ok \<leftarrow> XMALLOC;
         if \<not> ok then do { on_host (throwSecurity env ''HPKE open rejected''); ret (None, agreeMethod) }
         else do {
           let arrays = [jRecipient, jEnc, jCt, jInfo, jAad];
           es \<leftarrow> on_host (State_Monad.traverse_list (GetByteArrayElements env) arrays);
           if None \<in> set es then do {
             on_host (release_all env arrays es);
             XFREE (Freed_bytes (blit (zeros ptSz) 0 (zeros ptSz)));
             ret (None, agreeMethod)
           }
           else do {
             let coreBridge = \<lparr>bridge_agree = Some jni_agree,
               bridge_ctx = \<lparr>jb_env = env, jb_receiver = receiver, jb_agreeMethod = the agreeMethod, jb_privateKey = privateKey\<rparr>\<rparr>;
             (r, pt) \<leftarrow> zt_hpke_open (Some coreBridge) (Buf (the (es ! 0))) (Buf (the (es ! 1))) (Buf (the (es ! 2)))
                (Buf (the (es ! 3))) (Buf (the (es ! 4))) (Some (zeros ptSz));
             on_host (release_all env arrays es);
             if r \<noteq> 0 then do {
               on_host (throwSecurity env ''HPKE open rejected'');
               XFREE (Freed_bytes (blit (the pt) 0 (zeros ptSz)));
               ret (None, agreeMethod)
             }
             else do {
               result \<leftarrow> on_host (NewByteArray env ptSz);
               (case result of None \<Rightarrow> ret () | Some a \<Rightarrow> on_host (SetByteArrayRegion env a 0 (take ptSz (the pt))));
               XFREE (Freed_bytes (blit (the pt) 0 (zeros ptSz)));
               ret (result, agreeMethod)
             }
           }
         }
       }
     }
   }"

section \<open>Load and unload\<close>

definition JNI_VERSION_1_6 :: int where "JNI_VERSION_1_6 = 0x00010006"
definition JNI_ERR :: int where "JNI_ERR = - 1"

definition run_init :: "'h zt_world env \<Rightarrow> (int \<times> 'h zt_world env) option" where
  "run_init h = map_option (\<lambda>(r, s, g). (r, h\<lparr>world := (world h)\<lparr>wolfcrypt_init_state := s, gCryptoDev := g\<rparr>\<rparr>))
     (wolfCrypt_Init (wolfcrypt_init_state (world h)) (gCryptoDev (world h)))"

definition run_cleanup :: "'h zt_world env \<Rightarrow> (int \<times> 'h zt_world env) option" where
  "run_cleanup h = map_option (\<lambda>(r, s, g). (r, h\<lparr>world := (world h)\<lparr>wolfcrypt_init_state := s, gCryptoDev := g\<rparr>\<rparr>))
     (wolfCrypt_Cleanup (wolfcrypt_init_state (world h)) (gCryptoDev (world h)))"

text \<open>\<open>attached\<close> says whether \<open>GetEnv\<close> answers \<open>JNI_OK\<close>.\<close>

definition JNI_OnLoad :: "bool \<Rightarrow> 'h zt_world env \<Rightarrow> (int \<times> 'h zt_world env) option" where
  "JNI_OnLoad attached h =
     (if \<not> attached then Some (JNI_ERR, h)
      else Option.bind (run_init h) (\<lambda>(r, h).
        if r \<noteq> 0 then Some (JNI_ERR, h)
        else case run_state zt_hpke_init h of
          (r, h) \<Rightarrow> Some (if r \<noteq> 0 then JNI_ERR else JNI_VERSION_1_6, h)))"

definition JNI_OnUnload :: "bool \<Rightarrow> 'h zt_world env \<Rightarrow> (unit \<times> 'h zt_world env) option" where
  "JNI_OnUnload attached h =
     (case run_state zt_hpke_deinit h of
        (_, h) \<Rightarrow> if attached then map_option (\<lambda>(_, h). ((), h)) (run_cleanup h) else Some ((), h))"

section \<open>The agreement\<close>

context jni
begin

lemma wp_check [simp]: "wp (ExceptionCheck env) Q j = Q (E j \<noteq> None) j"
  using check [of j] by (auto simp: wp_def split: prod.splits)

lemma wp_length: "A j a = Some xs \<Longrightarrow> wp (GetArrayLength env a) Q j = Q (int (length xs)) j"
  using array_length [of j a xs] by (auto simp: wp_def split: prod.splits)

lemma kept_delete: "\<lbrakk>kept j j1; A j a = None; N j2 = N j1; \<forall>x. x \<noteq> a \<longrightarrow> A j2 x = A j1 x\<rbrakk> \<Longrightarrow> kept j j2"
  unfolding kept_def by (metis (full_types))

text \<open>Where the adapter is after the call of the Kotlin method: \<open>j\<close> the state before, \<open>a\<close> the array it returned.\<close>

lemma agree_end:
  assumes "kept j j1" "E j1 = None" "A j a = None" "A j1 a = Some xs"
  shows "wp (do {
      len \<leftarrow> GetArrayLength env a;
      if len \<noteq> int ZT_SHARED_SECRET_LEN then do { DeleteLocalRef env (ArrayRef a); ret (ECC_BAD_ARG_E, []) }
      else do {
        elements \<leftarrow> GetByteArrayElements env a;
        (case elements of
           None \<Rightarrow> do { DeleteLocalRef env (ArrayRef a); ret (BAD_STATE_E, []) }
         | Some xs \<Rightarrow> do {
             let out = take ZT_SHARED_SECRET_LEN xs;
             ReleaseByteArrayElements env a (blit xs 0 (zeros ZT_SHARED_SECRET_LEN)) Copy_back;
             DeleteLocalRef env (ArrayRef a);
             ret (0, out)
           })
      } }) (\<lambda>(rc, out) j'. kept j j' \<and> E j' = None \<and>
        (if length xs = 32 then rc = 0 \<and> out = xs \<or> rc = BAD_STATE_E \<and> out = [] else rc = ECC_BAD_ARG_E \<and> out = [])) j1"
proof -
  have d: "wp (DeleteLocalRef env (ArrayRef a)) (\<lambda>_ j'. kept j j' \<and> E j' = None) j2" if "kept j j2" "E j2 = None" for j2
    by (rule wp_conseq [OF delete]) (use that assms(3) in \<open>auto intro: kept_delete\<close>)
  have r: "wp (ReleaseByteArrayElements env a (zeros 32) Copy_back) (\<lambda>_ j'. kept j j' \<and> E j' = None) j2"
    if "A j2 = A j1" "E j2 = None" "N j2 = N j1 + 1" "length xs = 32" for j2
    by (rule wp_conseq [OF release [of j2 a xs "zeros 32"]])
       (use that assms in \<open>auto simp: kept_def\<close>)
  show ?thesis
    apply (simp add: Let_def)
    apply (rule wp_conseq [OF array_length [OF assms(4)]])
    apply clarsimp
    apply (intro conjI impI)
     apply (rule wp_conseq [OF d])
       apply (use assms in auto) [3]
    apply (rule wp_conseq [OF elements [OF assms(4)]])
    apply (auto split: option.splits)
     apply (rule wp_conseq [OF d])
       apply (use assms in \<open>auto simp: kept_def\<close>) [3]
    apply (rule wp_conseq [OF r])
        apply (use assms in auto) [4]
    apply (unfold wp_bind)
    apply (rule wp_conseq [OF d])
      apply auto
    done
qed

lemma agree_wp:
  assumes "jb_env b = env" "E j = None" "length p = 65"
  shows "wp (jni_agree b p) (\<lambda>(rc, out) j'. kept j j' \<and> E j' = None \<and>
    (rc = 0 \<and> length out = 32 \<and> G (jb_privateKey b) p out \<or> (rc = BAD_STATE_E \<or> rc = ECC_BAD_ARG_E) \<and> out = [])) j"
proof -
  have c: "wp (ExceptionClear env) (\<lambda>_ j'. kept j j' \<and> E j' = None) j2" if "kept j j2" for j2
    by (rule wp_conseq [OF clear]) (use that in \<open>auto simp: kept_def\<close>)
  have m: "wp (SetByteArrayRegion env a 0 p) (\<lambda>_ j'. kept j j' \<and> A j' a = Some p \<and> A j a = None \<and> E j' = None) j1"
    if "N j1 = N j" "A j a = None" "A j1 = (A j)(a \<mapsto> zeros 65)" "E j1 = None" for j1 a
    by (rule wp_conseq [OF set_region [of j1 a "zeros 65"]]) (use that assms(3) in \<open>auto simp: kept_def\<close>)
  have call': "wp (CallObjectMethod env rc me k a) (\<lambda>r j'. kept j j' \<and> A j a = None \<and>
      (case r of None \<Rightarrow> True | Some x \<Rightarrow> x \<noteq> a \<and> A j x = None \<and> (\<exists>xs. A j' x = Some xs \<and> G k p xs))) j1"
    if "kept j j1" "A j1 a = Some p" "A j a = None" for rc me k a j1
    by (rule wp_conseq [OF call]) (use that in \<open>auto simp: kept_def split: option.splits\<close>)
  have d: "wp (DeleteLocalRef env (ArrayRef a)) (\<lambda>_ j'. kept j j' \<and> (case r of None \<Rightarrow> True | Some x \<Rightarrow> A j x = None \<and> (\<exists>xs. A j' x = Some xs \<and> G k p xs))) j1"
    if "kept j j1" "A j a = None" "case r of None \<Rightarrow> True | Some x \<Rightarrow> x \<noteq> a \<and> A j x = None \<and> (\<exists>xs. A j1 x = Some xs \<and> G k p xs)" for a r j1 k
    by (rule wp_conseq [OF delete])
       (use that in \<open>auto intro: kept_delete split: option.splits\<close>)
  show ?thesis
    unfolding jni_agree_def assms(1) Let_def wp_bind
    apply (rule wp_conseq [OF new_array])
    subgoal for peer j1
      apply (cases peer)
       apply (simp, rule wp_conseq [OF c], simp add: kept_def, simp)
      apply (simp add: assms(2))
      apply (rule wp_conseq [OF m])
          apply (use assms(2) in auto) [4]
      apply (unfold wp_bind)
      apply (rule wp_conseq [OF call'])
         apply auto [3]
      apply (rule wp_conseq [OF d])
         apply auto [3]
      apply (unfold wp_check)
      subgoal for a u j2 r j3 v j4
        apply (cases "E j4 = None")
         apply (cases r)
          apply simp
         apply (clarsimp simp del: wp_bind ZT_SHARED_SECRET_LEN_def)
         apply (rule wp_conseq [OF agree_end [unfolded Let_def]])
             apply (auto split: if_splits) [5]
        apply (simp add: wp_bind)
        apply (rule wp_conseq [OF c])
         apply auto
        done
      done
    done
qed

end

section \<open>Opening from Java\<close>

lemma leaves_host:
  assumes "wp m P (host (world h))"
  shows "leaves (\<lambda>_. 0) h (on_host m) (\<lambda>x w. P x (host w) \<and> zt_inv w = zt_inv (world h))"
  by (rule leaves_conseq [OF leaves_on_host]) (use assms in \<open>auto simp: wp_def zt_inv_def split: prod.splits\<close>)

lemma length_OpenBase:
  assumes "length ct < 2 ^ 32" "length aad < 2 ^ 32" "OpenBase 1 16 dh enc pk info aad ct = Some p"
  shows "length p = length ct - 16"
proof -
  let ?ks = "KeyScheduleBase 1 16 (ExtractAndExpand dh (enc @ pk)) info"
  have o: "aes_gcm_open (fst ?ks) (ComputeNonce (fst (snd ?ks)) 0) aad ct = Some p"
    using assms(3) by (simp add: OpenBase_def split_def)
  then have l: "16 \<le> length ct" by (cases "length ct < 16") (auto simp: aes_gcm_open_def)
  have f: "gcm_fits (take (length ct - 16) ct)" using assms(1) by (simp add: gcm_fits_def)
  show ?thesis
    using o aes_gcm_open_eq [OF base_usable [OF assms(2)] f l, of "ExtractAndExpand dh (enc @ pk)" info]
    by (auto split: if_splits)
qed

lemma leaves_open_total:
  assumes "zt_inv (world h)"
  shows "leaves (\<lambda>_. 0) h (zt_hpke_open (Some b) (Buf pk) (Buf enc) (Buf ct) (Buf info) (Buf aad) (Some pt))
    (\<lambda>(r, out) w. zt_inv w \<and> (host w = host (world h) \<and> r \<noteq> 0 \<or> length enc = 65 \<and> host w = zt_after b enc (host (world h))) \<and>
       (r = 0 \<longrightarrow> zt_rc b enc (host (world h)) = 0 \<and> (\<exists>p. length p = length ct - 16 \<and>
          OpenBase 1 16 (zt_dh b enc (host (world h))) enc pk info aad ct = Some p \<and> out = Some (blit pt 0 p))))"
proof (cases "zt_open_args (Some b) (Buf pk) (Buf enc) (Buf ct) (Buf info) (Buf aad) (Some pt) = 0")
  case True
  note d = open_argsD [OF True]
  show ?thesis
    apply (rule leaves_conseq [OF leaves_open [OF assms True]])
    apply clarsimp
    apply (erule open_spec.cases)
           apply (use d(2) length_OpenBase [OF d(8,10)] in blast)
          apply (use d(2) in \<open>simp_all add: rc_defs host_code_def key_format_code_def bad_point_def\<close>)
     apply auto
    done
next
  case False
  then show ?thesis using assms by (simp add: zt_hpke_open_def Let_def leaves_ret)
qed

context jni
begin

lemma throw_wp: "wp (throwSecurity env msg) (\<lambda>_ j'. N j' = N j \<and> A j' = A j \<and> E j' \<noteq> None) j"
proof -
  show ?thesis
    unfolding throwSecurity_def wp_bind
    apply (rule wp_conseq [OF find_class])
    subgoal for c j1
      apply (cases c)
       apply simp
      apply simp
      apply (rule wp_conseq [OF throw_new])
      apply auto
      done
    done
qed

lemma core_bridge:
  assumes "jb_env ctx = env" "E j = None" "length p = 65" and b: "b = \<lparr>bridge_agree = Some jni_agree, bridge_ctx = ctx\<rparr>"
  shows "kept j (zt_after b p j) \<and> E (zt_after b p j) = None"
    "zt_rc b p j = 0 \<Longrightarrow> G (jb_privateKey ctx) p (zt_dh b p j)"
  using agree_wp [OF assms(1-3)]
  by (auto simp: b zt_after_def zt_rc_def zt_dh_def zt_answer_def wp_def written_def rc_defs split: prod.splits)

lemma lengths:
  assumes "A j a = Some xs"
  shows "run_state (GetArrayLength env a) j = (int (length xs), j)"
  using array_length [OF assms] by (auto simp: wp_def split: prod.splits)

text \<open>The two ends of \<open>nativeOpen\<close> once the inputs are released: the refusal, and the hand-over of the
  plaintext to the caller.\<close>

lemma refused_end:
  assumes "zt_inv (world h)" "kept j (host (world h))"
  shows "leaves (\<lambda>_. - 1) h (do {
      on_host (throwSecurity env msg);
      XFREE block;
      ret (None :: jref option, m)
    }) (\<lambda>(res, m') w. zt_inv w \<and> kept j (host w) \<and> m' = m \<and> res = None \<and> E (host w) \<noteq> None)"
proof -
  have thr: "wp (throwSecurity env msg) (\<lambda>_ j'. kept j j' \<and> E j' \<noteq> None) (host (world h))"
    by (rule wp_conseq [OF throw_wp]) (use assms(2) in \<open>auto simp: kept_def\<close>)
  show ?thesis
    by (rule leaves_bind [OF leaves_host [OF thr]])
       (auto simp: assms intro!: leaves_bind [OF leaves_free] leaves_ret)
qed

lemma hand_over:
  assumes "zt_inv (world h)" "kept j (host (world h))" "E (host (world h)) = None" "length p = n"
  shows "leaves (\<lambda>_. - 1) h (do {
      result \<leftarrow> on_host (NewByteArray env n);
      (case result of None \<Rightarrow> ret () | Some a \<Rightarrow> on_host (SetByteArrayRegion env a 0 p));
      XFREE block;
      ret (result, m)
    }) (\<lambda>(res, m') w. zt_inv w \<and> kept j (host w) \<and> m' = m \<and> (case res of
          None \<Rightarrow> E (host w) \<noteq> None
        | Some a \<Rightarrow> E (host w) = None \<and> A j a = None \<and> A (host w) a = Some p))"
proof -
  have new: "wp (NewByteArray env n) (\<lambda>r j'. kept j j' \<and> (case r of None \<Rightarrow> E j' \<noteq> None
      | Some a \<Rightarrow> A j a = None \<and> A j' a = Some (zeros n) \<and> E j' = None)) (host (world h))"
    by (rule wp_conseq [OF new_array]) (use assms in \<open>auto simp: kept_def split: option.splits\<close>)
  have reg: "wp (SetByteArrayRegion env a 0 p) (\<lambda>_ j'. kept j j' \<and> E j' = None \<and> A j' a = Some p) j3"
    if "kept j j3" "E j3 = None" "A j a = None" "A j3 a = Some (zeros n)" for j3 a
    by (rule wp_conseq [OF set_region [OF that(4)]]) (use that assms(4) in \<open>auto simp: kept_def\<close>)
  show ?thesis
    apply (rule leaves_bind [OF leaves_host [OF new]])
    subgoal for res h3
      apply (cases res)
       apply (use assms in \<open>auto intro!: leaves_bind [OF leaves_free] leaves_ret\<close>) [1]
      apply simp
      apply (rule leaves_bind [OF leaves_host [OF reg]])
          apply simp_all [4]
      apply (use assms in \<open>auto intro!: leaves_bind [OF leaves_free] leaves_ret\<close>)
      done
    done
qed

text \<open>The part of \<open>nativeOpen\<close> after the inputs are held.\<close>

lemma open_held:
  assumes inv: "zt_inv (world h)" and j: "host (world h) = j1" "A j1 = A j" "E j1 = None" "N j1 = N j + 5"
    and as: "arrays = [jRecipient, jEnc, jCt, jInfo, jAad]"
    and x: "A j jRecipient = Some pk" "A j jEnc = Some enc" "A j jCt = Some ct" "A j jInfo = Some info" "A j jAad = Some aad"
    and ctx: "jb_env ctx = env"
  shows "leaves (\<lambda>_. - 1) h (do {
      (r, pt) \<leftarrow> zt_hpke_open (Some \<lparr>bridge_agree = Some jni_agree, bridge_ctx = ctx\<rparr>) (Buf pk) (Buf enc) (Buf ct) (Buf info) (Buf aad)
        (Some (zeros (length ct - 16)));
      on_host (release_all env arrays (map (A j) arrays));
      if r \<noteq> 0 then do {
        on_host (throwSecurity env ''HPKE open rejected'');
        XFREE (Freed_bytes (blit (the pt) 0 (zeros (length ct - 16))));
        ret (None, agreeMethod)
      }
      else do {
        result \<leftarrow> on_host (NewByteArray env (length ct - 16));
        (case result of None \<Rightarrow> ret () | Some a \<Rightarrow> on_host (SetByteArrayRegion env a 0 (take (length ct - 16) (the pt))));
        XFREE (Freed_bytes (blit (the pt) 0 (zeros (length ct - 16))));
        ret (result, agreeMethod)
      } })
    (\<lambda>(res, m) w. zt_inv w \<and> kept j (host w) \<and> m = agreeMethod \<and> (case res of
        None \<Rightarrow> E (host w) \<noteq> None
      | Some a \<Rightarrow> E (host w) = None \<and> A j a = None \<and> (\<exists>dh p. G (jb_privateKey ctx) enc dh \<and>
          OpenBase 1 16 dh enc pk info aad ct = Some p \<and> A (host w) a = Some p)))"
proof -
  define b where "b = \<lparr>bridge_agree = Some jni_agree, bridge_ctx = ctx\<rparr>"
  have k1: "kept j1 j2 \<Longrightarrow> A j a = Some xs \<Longrightarrow> A j2 a = Some xs" for j2 a xs using j(2) by (simp add: kept_def)
  have rel: "wp (release_all env arrays (map (A j) arrays)) (\<lambda>_ j'. kept j j' \<and> E j' = None) j2" if "kept j1 j2" "E j2 = None" for j2
    by (rule wp_conseq [OF all_released])
       (use that x k1 [OF that(1)] in \<open>auto simp: as kept_def j\<close>)
  show ?thesis
    unfolding b_def [symmetric]
    apply (rule leaves_bind [OF leaves_open_total [OF inv]])
    apply (clarsimp simp: j(1) simp del: State_Monad.bind_assoc split del: if_split)
    subgoal for r pt h1
    proof -
      assume i: "zt_inv (world h1)" and o: "r = 0 \<longrightarrow> zt_rc b enc j1 = 0 \<and>
          (\<exists>p. length p = length ct - 16 \<and> OpenBase 1 16 (zt_dh b enc j1) enc pk info aad ct = Some p \<and> pt = Some (blit (zeros (length ct - 16)) 0 p))"
        and w: "host (world h1) = j1 \<and> r \<noteq> 0 \<or> length enc = 65 \<and> host (world h1) = zt_after b enc j1"
      then have k: "kept j1 (host (world h1))" "E (host (world h1)) = None"
        using core_bridge(1) [OF ctx j(3) _ b_def] j(3) by auto
      show ?thesis
        apply (rule leaves_bind [OF leaves_host [OF rel [OF k]]])
        subgoal for u h2
        proof (cases "r = 0")
          case False
          assume h2: "(kept j (host (world h2)) \<and> E (host (world h2)) = None) \<and> zt_inv (world h2) = zt_inv (world h1)"
          show ?thesis
            unfolding if_P [OF False] by (rule leaves_conseq [OF refused_end]) (use h2 i in auto)
        next
          case True
          assume h2: "(kept j (host (world h2)) \<and> E (host (world h2)) = None) \<and> zt_inv (world h2) = zt_inv (world h1)"
          obtain p where p: "length p = length ct - 16" "OpenBase 1 16 (zt_dh b enc j1) enc pk info aad ct = Some p" "pt = Some p"
            using o True by auto
          have g: "G (jb_privateKey ctx) enc (zt_dh b enc j1)"
            using core_bridge(2) [OF ctx j(3) _ b_def] o w True by auto
          have t: "\<not> r \<noteq> 0" "take (length ct - 16) (the pt) = p" using True p by simp_all
          show ?thesis
            unfolding if_not_P [OF t(1)] t(2)
            by (rule leaves_conseq [OF hand_over]) (use h2 i p g in \<open>auto split: option.splits\<close>)
        qed
        done
    qed
    done
qed

end

context jni
begin

lemma leaves_length:
  assumes "A (host (world h)) a = Some xs"
    "\<And>h'. \<lbrakk>host (world h') = host (world h); zt_inv (world h') = zt_inv (world h); alloc_ok h' = alloc_ok h\<rbrakk> \<Longrightarrow> leaves d h' (f (int (length xs))) Q"
  shows "leaves d h (State_Monad.bind (on_host (GetArrayLength env a)) f) Q"
  by (rule leaves_bind [OF leaves_host [OF array_length [OF assms(1)]]]) (use assms(2) in auto)

lemma leaves_method:
  assumes "E (host (world h)) = None" "zt_inv (world h)"
  shows "leaves (\<lambda>_. 0) h (if m = None then do { cls \<leftarrow> on_host (GetObjectClass env r); on_host (GetMethodID env cls n s) } else ret m)
    (\<lambda>m' w. zt_inv w \<and> N (host w) = N (host (world h)) \<and> A (host w) = A (host (world h)) \<and> (m' = None \<longleftrightarrow> E (host w) \<noteq> None))"
proof (cases m)
  case None
  have "leaves (\<lambda>_. 0) h (do { cls \<leftarrow> on_host (GetObjectClass env r); on_host (GetMethodID env cls n s) })
    (\<lambda>m' w. zt_inv w \<and> N (host w) = N (host (world h)) \<and> A (host w) = A (host (world h)) \<and> (m' = None \<longleftrightarrow> E (host w) \<noteq> None))"
    apply (rule leaves_bind [OF leaves_host [OF object_class]])
    apply (rule leaves_conseq [OF leaves_host [OF method_id]])
    apply (use assms in \<open>auto split: if_splits\<close>)
    done
  then show ?thesis using None by simp
next
  case (Some m')
  then show ?thesis using assms by (simp add: leaves_ret)
qed

definition always_held :: bool where
  "always_held \<longleftrightarrow> (\<forall>a j. wp (GetByteArrayElements env a) (\<lambda>r _. r \<noteq> None) j)"

lemma held_all: "list_all2 (\<lambda>a e. e = None \<or> e = A j a) as es \<Longrightarrow> None \<notin> set es \<Longrightarrow> es = map (A j) as"
  by (induction rule: list_all2_induct) auto

lemma elements_held:
  assumes always_held
  shows "wp (State_Monad.traverse_list (GetByteArrayElements env) as) (\<lambda>es _. None \<notin> set es) j"
proof (induction as arbitrary: j)
  case (Cons a as)
  show ?case
    apply simp
    apply (rule wp_conseq [OF assms [unfolded always_held_def, rule_format]])
    apply (unfold wp_bind)
    apply (rule wp_conseq [OF Cons.IH])
    apply auto
    done
qed simp

lemma hold_inputs:
  assumes "list_all (\<lambda>a. A j a \<noteq> None) as"
  shows "wp (State_Monad.traverse_list (GetByteArrayElements env) as) (\<lambda>es j'. A j' = A j \<and> E j' = E j \<and>
    N j' = N j + int (length (filter (\<lambda>e. e \<noteq> None) es)) \<and> list_all2 (\<lambda>a e. e = None \<or> e = A j a) as es \<and>
    (always_held \<longrightarrow> None \<notin> set es)) j"
proof -
  have "wp (State_Monad.traverse_list (GetByteArrayElements env) as) (\<lambda>es _. always_held \<longrightarrow> None \<notin> set es) j"
  proof (cases always_held)
    case True
    then show ?thesis by (rule wp_conseq [OF elements_held]) simp
  next
    case False
    then show ?thesis by (intro wp_conseq [OF wp_True]) simp
  qed
  from wp_conj [OF all_elements [OF assms] this] show ?thesis by (rule wp_conseq) blast
qed

abbreviation open_post ::
  "'j \<Rightarrow> jref \<Rightarrow> byte list \<Rightarrow> byte list \<Rightarrow> byte list \<Rightarrow> byte list \<Rightarrow> byte list \<Rightarrow> jref option \<times> nat option \<Rightarrow> 'j zt_world \<Rightarrow> bool" where
  "open_post j privateKey pk enc ct info aad \<equiv> (\<lambda>(res, m) w. zt_inv w \<and> kept j (host w) \<and> (case res of
        None \<Rightarrow> always_held \<longrightarrow> E (host w) \<noteq> None
      | Some a \<Rightarrow> E (host w) = None \<and> A j a = None \<and> (\<exists>dh p. G privateKey enc dh \<and>
          OpenBase 1 16 dh enc pk info aad ct = Some p \<and> A (host w) a = Some p)))"

lemma with_inputs:
  assumes x: "A j jRecipient = Some pk" "A j jEnc = Some enc" "A j jCt = Some ct" "A j jInfo = Some info" "A j jAad = Some aad"
    and as: "arrays = [jRecipient, jEnc, jCt, jInfo, jAad]"
    and g: "zt_inv (world g)" "A (host (world g)) = A j" "E (host (world g)) = None"
      "N (host (world g)) = N j + int (length (filter (\<lambda>e. e \<noteq> None) es))" "list_all2 (\<lambda>a e. e = None \<or> e = A j a) arrays es"
      "always_held \<longrightarrow> None \<notin> set es"
    and ctx: "jb_env ctx = env" "jb_privateKey ctx = privateKey"
  shows "leaves (\<lambda>_. - 1) g (if None \<in> set es then do {
        on_host (release_all env arrays es);
        XFREE (Freed_bytes (blit (zeros (nat (int (length ct) - 16))) 0 (zeros (nat (int (length ct) - 16)))));
        ret (None, m)
      }
      else do {
        (r, pt) \<leftarrow> zt_hpke_open (Some \<lparr>bridge_agree = Some jni_agree, bridge_ctx = ctx\<rparr>) (Buf (the (es ! 0))) (Buf (the (es ! 1)))
          (Buf (the (es ! 2))) (Buf (the (es ! 3))) (Buf (the (es ! 4))) (Some (zeros (nat (int (length ct) - 16))));
        on_host (release_all env arrays es);
        if r \<noteq> 0 then do {
          on_host (throwSecurity env ''HPKE open rejected'');
          XFREE (Freed_bytes (blit (the pt) 0 (zeros (nat (int (length ct) - 16)))));
          ret (None, m)
        }
        else do {
          result \<leftarrow> on_host (NewByteArray env (nat (int (length ct) - 16)));
          (case result of None \<Rightarrow> ret () | Some a \<Rightarrow> on_host (SetByteArrayRegion env a 0 (take (nat (int (length ct) - 16)) (the pt))));
          XFREE (Freed_bytes (blit (the pt) 0 (zeros (nat (int (length ct) - 16)))));
          ret (result, m)
        }
      }) (open_post j privateKey pk enc ct info aad)"
proof (cases "None \<in> set es")
  case True
  then show ?thesis
    unfolding if_P [OF True]
    by (intro leaves_bind [OF leaves_host [OF all_released]])
       (use g x as in \<open>auto simp: kept_def intro!: leaves_bind [OF leaves_free] leaves_ret\<close>)
next
  case False
  have es: "es = map (A j) arrays" using held_all [OF g(5) False] .
  have n: "nat (int (length ct) - 16) = length ct - 16" by simp
  have e: "the (map (A j) arrays ! 0) = pk" "the (map (A j) arrays ! 1) = enc" "the (map (A j) arrays ! 2) = ct"
    "the (map (A j) arrays ! 3) = info" "the (map (A j) arrays ! 4) = aad"
    using x by (simp_all add: as)
  have n5: "N (host (world g)) = N j + 5" using g(4) x by (simp add: es as)
  show ?thesis
    unfolding if_not_P [OF False]
    unfolding es n e
    by (rule leaves_conseq [OF open_held [OF g(1) refl g(2,3) n5 as x ctx(1)]]) (auto simp: ctx(2) split: option.splits)
qed

lemma native_open:
  assumes inv: "zt_inv (world h)" and j: "host (world h) = j" "E j = None"
    and x: "A j jRecipient = Some pk" "A j jEnc = Some enc" "A j jCt = Some ct" "A j jInfo = Some info" "A j jAad = Some aad"
  shows "leaves (\<lambda>_. 0) h (nativeOpen env agreeMethod receiver privateKey jRecipient jEnc jCt jInfo jAad)
    (open_post j privateKey pk enc ct info aad)"
proof -
  have thr: "leaves (\<lambda>_. 0) g (do { on_host (throwSecurity env msg); ret (None, m) }) (open_post j privateKey pk enc ct info aad)"
    if "zt_inv (world g)" "A (host (world g)) = A j" "N (host (world g)) = N j" for g msg m
    by (rule leaves_bind [OF leaves_host [OF throw_wp]]) (use that in \<open>auto simp: kept_def intro!: leaves_ret\<close>)
  show ?thesis
    unfolding nativeOpen_def
    apply (rule leaves_bind [OF leaves_method])
      apply (use inv j in simp_all) [2]
    subgoal for m h1
      apply (rule if_split [THEN iffD2], intro conjI impI)
       apply (rule leaves_ret)
        apply simp
       apply (use j in \<open>auto simp: kept_def\<close>) [1]
      apply (rule leaves_length, use x j in simp)+
      apply (rule if_split [THEN iffD2], intro conjI impI)
       apply (unfold diff_zero)
       apply (rule thr; use j in simp)
      apply (unfold Let_def)
      apply (rule leaves_bind [OF leaves_malloc])
      apply (rule if_split [THEN iffD2], intro conjI impI)
       apply (simp only: if_False diff_zero simp_thms)
       apply (rule thr; use j in simp)
      apply (rule leaves_bind [OF leaves_host [OF hold_inputs]])
       apply (use x j in simp) [1]
      apply (rule leaves_conseq [OF with_inputs [OF x refl]])
              apply (use j in auto)
      done
    done
qed

lemma elements_refused:
  assumes "list_all (\<lambda>a. A j a \<noteq> None) as" "None \<in> set (fst (run_state (State_Monad.traverse_list (GetByteArrayElements env) as) j))"
  shows "wp (State_Monad.traverse_list (GetByteArrayElements env) as) (\<lambda>es j'. (A j' = A j \<and> E j' = E j \<and>
    N j' = N j + int (length (filter (\<lambda>e. e \<noteq> None) es)) \<and> list_all2 (\<lambda>a e. e = None \<or> e = A j a) as es) \<and> None \<in> set es) j"
  by (rule wp_conj [OF all_elements [OF assms(1)]]) (use assms(2) in \<open>auto simp: wp_def split: prod.splits\<close>)

text \<open>What becomes of a call whose inputs the virtual machine does not hand out.\<close>

lemma refused_inputs:
  assumes j: "host (world h) = j" "E j = None" and alloc: "alloc_ok h" and ct: "17 \<le> length ct"
    and x: "A j jRecipient = Some pk" "A j jEnc = Some enc" "A j jCt = Some ct" "A j jInfo = Some info" "A j jAad = Some aad"
    and no: "None \<in> set (fst (run_state (State_Monad.traverse_list (GetByteArrayElements env) [jRecipient, jEnc, jCt, jInfo, jAad]) j))"
  shows "leaves (\<lambda>_. 0) h (nativeOpen env (Some m) receiver privateKey jRecipient jEnc jCt jInfo jAad)
    (\<lambda>(res, m') w. res = None \<and> m' = Some m \<and> kept j (host w) \<and> E (host w) = None)"
proof -
  let ?as = "[jRecipient, jEnc, jCt, jInfo, jAad]"
  have all: "list_all (\<lambda>a. A j a \<noteq> None) ?as" using x by simp
  have fin: "leaves (\<lambda>_. - 1) g (do { on_host (release_all env ?as es); XFREE b; ret (None, Some m) })
      (\<lambda>(res, m') w. res = None \<and> m' = Some m \<and> kept j (host w) \<and> E (host w) = None)"
    if "A (host (world g)) = A j" "E (host (world g)) = E j" "N (host (world g)) = N j + int (length (filter (\<lambda>e. e \<noteq> None) es))"
      "list_all2 (\<lambda>a e. e = None \<or> e = A j a) ?as es" for g es b
    by (intro leaves_bind [OF leaves_host [OF all_released]])
       (use that x j(2) in \<open>auto simp: kept_def intro!: leaves_bind [OF leaves_free] leaves_ret\<close>)
  have sz: "\<not> (int (length ct) < 17 \<or> int (length pk) < 0 \<or> int (length enc) < 0 \<or> int (length info) < 0 \<or> int (length aad) < 0)"
    using ct by simp
  show ?thesis
    unfolding nativeOpen_def
    apply (simp only: option.distinct if_False State_Monad.bind_left_identity)
    apply (rule leaves_length, use x j in simp)+
    apply (unfold if_not_P [OF sz] Let_def)
    apply (rule leaves_bind [OF leaves_malloc])
    apply (rule if_split [THEN iffD2], intro conjI impI)
     apply (use alloc in simp) [1]
    apply (rule leaves_bind [OF leaves_host [OF elements_refused]])
      apply (use all no j in simp_all) [2]
    apply (rule if_split [THEN iffD2], intro conjI impI)
     apply (rule leaves_conseq [OF fin])
         apply (use j in auto)
    done
qed

end

section \<open>Properties\<close>

text \<open>C6: Opening from Java. Whatever the virtual machine does within its specification, \<open>nativeOpen\<close>
  returns an array only when the envelope opens: the array is new and holds the plaintext of
  \<open>OpenBase\<close> under a value that the Kotlin method returned for this key and this point, and no
  exception is pending. The five input arrays keep their contents, every array whose elements were
  held is released, and the native heap is balanced, on every path.\<close>

theorem native_open_correct:
  assumes "jni env A E N G" "zt_inv (world h)" "E (host (world h)) = None"
    "A (host (world h)) jRecipient = Some pk" "A (host (world h)) jEnc = Some enc" "A (host (world h)) jCt = Some ct"
    "A (host (world h)) jInfo = Some info" "A (host (world h)) jAad = Some aad"
    "run_state (nativeOpen env m receiver privateKey jRecipient jEnc jCt jInfo jAad) h = ((res, m'), h')"
  shows "zt_inv (world h') \<and> hp_live h' = hp_live h \<and> N (host (world h')) = N (host (world h)) \<and>
    (\<forall>x. A (host (world h)) x \<noteq> None \<longrightarrow> A (host (world h')) x = A (host (world h)) x) \<and>
    (case res of None \<Rightarrow> True
     | Some a \<Rightarrow> E (host (world h')) = None \<and> A (host (world h)) a = None \<and>
         (\<exists>dh p. G privateKey enc dh \<and> OpenBase 1 16 dh enc pk info aad ct = Some p \<and> A (host (world h')) a = Some p))"
  using leaves_run [OF jni.native_open [OF assms(1,2) refl assms(3-8)] assms(9)]
  by (auto simp: jni.kept_def [OF assms(1)] split: option.splits)

text \<open>A virtual machine with input arrays, for the witnesses.\<close>

definition demo_jvm :: "(nat \<Rightarrow> bool) \<Rightarrow> jvm" where
  "demo_jvm grant = \<lparr>jheap = [demo_point, demo_point, zeros 48, [1], [2], zeros 32], jpending = None, jpinned = 0, jgrant = grant, jrequests = 0\<rparr>"

definition demo_app :: "(nat \<Rightarrow> bool) \<Rightarrow> jvm zt_world env" where
  "demo_app grant = env0 (wc_world.extend (demo_world (wc_CryptoCb_Init devices_static))
     \<lparr>zt_device_registered = 0, wolfcrypt_init_state = in_use 1, host = demo_jvm grant\<rparr>)"

lemma demo_app: "zt_inv (world (demo_app g))" "host (world (demo_app g)) = demo_jvm g" "alloc_ok (demo_app g)" "hp_live (demo_app g) = 0"
  using Init_wf [of "devices_static :: zt_callback devices"]
  by (simp_all add: demo_app_def zt_inv_def env0_def alloc_ok_def wc_world.defs demo_world_def devices_static_def)

lemma demo_arrays:
  "jarrays (demo_jvm g) 0 = Some demo_point" "jarrays (demo_jvm g) 1 = Some demo_point" "jarrays (demo_jvm g) 2 = Some (zeros 48)"
  "jarrays (demo_jvm g) 3 = Some [1]" "jarrays (demo_jvm g) 4 = Some [2]" "jarrays (demo_jvm g) 5 = Some (zeros 32)" "jpending (demo_jvm g) = None" "jpinned (demo_jvm g) = 0"
  by (simp_all add: demo_jvm_def array_at_def)

theorem native_open_correct_witness:
  "\<exists>res m h'. run_state (nativeOpen (jvm_env (\<lambda>_ _. Returns (Some (replicate 32 9)))) None 0 0 0 1 2 3 4) (demo_app (\<lambda>_. True)) = ((res, m), h') \<and>
     zt_inv (world h') \<and> hp_live h' = 0 \<and> jpinned (host (world h')) = 0 \<and> jarrays (host (world h')) 2 = Some (zeros 48)"
proof -
  let ?f = "\<lambda>_ _. Returns (Some (replicate 32 9))"
  let ?m = "nativeOpen (jvm_env ?f) None 0 0 0 1 2 3 4" and ?h = "demo_app (\<lambda>_. True)"
  obtain res m h' where m: "run_state ?m ?h = ((res, m), h')" by (metis surj_pair)
  have "zt_inv (world h') \<and> hp_live h' = hp_live ?h \<and> jpinned (host (world h')) = jpinned (host (world ?h)) \<and>
      (\<forall>x. jarrays (host (world ?h)) x \<noteq> None \<longrightarrow> jarrays (host (world h')) x = jarrays (host (world ?h)) x)"
    using native_open_correct [OF jvm.jni_axioms [of ?f], of ?h 0 demo_point 1 demo_point 2 "zeros 48" 3 "[1]" 4 "[2]" None 0 0 res m h'] m
    by (simp add: demo_app demo_arrays del: One_nat_def)
  then show ?thesis using m by (simp add: demo_app demo_arrays)
qed



text \<open>The state of the library before it is loaded.\<close>

definition unloaded :: "'h zt_world \<Rightarrow> bool" where
  "unloaded w \<longleftrightarrow> wolfcrypt_init_state w = in_use 0 \<and> length (gCryptoDev w) = MAX_CRYPTO_DEVID_CALLBACKS \<and> zt_device_registered w = 0"

lemma load:
  assumes "unloaded (world h)"
  shows "\<exists>h1. JNI_OnLoad True h = Some (JNI_VERSION_1_6, h1) \<and> zt_inv (world h1) \<and> zt_device_registered (world h1) \<noteq> 0"
proof -
  let ?h = "h\<lparr>world := (world h)\<lparr>wolfcrypt_init_state := in_use 1, gCryptoDev := wc_CryptoCb_Init (gCryptoDev (world h))\<rparr>\<rparr>"
  have r: "run_init h = Some (0, ?h)" using assms by (simp add: run_init_def unloaded_def Init_used)
  have i: "zt_inv (world ?h)" using assms Init_wf [of "gCryptoDev (world h)"] by (simp add: zt_inv_def unloaded_def)
  obtain x h1 where x: "run_state zt_hpke_init ?h = (x, h1)" by (metis surj_pair)
  then have "x = 0" "world h1 = zt_ready (world ?h)" using leaves_run(1) [OF leaves_init [OF i] x] by simp_all
  then show ?thesis using r x zt_ready [OF i] by (simp add: JNI_OnLoad_def)
qed

lemma unload:
  assumes "zt_inv (world h)"
  shows "\<exists>h1. JNI_OnUnload True h = Some ((), h1) \<and> unloaded (world h1)"
proof -
  obtain x h1 where x: "run_state zt_hpke_deinit h = (x, h1)" by (metis surj_pair)
  then have i: "zt_inv (world h1)" "zt_device_registered (world h1) = 0"
    using leaves_run(1) [OF leaves_deinit [OF assms] x] by simp_all
  then show ?thesis
    using x Cleanup_used [of 1 "gCryptoDev (world h1)"] Cleanup_wf(1) [of "gCryptoDev (world h1)"]
    by (auto simp: JNI_OnUnload_def run_cleanup_def unloaded_def zt_inv_def dev_wf_def)
qed

lemma unload_detached:
  assumes "zt_inv (world h)"
  shows "\<exists>h1. JNI_OnUnload False h = Some ((), h1) \<and> zt_inv (world h1) \<and> zt_device_registered (world h1) = 0"
proof -
  obtain x h1 where x: "run_state zt_hpke_deinit h = (x, h1)" by (metis surj_pair)
  then show ?thesis
    using leaves_run(1) [OF leaves_deinit [OF assms] x] by (simp add: JNI_OnUnload_def)
qed

text \<open>C8: Loading and unloading, whether or not the virtual machine gives the thread its environment
  (\<open>GetEnv\<close>).  From the unloaded state, \<open>JNI_OnLoad\<close> answers \<open>JNI_ERR\<close> and changes nothing when \<open>GetEnv\<close> fails, and
  otherwise always answers the version.  After any calls of the core that follow a successful load,
  \<open>JNI_OnUnload\<close> returns: when \<open>GetEnv\<close> succeeds it leaves the unloaded state, from which the library can be
  loaded again, and when \<open>GetEnv\<close> fails it has removed the device but leaves the library initialised.\<close>

theorem load_unload_cycle:
  assumes "unloaded (world h)"
  shows "JNI_OnLoad False h = Some (JNI_ERR, h) \<and>
    (\<exists>h1. JNI_OnLoad True h = Some (JNI_VERSION_1_6, h1) \<and> zt_inv (world h1) \<and>
      (\<forall>tr h2. host_steps h1 (tr :: (('c, 'h) host_call \<times> int) list) h2 \<longrightarrow>
         (\<exists>h3. JNI_OnUnload True h2 = Some ((), h3) \<and> unloaded (world h3)) \<and>
         (\<exists>h4. JNI_OnUnload False h2 = Some ((), h4) \<and> zt_inv (world h4) \<and> zt_device_registered (world h4) = 0)))"
proof -
  obtain h1 where h1: "JNI_OnLoad True h = Some (JNI_VERSION_1_6, h1)" "zt_inv (world h1)" using load [OF assms] by auto
  have "JNI_OnLoad False h = Some (JNI_ERR, h)" by (simp add: JNI_OnLoad_def)
  then show ?thesis using h1 host_steps_inv unload unload_detached by blast
qed

theorem load_unload_cycle_witness:
  "\<exists>h1 h3. JNI_OnLoad True (env0 (wc_world.extend (demo_world devices_static)
       \<lparr>zt_device_registered = 0, wolfcrypt_init_state = WC_INIT_STATE_INITIALIZER, host = ()\<rparr>)) = Some (JNI_VERSION_1_6, h1) \<and>
     JNI_OnUnload True h1 = Some ((), h3) \<and> unloaded (world h3)"
proof -
  let ?h = "env0 (wc_world.extend (demo_world devices_static)
       \<lparr>zt_device_registered = 0, wolfcrypt_init_state = WC_INIT_STATE_INITIALIZER, host = ()\<rparr>)"
  have "unloaded (world ?h)"
    by (simp add: env0_def unloaded_def wc_world.defs demo_world_def devices_static_def in_use_def WC_INIT_STATE_INITIALIZER_def)
  from load_unload_cycle [OF this] show ?thesis by (meson host_refl)
qed

end
