(* ===== verification/SenderJni.thy ===== *)
theory SenderJni
  imports Jni
begin

text \<open>
  The sender's adapter, \<open>zrotext_hpke_sender_jni.c\<close>: the agreement with a one-use key through a Kotlin
  method, and \<open>nativeSeal\<close>.
\<close>

section \<open>The adapter\<close>

record 'j SenderBridge =
  sb_env :: "'j JNIEnv"
  sb_sender :: jref
  sb_privateKey :: jref
  sb_agree :: nat

text \<open>The code up to the label \<open>done\<close>: the code, the secret, the array returned and its elements when
  they are still held.\<close>

definition sender_agree_body ::
  "'j SenderBridge \<Rightarrow> jref option \<Rightarrow> byte list \<Rightarrow> ('j, int \<times> byte list \<times> jref option \<times> (int \<times> byte list) option) state" where
  "sender_agree_body b peer peerPoint = (let env = sb_env b in do {
     bad \<leftarrow> (if peer = None then ret True else ExceptionCheck env);
     if bad then ret (BAD_STATE_E, [], None, None)
     else do {
       SetByteArrayRegion env (the peer) 0 peerPoint;
       e \<leftarrow> ExceptionCheck env;
       if e then ret (BAD_STATE_E, [], None, None)
       else do {
         dhArray \<leftarrow> CallObjectMethod env (sb_sender b) (sb_agree b) (sb_privateKey b) (the peer);
         e \<leftarrow> ExceptionCheck env;
         (case dhArray of
            None \<Rightarrow> ret (BAD_STATE_E, [], None, None)
          | Some a \<Rightarrow>
              if e then ret (BAD_STATE_E, [], dhArray, None)
              else do {
                secretSz \<leftarrow> GetArrayLength env a;
                bytes \<leftarrow> GetByteArrayElements env a;
                (case bytes of
                   None \<Rightarrow> ret (BAD_STATE_E, [], dhArray, None)
                 | Some xs \<Rightarrow>
                     if secretSz \<noteq> 32 then ret (BAD_STATE_E, [], dhArray, Some (secretSz, xs))
                     else do {
                       ReleaseByteArrayElements env a (ForceZero 0 xs 32) Copy_back;
                       ret (0, take 32 xs, dhArray, None)
                     })
              })
       }
     }
   })"

definition sender_agree :: "'j SenderBridge \<Rightarrow> byte list \<Rightarrow> ('j, int \<times> byte list) state" where
  "sender_agree b peerPoint = (let env = sb_env b in do {
     peer \<leftarrow> NewByteArray env 65;
     (rc, out, dhArray, bytes) \<leftarrow> sender_agree_body b peer peerPoint;
     (case bytes of None \<Rightarrow> ret () | Some (n, xs) \<Rightarrow> ReleaseByteArrayElements env (the dhArray) (ForceZero 0 xs (nat n)) Copy_back);
     (case peer of None \<Rightarrow> ret () | Some a \<Rightarrow> DeleteLocalRef env (ArrayRef a));
     (case dhArray of None \<Rightarrow> ret () | Some a \<Rightarrow> DeleteLocalRef env (ArrayRef a));
     e \<leftarrow> ExceptionCheck env;
     (if e then ExceptionClear env else ret ());
     ret (rc, out)
   })"

section \<open>Sealing from Java\<close>

text \<open>The code up to the label \<open>done\<close>: the result, the elements that are held, the class and the output buffer.
  The lengths in the condition are asked for from left to right, as far as \<open>||\<close> evaluates.\<close>

definition nativeSeal_body ::
  "'j JNIEnv \<Rightarrow> jref \<Rightarrow> jref \<Rightarrow> jref list \<Rightarrow> ('j zt_world, jref option \<times> byte list option list \<times> jclass option \<times> byte list) cmd" where
  "nativeSeal_body env sender privateKey arrays = do {
     infoSz \<leftarrow> on_host (GetArrayLength env (arrays ! 3));
     aadSz \<leftarrow> on_host (GetArrayLength env (arrays ! 4));
     bad \<leftarrow> do {
       encSz \<leftarrow> on_host (GetArrayLength env (arrays ! 0));
       if encSz \<noteq> 65 then ret True
       else do {
         recipientSz \<leftarrow> on_host (GetArrayLength env (arrays ! 1));
         if recipientSz \<noteq> 65 then ret True
         else do {
           cekSz \<leftarrow> on_host (GetArrayLength env (arrays ! 2));
           ret (cekSz \<noteq> 32 \<or> infoSz < 1 \<or> infoSz > 1024 \<or> aadSz < 1 \<or> aadSz > 1024)
         }
       }
     };
     if bad then ret (None, replicate 5 None, None, zeros 48)
     else do {
       cls \<leftarrow> on_host (GetObjectClass env sender);
       if cls = None then ret (None, replicate 5 None, None, zeros 48)
       else do {
         agree \<leftarrow> on_host (GetMethodID env cls AGREE_METHOD_NAME AGREE_METHOD_SIG);
         if agree = None then ret (None, replicate 5 None, cls, zeros 48)
         else do {
           es \<leftarrow> on_host (State_Monad.traverse_list (GetByteArrayElements env) arrays);
           if None \<in> set es then ret (None, es, cls, zeros 48)
           else do {
             let core = \<lparr>bridge_agree = Some sender_agree,
               bridge_ctx = \<lparr>sb_env = env, sb_sender = sender, sb_privateKey = privateKey, sb_agree = the agree\<rparr>\<rparr>;
             (rc, ct) \<leftarrow> zt_hpke_seal_cek (Some core) (Buf (the (es ! 0))) (Buf (the (es ! 1))) (Buf (the (es ! 2)))
                (Buf (the (es ! 3))) (Buf (the (es ! 4))) (Some (zeros 48));
             if rc = 0 then do {
               result \<leftarrow> on_host (NewByteArray env 48);
               (case result of None \<Rightarrow> ret () | Some a \<Rightarrow> on_host (SetByteArrayRegion env a 0 (the ct)));
               ret (result, es, cls, the ct)
             }
             else ret (None, es, cls, the ct)
           }
         }
       }
     }
   }"

text \<open>The releases: the copy of the content key is zeroed and copied back, the others are not.\<close>

definition nativeSeal_release :: "'j JNIEnv \<Rightarrow> jref list \<Rightarrow> byte list option list \<Rightarrow> ('j, unit) state" where
  "nativeSeal_release env arrays es = do {
     release_all env (take 2 arrays) (take 2 es);
     (case es ! 2 of None \<Rightarrow> ret () | Some xs \<Rightarrow> ReleaseByteArrayElements env (arrays ! 2) (ForceZero 0 xs 32) Copy_back);
     release_all env (drop 3 arrays) (drop 3 es);
     ret ()
   }"

definition nativeSeal ::
  "'j JNIEnv \<Rightarrow> jref \<Rightarrow> jref option \<Rightarrow> jref option \<Rightarrow> jref option \<Rightarrow> jref option \<Rightarrow> jref option \<Rightarrow> jref option \<Rightarrow>
   ('j zt_world, jref option) cmd" where
  "nativeSeal env sender privateKey jEnc jRecipient jCek jInfo jAad = do {
     let objects = [privateKey, jEnc, jRecipient, jCek, jInfo, jAad];
     let arrays = map the (tl objects);
     (result, es, cls, ct) \<leftarrow>
       (if None \<in> set objects then ret (None, replicate 5 None, None, zeros 48)
        else nativeSeal_body env sender (the privateKey) arrays);
     on_host (nativeSeal_release env arrays es);
     (case cls of None \<Rightarrow> ret () | Some c \<Rightarrow> on_host (DeleteLocalRef env (ClassRef c)));
     end_of_life (Freed_bytes (ForceZero 0 ct 48));
     (if result = None then do {
        e \<leftarrow> on_host (ExceptionCheck env);
        if e then ret ()
        else do {
          failure \<leftarrow> on_host (FindClass env ''java/security/GeneralSecurityException'');
          (case failure of None \<Rightarrow> ret () | Some c \<Rightarrow> do {
             on_host (ThrowNew env c ''HPKE wrap refused'');
             on_host (DeleteLocalRef env (ClassRef c))
           })
        }
      } else ret ());
     ret result
   }"

section \<open>The agreement\<close>

context jni
begin

text \<open>The arrays of \<open>j\<close> are as they were in \<open>j'\<close>.\<close>

abbreviation same_arrays :: "'j \<Rightarrow> 'j \<Rightarrow> bool" where
  "same_arrays j j' \<equiv> \<forall>x. A j x \<noteq> None \<longrightarrow> A j' x = A j x"

definition body_post :: "'j \<Rightarrow> jref \<Rightarrow> byte list \<Rightarrow> int \<times> byte list \<times> jref option \<times> (int \<times> byte list) option \<Rightarrow> 'j \<Rightarrow> bool" where
  "body_post j key p = (\<lambda>(rc, out, dh, bytes) j'. same_arrays j j' \<and> (case dh of None \<Rightarrow> True | Some a \<Rightarrow> A j a = None) \<and>
     (case bytes of None \<Rightarrow> N j' = N j
      | Some (n, xs) \<Rightarrow> N j' = N j + 1 \<and> n = int (length xs) \<and> (\<exists>a. dh = Some a \<and> A j' a = Some xs)) \<and>
     (rc = 0 \<and> length out = 32 \<and> G key p out \<or> rc = BAD_STATE_E \<and> out = []))"

lemma sender_returned:
  assumes "same_arrays j j1" "N j1 = N j" "A j a = None" "A j1 a = Some xs" "G key p xs"
  shows "wp (do {
      secretSz \<leftarrow> GetArrayLength env a;
      bytes \<leftarrow> GetByteArrayElements env a;
      (case bytes of
         None \<Rightarrow> ret (BAD_STATE_E, [], Some a, None)
       | Some xs \<Rightarrow>
           if secretSz \<noteq> 32 then ret (BAD_STATE_E, [], Some a, Some (secretSz, xs))
           else do {
             ReleaseByteArrayElements env a (ForceZero 0 xs 32) Copy_back;
             ret (0, take 32 xs, Some a, None)
           }) }) (body_post j key p) j1"
proof -
  have r: "wp (ReleaseByteArrayElements env a (ForceZero 0 xs 32) Copy_back) (\<lambda>_ j'. same_arrays j j' \<and> N j' = N j) j2"
    if "length xs = 32" "A j2 = A j1" "N j2 = N j + 1" for j2
    by (rule wp_conseq [OF release [of j2 a xs]]) (use that assms in \<open>auto simp: ForceZero_zeros\<close>)
  show ?thesis
    unfolding wp_bind wp_length [OF assms(4)]
    apply (rule wp_conseq [OF elements [OF assms(4)]])
    apply (auto simp: body_post_def assms split: option.splits)
    apply (rule wp_conseq [OF r])
       apply (use assms in auto)
    done
qed

lemma sender_body:
  assumes "sb_env b = env" "length p = 65" "N j1 = N j"
    "case peer of None \<Rightarrow> A j1 = A j | Some a \<Rightarrow> A j a = None \<and> A j1 = (A j)(a \<mapsto> zeros 65)"
  shows "wp (sender_agree_body b peer p) (body_post j (sb_privateKey b) p) j1"
proof -
  have m: "wp (SetByteArrayRegion env a 0 p) (\<lambda>_ j'. same_arrays j j' \<and> N j' = N j \<and> A j' a = Some p) j1" if "peer = Some a" for a
    by (rule wp_conseq [OF set_region [of j1 a "zeros 65"]]) (use that assms in auto)
  have fail: "body_post j key p (BAD_STATE_E, [], dh, None) j2"
    if "same_arrays j j2" "N j2 = N j" "case dh of None \<Rightarrow> True | Some a \<Rightarrow> A j a = None" for j2 dh key
    using that by (simp add: body_post_def)
  have call': "wp (CallObjectMethod env rc me k a) (\<lambda>r j'. same_arrays j j' \<and> N j' = N j \<and>
      (case r of None \<Rightarrow> True | Some x \<Rightarrow> A j x = None \<and> (\<exists>xs. A j' x = Some xs \<and> G k p xs))) j2"
    if "same_arrays j j2" "N j2 = N j" "A j2 a = Some p" for rc me k a j2
    by (rule wp_conseq [OF call [OF that(3)]]) (use that in \<open>auto split: option.splits\<close>)
  show ?thesis
  proof (cases peer)
    case None
    then show ?thesis using assms fail [of j1 None] by (simp add: sender_agree_body_def Let_def)
  next
    case (Some a)
    show ?thesis
      unfolding sender_agree_body_def Let_def assms(1) Some
      apply (simp del: wp_bind)
      apply (simp only: wp_bind wp_check)
      apply (rule if_split [THEN iffD2], intro conjI impI)
       apply (use Some assms fail [of j1 None] in simp) [1]
      apply (simp only: wp_bind option.sel)
      apply (rule wp_conseq [OF m [OF Some]])
      apply (simp only: wp_bind wp_check)
      apply (rule if_split [THEN iffD2], intro conjI impI)
       apply (use fail in simp) [1]
      apply (simp only: wp_bind option.sel)
      apply (rule wp_conseq [OF call'])
         apply auto [3]
      apply (simp only: wp_bind wp_check)
      subgoal for u j2 dh j3
        apply (cases dh)
         apply (use fail in simp) [1]
        apply (simp only: option.case)
        apply (rule if_split [THEN iffD2], intro conjI impI)
         apply (use fail in simp) [1]
        apply (elim conjE exE)
        apply (rule sender_returned)
            apply auto
        done
      done
  qed
qed

lemma delete_fresh:
  assumes "kept j j1" "case r of None \<Rightarrow> True | Some a \<Rightarrow> A j a = None"
  shows "wp (case r of None \<Rightarrow> ret () | Some a \<Rightarrow> DeleteLocalRef env (ArrayRef a)) (\<lambda>_ j'. kept j j') j1"
proof (cases r)
  case (Some a)
  then show ?thesis using assms by simp (rule wp_conseq [OF delete], auto intro: kept_delete)
qed (use assms in simp)

lemma sender_released:
  assumes "body_post j key p (rc, out, dh, bytes) j1"
  shows "wp (case bytes of None \<Rightarrow> ret () | Some (n, xs) \<Rightarrow> ReleaseByteArrayElements env (the dh) (ForceZero 0 xs (nat n)) Copy_back)
    (\<lambda>_ j'. kept j j') j1"
proof (cases bytes)
  case None
  then show ?thesis using assms by (simp add: body_post_def kept_def)
next
  case (Some b)
  then obtain n xs a where b: "bytes = Some (n, xs)" "dh = Some a" "n = int (length xs)" "A j1 a = Some xs" "N j1 = N j + 1" "same_arrays j j1" "A j a = None"
    using assms by (cases b) (auto simp: body_post_def)
  then show ?thesis
    by simp (rule wp_conseq [OF release [OF b(4)]], auto simp: ForceZero_zeros kept_def)
qed

lemma clear_pending:
  assumes "kept j j1"
  shows "wp (do { e \<leftarrow> ExceptionCheck env; if e then ExceptionClear env else ret () }) (\<lambda>_ j'. kept j j' \<and> E j' = None) j1"
  using assms wp_conseq [OF clear [of j1], of "\<lambda>_ j'. kept j j' \<and> E j' = None"] by (auto simp: kept_def)

lemma sender_agree_wp:
  assumes "sb_env b = env" "length p = 65"
  shows "wp (sender_agree b p) (\<lambda>(rc, out) j'. kept j j' \<and> E j' = None \<and>
    (rc = 0 \<and> length out = 32 \<and> G (sb_privateKey b) p out \<or> rc = BAD_STATE_E \<and> out = [])) j"
proof -
  have c: "wp (ExceptionCheck env) (\<lambda>e. wp (if e then ExceptionClear env else ret ()) Q) j1" if "kept j j1" "\<And>u j'. kept j j' \<and> E j' = None \<Longrightarrow> Q u j'" for j1 Q
    by (rule wp_conseq [OF clear_pending [OF that(1), unfolded wp_bind]], erule wp_conseq, rule that(2))
  show ?thesis
    unfolding sender_agree_def Let_def assms(1) wp_bind
    apply (rule wp_conseq [OF new_array])
    apply (rule wp_conseq [OF sender_body [OF assms]])
      apply simp
     apply (auto split: option.splits) [1]
    apply (clarsimp simp del: wp_bind)
    subgoal for peer j1 rc out dh bytes j2
      apply (unfold wp_bind)
      apply (rule wp_conseq [OF sender_released], assumption)
      apply (rule wp_conseq [OF delete_fresh])
        apply assumption
       apply (auto split: option.splits) [1]
      apply (rule wp_conseq [OF delete_fresh])
        apply assumption
       apply (auto simp: body_post_def) [1]
      apply (rule c, assumption)
      apply (auto simp: body_post_def)
      done
    done
qed

lemma sender_core:
  assumes "sb_env ctx = env" "length p = 65" and b: "b = \<lparr>bridge_agree = Some sender_agree, bridge_ctx = ctx\<rparr>"
  shows "kept j (zt_after b p j) \<and> E (zt_after b p j) = None"
    "zt_rc b p j = 0 \<Longrightarrow> G (sb_privateKey ctx) p (zt_dh b p j)"
  using sender_agree_wp [OF assms(1,2), of j]
  by (auto simp: b zt_after_def zt_rc_def zt_dh_def zt_answer_def wp_def written_def rc_defs split: prod.splits)

end

section \<open>Sealing\<close>

lemma leaves_seal_total:
  assumes "zt_inv (world h)"
  shows "leaves (\<lambda>_. 0) h (zt_hpke_seal_cek (Some b) (Buf eph) (Buf pk) (Buf cek) (Buf info) (Buf aad) (Some ct))
    (\<lambda>(r, out) w. zt_inv w \<and> (host w = host (world h) \<and> r \<noteq> 0 \<or> length pk = 65 \<and> host w = zt_after b pk (host (world h))) \<and>
       (r = 0 \<longrightarrow> zt_rc b pk (host (world h)) = 0 \<and>
          out = Some (SealBase 1 16 (zt_dh b pk (host (world h))) eph pk info aad cek @ drop 48 ct) \<and>
          length (SealBase 1 16 (zt_dh b pk (host (world h))) eph pk info aad cek) = 48))"
proof (cases "zt_seal_args (Some b) (Buf eph) (Buf pk) (Buf cek) (Buf info) (Buf aad) (Some ct) = 0")
  case True
  note d = seal_argsD [OF True]
  have l: "length (SealBase 1 16 (zt_dh b pk (host (world h))) eph pk info aad cek) = 48"
    using length_SealBase [of cek aad "zt_dh b pk (host (world h))" eph pk info] d(3,9) by simp
  show ?thesis
    apply (rule leaves_conseq [OF leaves_seal [OF assms True]])
    apply clarsimp
    apply (erule seal_spec.cases)
         apply (use d(2) l in \<open>simp_all add: rc_defs host_code_def key_format_code_def\<close>)
      apply auto
    done
next
  case False
  then show ?thesis using assms by (simp add: zt_hpke_seal_cek_def Let_def leaves_ret)
qed

context jni
begin

definition seal_body_post ::
  "'j \<Rightarrow> jref \<Rightarrow> jref list \<Rightarrow> byte list \<Rightarrow> byte list \<Rightarrow> byte list \<Rightarrow> byte list \<Rightarrow> byte list \<Rightarrow>
   jref option \<times> byte list option list \<times> jclass option \<times> byte list \<Rightarrow> 'j zt_world \<Rightarrow> bool" where
  "seal_body_post j key arrays enc pk cek info aad = (\<lambda>(res, es, cls, ct) w. zt_inv w \<and> same_arrays j (host w) \<and>
     list_all2 (\<lambda>a e. e = None \<or> e = A j a) arrays es \<and> (es ! 2 = None \<or> length cek = 32) \<and>
     N (host w) = N j + int (length (filter (\<lambda>e. e \<noteq> None) es)) \<and>
     (case res of None \<Rightarrow> True
      | Some a \<Rightarrow> E (host w) = None \<and> A j a = None \<and> es ! 2 \<noteq> None \<and>
          (\<exists>dh. G key pk dh \<and> A (host w) a = Some (SealBase 1 16 dh enc pk info aad cek))))"

lemma seal_held:
  assumes inv: "zt_inv (world h)" and j: "host (world h) = j1" "A j1 = A j" "E j1 = None" "N j1 = N j + 5"
    and as: "arrays = [jEnc, jRecipient, jCek, jInfo, jAad]"
    and x: "A j jEnc = Some enc" "A j jRecipient = Some pk" "A j jCek = Some cek" "A j jInfo = Some info" "A j jAad = Some aad"
    and ctx: "sb_env ctx = env" and l: "length cek = 32"
  shows "leaves (\<lambda>_. 0) h (do {
      (rc, ct) \<leftarrow> zt_hpke_seal_cek (Some \<lparr>bridge_agree = Some sender_agree, bridge_ctx = ctx\<rparr>) (Buf enc) (Buf pk) (Buf cek) (Buf info) (Buf aad)
        (Some (zeros 48));
      if rc = 0 then do {
        result \<leftarrow> on_host (NewByteArray env 48);
        (case result of None \<Rightarrow> ret () | Some a \<Rightarrow> on_host (SetByteArrayRegion env a 0 (the ct)));
        ret (result, map (A j) arrays, cls, the ct)
      }
      else ret (None, map (A j) arrays, cls, the ct) })
    (seal_body_post j (sb_privateKey ctx) arrays enc pk cek info aad)"
proof -
  define b where "b = \<lparr>bridge_agree = Some sender_agree, bridge_ctx = ctx\<rparr>"
  let ?Q = "seal_body_post j (sb_privateKey ctx) arrays enc pk cek info aad"
  have es: "list_all2 (\<lambda>a e. e = None \<or> e = A j a) arrays (map (A j) arrays)" "map (A j) arrays ! 2 \<noteq> None"
    "length (filter (\<lambda>e. e \<noteq> None) (map (A j) arrays)) = 5" using x by (simp_all add: as)
  have fail: "?Q (None, map (A j) arrays, cls, bs) w" if "zt_inv w" "kept j1 (host w)" for w bs
    using that es j l by (auto simp: seal_body_post_def kept_def)
  have new: "wp (NewByteArray env 48) (\<lambda>r j'. kept j1 j' \<and> (case r of None \<Rightarrow> True
      | Some a \<Rightarrow> A j a = None \<and> A j' a = Some (zeros 48) \<and> E j' = None)) j2" if "kept j1 j2" "E j2 = None" for j2
    by (rule wp_conseq [OF new_array]) (use that j in \<open>auto simp: kept_def split: option.splits\<close>)
  have reg: "wp (SetByteArrayRegion env a 0 p) (\<lambda>_ j'. kept j1 j' \<and> E j' = None \<and> A j' a = Some p) j3"
    if "kept j1 j3" "E j3 = None" "A j a = None" "A j3 a = Some (zeros 48)" "length p = 48" for j3 a p
    by (rule wp_conseq [OF set_region [OF that(4)]]) (use that j in \<open>auto simp: kept_def\<close>)
  show ?thesis
    unfolding b_def [symmetric]
    apply (rule leaves_bind [OF leaves_seal_total [OF inv]])
    apply (clarsimp simp: j(1) simp del: State_Monad.bind_assoc split del: if_split)
    subgoal for r ct h1
    proof -
      assume i: "zt_inv (world h1)"
        and o: "r = 0 \<longrightarrow> zt_rc b pk j1 = 0 \<and> ct = Some (SealBase 1 16 (zt_dh b pk j1) enc pk info aad cek) \<and>
          length (SealBase 1 16 (zt_dh b pk j1) enc pk info aad cek) = 48"
        and w: "host (world h1) = j1 \<and> r \<noteq> 0 \<or> length pk = 65 \<and> host (world h1) = zt_after b pk j1"
      then have k: "kept j1 (host (world h1))" "E (host (world h1)) = None"
        using sender_core(1) [OF ctx _ b_def] j(3) by auto
      show ?thesis
      proof (cases "r = 0")
        case False
        then show ?thesis using fail [OF i k(1)] by (simp add: leaves_ret)
      next
        case True
        have g: "G (sb_privateKey ctx) pk (zt_dh b pk j1)" using sender_core(2) [OF ctx _ b_def] o w True by auto
        show ?thesis
          unfolding if_P [OF True]
          apply (rule leaves_bind [OF leaves_host [OF new [OF k]]])
          subgoal for res h2
            apply (cases res)
             apply (simp add: leaves_ret fail i)
            apply (simp add: o True)
            apply (rule leaves_bind [OF leaves_host [OF reg]])
                 apply (use o True in simp_all) [5]
            apply (rule leaves_ret)
             apply simp
            apply (use g i es j l in \<open>auto simp: seal_body_post_def kept_def\<close>)
            done
          done
      qed
    qed
    done
qed

end

context jni
begin

lemma seal_sizes:
  assumes "A (host (world h)) (arrays ! 0) = Some enc" "A (host (world h)) (arrays ! 1) = Some pk" "A (host (world h)) (arrays ! 2) = Some cek"
  shows "leaves (\<lambda>_. 0) h (do {
       encSz \<leftarrow> on_host (GetArrayLength env (arrays ! 0));
       if encSz \<noteq> 65 then ret True
       else do {
         recipientSz \<leftarrow> on_host (GetArrayLength env (arrays ! 1));
         if recipientSz \<noteq> 65 then ret True
         else do {
           cekSz \<leftarrow> on_host (GetArrayLength env (arrays ! 2));
           ret (cekSz \<noteq> 32 \<or> infoSz < 1 \<or> infoSz > 1024 \<or> aadSz < 1 \<or> aadSz > 1024)
         }
       }
     })
    (\<lambda>bad w. host w = host (world h) \<and> zt_inv w = zt_inv (world h) \<and> (\<not> bad \<longrightarrow> length cek = 32))"
  apply (rule leaves_length [OF assms(1)])
  apply (rule if_split [THEN iffD2], intro conjI impI)
   apply (rule leaves_ret; simp)
  apply (rule leaves_length, use assms(2) in simp)
  apply (rule if_split [THEN iffD2], intro conjI impI)
   apply (rule leaves_ret; simp)
  apply (rule leaves_length, use assms(3) in simp)
  apply (rule leaves_ret; simp)
  done

lemma seal_body:
  assumes inv: "zt_inv (world h)" and j: "host (world h) = j" "E j = None"
    and as: "arrays = [jEnc, jRecipient, jCek, jInfo, jAad]"
    and x: "A j jEnc = Some enc" "A j jRecipient = Some pk" "A j jCek = Some cek" "A j jInfo = Some info" "A j jAad = Some aad"
  shows "leaves (\<lambda>_. 0) h (nativeSeal_body env sender privateKey arrays) (seal_body_post j privateKey arrays enc pk cek info aad)"
    (is "leaves _ _ _ ?Q")
proof -
  have x': "A j (arrays ! 0) = Some enc" "A j (arrays ! 1) = Some pk" "A j (arrays ! 2) = Some cek" "A j (arrays ! 3) = Some info" "A j (arrays ! 4) = Some aad"
    using x by (simp_all add: as)
  have fail: "?Q (None, replicate 5 None, cls, bs) w" if "zt_inv w" "A (host w) = A j" "N (host w) = N j" for w cls bs
    using that by (simp add: seal_body_post_def as numeral_eq_Suc)
  have held: "leaves (\<lambda>_. 0) g (if None \<in> set es then ret (None, es, cls, zeros 48) else do {
      (rc, ct) \<leftarrow> zt_hpke_seal_cek (Some \<lparr>bridge_agree = Some sender_agree, bridge_ctx = ctx\<rparr>) (Buf (the (es ! 0))) (Buf (the (es ! 1)))
        (Buf (the (es ! 2))) (Buf (the (es ! 3))) (Buf (the (es ! 4))) (Some (zeros 48));
      if rc = 0 then do {
        result \<leftarrow> on_host (NewByteArray env 48);
        (case result of None \<Rightarrow> ret () | Some a \<Rightarrow> on_host (SetByteArrayRegion env a 0 (the ct)));
        ret (result, es, cls, the ct)
      }
      else ret (None, es, cls, the ct) }) ?Q"
    if g: "zt_inv (world g)" "A (host (world g)) = A j" "E (host (world g)) = None"
      "N (host (world g)) = N j + int (length (filter (\<lambda>e. e \<noteq> None) es))" "list_all2 (\<lambda>a e. e = None \<or> e = A j a) arrays es"
      "sb_env ctx = env" "sb_privateKey ctx = privateKey" "length cek = 32" for g es cls ctx
  proof (cases "None \<in> set es")
    case True
    then show ?thesis using g by (auto simp: seal_body_post_def intro!: leaves_ret)
  next
    case False
    have es: "es = map (A j) arrays" using held_all [OF g(5) False] .
    have e: "the (map (A j) arrays ! 0) = enc" "the (map (A j) arrays ! 1) = pk" "the (map (A j) arrays ! 2) = cek"
      "the (map (A j) arrays ! 3) = info" "the (map (A j) arrays ! 4) = aad"
      using x by (simp_all add: as)
    have n5: "N (host (world g)) = N j + 5" using g(4) x by (simp add: es as)
    show ?thesis
      unfolding if_not_P [OF False]
      unfolding es e using seal_held [OF g(1) refl g(2,3) n5 as x g(6,8)] g(7) by simp
  qed
  show ?thesis
    unfolding nativeSeal_body_def
    apply (rule leaves_length, use x' j in simp)+
    apply (rule leaves_bind [OF seal_sizes])
       apply (use x' j in simp_all) [3]
    apply (rule if_split [THEN iffD2], intro conjI impI)
     apply (rule leaves_ret)
      apply (use inv j fail in simp_all) [2]
    apply (rule leaves_bind [OF leaves_host [OF object_class]])
    apply (rule if_split [THEN iffD2], intro conjI impI)
     apply (rule leaves_ret)
      apply (use inv j fail in simp_all) [2]
    apply (rule leaves_bind [OF leaves_host [OF method_id]])
    apply (rule if_split [THEN iffD2], intro conjI impI)
     apply (rule leaves_ret)
      apply (use inv j fail in simp_all) [2]
    apply (unfold Let_def)
    apply (rule leaves_bind [OF leaves_host [OF hold_inputs]])
     apply (use x j in \<open>simp add: as\<close>) [1]
    apply (rule leaves_conseq [OF held])
            apply (use inv j in auto)
    done
qed

lemma seal_released:
  assumes as: "arrays = [jEnc, jRecipient, jCek, jInfo, jAad]"
    and x: "A j jEnc = Some enc" "A j jRecipient = Some pk" "A j jCek = Some cek" "A j jInfo = Some info" "A j jAad = Some aad"
    and j1: "same_arrays j j1" "N j1 = N j + int (length (filter (\<lambda>e. e \<noteq> None) es))"
    and es: "list_all2 (\<lambda>a e. e = None \<or> e = A j a) arrays es" "es ! 2 = None \<or> length cek = 32"
  shows "wp (nativeSeal_release env arrays es) (\<lambda>_ j'. N j' = N j \<and> E j' = E j1 \<and>
    A j' = (if es ! 2 = None then A j1 else (A j1)(jCek \<mapsto> zeros 32))) j1"
proof -
  obtain e0 e1 e2 e3 e4 where e: "es = [e0, e1, e2, e3, e4]" "e0 = None \<or> e0 = Some enc" "e1 = None \<or> e1 = Some pk"
      "e2 = None \<or> e2 = Some cek" "e3 = None \<or> e3 = Some info" "e4 = None \<or> e4 = Some aad"
    using es(1) x by (auto simp: as list_all2_Cons1)
  have j1': "A j1 jEnc = Some enc" "A j1 jRecipient = Some pk" "A j1 jCek = Some cek" "A j1 jInfo = Some info" "A j1 jAad = Some aad"
    using j1(1) x by simp_all
  define n where "n = (\<lambda>es :: byte list option list. int (length (filter (\<lambda>e. e \<noteq> None) es)))"
  have 1: "wp (release_all env [jEnc, jRecipient] [e0, e1]) (\<lambda>_ j'. A j' = A j1 \<and> E j' = E j1 \<and> N j' = N j1 - n [e0, e1]) j1"
    unfolding n_def by (rule all_released_len) (use e j1' in auto)
  have 2: "wp (case e2 of None \<Rightarrow> ret () | Some xs \<Rightarrow> ReleaseByteArrayElements env jCek (ForceZero 0 xs 32) Copy_back)
      (\<lambda>_ j'. A j' = (if e2 = None then A j1 else (A j1)(jCek \<mapsto> zeros 32)) \<and> E j' = E j1 \<and> N j' = N j2 - n [e2]) j2"
    if "A j2 = A j1" "E j2 = E j1" for j2
  proof (cases e2)
    case (Some xs)
    then have xs: "xs = cek" "length cek = 32" using e es(2) by auto
    have "A j2 jCek = Some cek" using that j1' by simp
    from wp_conseq [OF release [OF this, of "ForceZero 0 cek 32" Copy_back]] show ?thesis
      using that Some xs by (simp add: n_def ForceZero_zeros)
  qed (use that in \<open>simp add: n_def\<close>)
  have 3: "wp (release_all env [jInfo, jAad] [e3, e4]) (\<lambda>_ j'. A j' = A j3 \<and> E j' = E j3 \<and> N j' = N j3 - n [e3, e4]) j3"
    if "A j3 = (if e2 = None then A j1 else (A j1)(jCek \<mapsto> zeros 32))" for j3
    unfolding n_def by (rule all_released_len) (use that e j1' es(2) x in \<open>auto split: if_splits\<close>)
  have n: "N j1 = N j + n [e0, e1] + n [e2] + n [e3, e4]" using j1(2) by (simp add: n_def e)
  have l: "take 2 [a, b, c, d, f] = [a, b]" "drop 3 [a, b, c, d, f] = [d, f]" "[a, b, c, d, f] ! 2 = c" for a b c d f :: 'q
    by simp_all
  show ?thesis
    unfolding nativeSeal_release_def wp_bind as e(1) l
    apply (rule wp_conseq [OF 1])
    apply (rule wp_conseq [OF 2])
      apply simp_all [2]
    apply (rule wp_conseq [OF 3])
     apply (simp_all add: n)
    done
qed

text \<open>The end of \<open>nativeSeal\<close>: nothing but an exception becomes of a missing result.\<close>

lemma seal_report:
  assumes "zt_inv (world h)" "res \<noteq> None \<longrightarrow> E (host (world h)) = None"
  shows "leaves (\<lambda>_. 0) h (if res = None then do {
      e \<leftarrow> on_host (ExceptionCheck env);
      if e then ret ()
      else do {
        failure \<leftarrow> on_host (FindClass env ''java/security/GeneralSecurityException'');
        (case failure of None \<Rightarrow> ret () | Some c \<Rightarrow> do {
           on_host (ThrowNew env c ''HPKE wrap refused'');
           on_host (DeleteLocalRef env (ClassRef c))
         })
      }
    } else ret ())
    (\<lambda>_ w. zt_inv w \<and> N (host w) = N (host (world h)) \<and> A (host w) = A (host (world h)) \<and> (res = None \<longleftrightarrow> E (host w) \<noteq> None))"
proof (cases res)
  case None
  have d: "leaves (\<lambda>_. 0) g (do { on_host (ThrowNew env c msg); on_host (DeleteLocalRef env (ClassRef c)) })
      (\<lambda>_ w. zt_inv w \<and> N (host w) = N (host (world g)) \<and> A (host w) = A (host (world g)) \<and> E (host w) \<noteq> None)"
    if "zt_inv (world g)" for g c msg
    by (rule leaves_bind [OF leaves_host [OF throw_new]], rule leaves_conseq [OF leaves_host [OF delete_class]])
       (use that in auto)
  show ?thesis
    unfolding None
    apply (simp del: State_Monad.bind_assoc split del: if_split)
    apply (rule leaves_bind [OF leaves_host [OF check]])
    apply (rule if_split [THEN iffD2], intro conjI impI)
     apply (rule leaves_ret)
      apply (use assms in auto) [2]
    apply (rule leaves_bind [OF leaves_host [OF find_class]])
    subgoal for e h1 c h2
      apply (cases c)
       apply (use assms in \<open>auto intro!: leaves_ret\<close>) [1]
      apply (simp only: option.case)
      apply (rule leaves_conseq [OF d])
       apply (use assms in auto)
      done
    done
next
  case (Some a)
  then show ?thesis using assms by (simp add: leaves_ret)
qed

lemma native_seal:
  assumes inv: "zt_inv (world h)" and j: "host (world h) = j" "E j = None"
    and x: "A j jEnc = Some enc" "A j jRecipient = Some pk" "A j jCek = Some cek" "A j jInfo = Some info" "A j jAad = Some aad"
  shows "leaves (\<lambda>_. 0) h (nativeSeal env sender (Some privateKey) (Some jEnc) (Some jRecipient) (Some jCek) (Some jInfo) (Some jAad))
    (\<lambda>res w. zt_inv w \<and> N (host w) = N j \<and> (\<forall>x. A j x \<noteq> None \<longrightarrow> x \<noteq> jCek \<longrightarrow> A (host w) x = A j x) \<and>
       (A (host w) jCek = Some cek \<or> A (host w) jCek = Some (zeros 32)) \<and> (res = None \<longleftrightarrow> E (host w) \<noteq> None) \<and>
       (case res of None \<Rightarrow> True
        | Some a \<Rightarrow> A j a = None \<and> A (host w) jCek = Some (zeros 32) \<and>
            (\<exists>dh. G privateKey pk dh \<and> A (host w) a = Some (SealBase 1 16 dh enc pk info aad cek))))"
proof -
  let ?as = "[jEnc, jRecipient, jCek, jInfo, jAad]"
  have objs: "map the (tl [Some privateKey, Some jEnc, Some jRecipient, Some jCek, Some jInfo, Some jAad]) = ?as"
    "(None \<in> set [Some privateKey, Some jEnc, Some jRecipient, Some jCek, Some jInfo, Some jAad]) = False" by simp_all
  have del: "leaves (\<lambda>_. 0) g (case cls of None \<Rightarrow> ret () | Some c \<Rightarrow> on_host (DeleteLocalRef env (ClassRef c)))
      (\<lambda>_ w. zt_inv w = zt_inv (world g) \<and> N (host w) = N (host (world g)) \<and> A (host w) = A (host (world g)) \<and> E (host w) = E (host (world g)))"
    for g cls
    by (cases cls) (auto intro!: leaves_ret leaves_conseq [OF leaves_host [OF delete_class]])
  show ?thesis
    unfolding nativeSeal_def Let_def objs if_False option.sel
    apply (rule leaves_bind [OF seal_body [OF inv j refl x]])
    apply (clarsimp simp: seal_body_post_def simp del: State_Monad.bind_assoc split del: if_split)
    subgoal for res es cls ct h1
      apply (rule leaves_bind [OF leaves_host [OF seal_released [OF refl x]]])
          apply auto [4]
      apply (rule leaves_bind [OF del])
      apply (rule leaves_bind [OF leaves_end_of_life])
      apply (rule leaves_bind [OF seal_report])
        apply (auto split: option.splits) [2]
      apply (rule leaves_ret)
       apply simp
      apply (use x in \<open>auto split: option.splits if_splits\<close>)
      done
    done
qed

end

section \<open>Properties\<close>

lemma wp_bindI: "(\<And>x s'. wp (f x) Q s') \<Longrightarrow> wp (State_Monad.bind m f) Q s"
  unfolding wp_bind by (rule wp_conseq [OF wp_True])

text \<open>C29: The adapters answer the core with a fixed set of codes, whatever the virtual machine does:
  \<open>jni_agree\<close> with 0, \<open>BAD_STATE_E\<close> or \<open>ECC_BAD_ARG_E\<close>, \<open>sender_agree\<close> with 0 or \<open>BAD_STATE_E\<close>;
  \<open>CRYPTOCB_UNAVAILABLE\<close> is none of them.\<close>

theorem agree_codes:
  "(\<exists>out j'. run_state (jni_agree b p) j = ((0, out), j') \<or> run_state (jni_agree b p) j = ((BAD_STATE_E, out), j') \<or>
      run_state (jni_agree b p) j = ((ECC_BAD_ARG_E, out), j')) \<and>
   (\<exists>out j'. run_state (sender_agree c p) k = ((0, out), j') \<or> run_state (sender_agree c p) k = ((BAD_STATE_E, out), j')) \<and>
   CRYPTOCB_UNAVAILABLE \<notin> {0, BAD_STATE_E, ECC_BAD_ARG_E}"
proof -
  have 1: "wp (jni_agree b p) (\<lambda>(r, _) _. r \<in> {0, BAD_STATE_E, ECC_BAD_ARG_E}) j"
    unfolding jni_agree_def Let_def by (intro wp_bindI) (auto intro!: wp_bindI split: option.splits simp del: wp_bind)
  have b: "wp (sender_agree_body c peer p) (\<lambda>(r, _) _. r \<in> {0, BAD_STATE_E}) k" for peer k
    unfolding sender_agree_body_def Let_def by (intro wp_bindI) (auto intro!: wp_bindI split: option.splits simp del: wp_bind)
  have 2: "wp (sender_agree c p) (\<lambda>(r, _) _. r \<in> {0, BAD_STATE_E}) k"
    unfolding sender_agree_def Let_def
    apply (rule wp_bindI)
    apply (unfold wp_bind [of "sender_agree_body _ _ _"])
    apply (rule wp_conseq [OF b])
    apply (auto intro!: wp_bindI split: prod.splits simp del: wp_bind)
    done
  show ?thesis using 1 2 by (auto simp: wp_def rc_defs split: prod.splits)
qed

text \<open>C7: Sealing from Java. Whatever the virtual machine does within its specification, \<open>nativeSeal\<close>
  returns an array exactly when no exception is pending afterwards; the array is new and holds
  \<open>SealBase\<close> of the content key under a value that the Kotlin method returned for the one-use key
  and the recipient's point, and the caller's array with the content key has been zeroed. The other
  arrays keep their contents, all elements are released, and the native heap is balanced.\<close>

theorem native_seal_correct:
  assumes "jni env A E N G" "zt_inv (world h)" "E (host (world h)) = None"
    "A (host (world h)) jEnc = Some enc" "A (host (world h)) jRecipient = Some pk" "A (host (world h)) jCek = Some cek"
    "A (host (world h)) jInfo = Some info" "A (host (world h)) jAad = Some aad"
    "run_state (nativeSeal env sender (Some privateKey) (Some jEnc) (Some jRecipient) (Some jCek) (Some jInfo) (Some jAad)) h = (res, h')"
  shows "zt_inv (world h') \<and> hp_live h' = hp_live h \<and> N (host (world h')) = N (host (world h)) \<and>
    (\<forall>x. A (host (world h)) x \<noteq> None \<longrightarrow> x \<noteq> jCek \<longrightarrow> A (host (world h')) x = A (host (world h)) x) \<and>
    (res = None \<longleftrightarrow> E (host (world h')) \<noteq> None) \<and>
    (case res of None \<Rightarrow> True
     | Some a \<Rightarrow> A (host (world h)) a = None \<and> A (host (world h')) jCek = Some (zeros 32) \<and>
         (\<exists>dh. G privateKey pk dh \<and> A (host (world h')) a = Some (SealBase 1 16 dh enc pk info aad cek)))"
  using leaves_run [OF jni.native_seal [OF assms(1,2) refl assms(3-8)] assms(9)] by auto

theorem native_seal_correct_witness:
  "\<exists>res h'. run_state (nativeSeal (jvm_env (\<lambda>_ _. Returns (Some (replicate 32 9)))) 0 (Some 0) (Some 0) (Some 1) (Some 5) (Some 3) (Some 4)) (demo_app (\<lambda>_. True)) = (res, h') \<and>
     zt_inv (world h') \<and> hp_live h' = 0 \<and> jpinned (host (world h')) = 0 \<and> (res = None \<longleftrightarrow> jpending (host (world h')) \<noteq> None)"
proof -
  let ?m = "nativeSeal (jvm_env (\<lambda>_ _. Returns (Some (replicate 32 9)))) 0 (Some 0) (Some 0) (Some 1) (Some 5) (Some 3) (Some 4)" and ?h = "demo_app (\<lambda>_. True)"
  obtain res h' where m: "run_state ?m ?h = (res, h')" by (metis surj_pair)
  from native_seal_correct [OF jvm.jni_axioms [of "\<lambda>_ _. Returns (Some (replicate 32 9))"], of ?h 0 demo_point 1 demo_point 5 "zeros 32" 3 "[1]" 4 "[2]" 0 0 res h'] m
  show ?thesis by (simp add: demo_app demo_arrays del: One_nat_def)
qed

end
