(* ===== verification/ContactOrigin.thy ===== *)
theory ContactOrigin
  imports Prelude BidiTable "HOL-Library.Sublist" "HOL-Library.Monad_Syntax"
begin

text \<open>
  The check of a contact's web origin, \<open>contact_origin.cpp\<close>. The URL parser and the Punycode decoder of
  the Ada library are parameters; a value \<open>None\<close> of either stands for a C++ exception. \<open>schar\<close> says whether
  \<open>char\<close> is signed, which decides what a byte above 127 becomes as a \<open>char32_t\<close>. Code points and flags
  are natural numbers: nothing is computed with them but comparisons and masks. The storage of the
  labels is taken to be available; when it is not, \<open>zrotext_contact_origin_v1\<close> catches the exception
  and answers 0.
\<close>

unbundle bit_operations_syntax

datatype contact_flag = Ltr | Rtl | European | Arabic | AllowRtl | AllowLtr | Nonspacing

primrec flag_bit :: "contact_flag \<Rightarrow> nat" where
  "flag_bit Ltr = 1"
| "flag_bit Rtl = 2"
| "flag_bit European = 4"
| "flag_bit Arabic = 8"
| "flag_bit AllowRtl = 16"
| "flag_bit AllowLtr = 32"
| "flag_bit Nonspacing = 64"

function bidi_search :: "ContactBidi16Range list \<Rightarrow> nat \<Rightarrow> nat \<Rightarrow> nat \<Rightarrow> nat" where
  "bidi_search ranges code low high =
    (if low < high then
       let middle = low + (high - low) div 2 in
       if fst (snd (ranges ! middle)) < code then bidi_search ranges code (middle + 1) high
       else bidi_search ranges code low middle
     else low)"
  by pat_completeness auto
termination
  by (relation "measure (\<lambda>(_, _, low, high). high - low)") auto

definition bidi_flags :: "nat \<Rightarrow> nat" where
  "bidi_flags code =
    (let low = bidi_search contact_bidi16_ranges code 0 (length contact_bidi16_ranges) in
     if low < length contact_bidi16_ranges \<and> fst (contact_bidi16_ranges ! low) \<le> code
     then snd (snd (contact_bidi16_ranges ! low)) else 0)"

function host_labels :: "bool \<Rightarrow> (string \<Rightarrow> nat list option option) \<Rightarrow> string \<Rightarrow> nat \<Rightarrow> nat list list \<Rightarrow> bool
    \<Rightarrow> (nat list list \<times> bool) option option" where
  "host_labels schar punycode host start labels directional =
    (if start \<le> length host then
       let n = length (takeWhile (\<lambda>c. c \<noteq> CHR ''.'') (drop start host));
           npos = (start + n = length host);
           label = take n (drop start host) in
       case (if prefix ''xn--'' label then punycode (drop 4 label)
             else Some (Some (map (\<lambda>c. of_char c + (if schar \<and> 128 \<le> (of_char c :: nat) then 2 ^ 32 - 256 else 0)) label))) of
         None \<Rightarrow> None
       | Some None \<Rightarrow> Some None
       | Some (Some decoded) \<Rightarrow>
           let directional' = (directional \<or> list_ex (\<lambda>code. bidi_flags code AND (flag_bit Rtl OR flag_bit Arabic) \<noteq> 0) decoded);
               labels' = labels @ [decoded] in
           if npos then Some (Some (labels', directional'))
           else host_labels schar punycode host (start + n + 1) labels' directional'
     else Some (Some (labels, directional)))"
  by pat_completeness auto
termination
  by (relation "measure (\<lambda>(_, _, host, start, _, _). length host + 1 - start)") auto

fun label_scan :: "bool \<Rightarrow> nat list \<Rightarrow> nat \<Rightarrow> bool \<Rightarrow> bool \<Rightarrow> (nat \<times> bool \<times> bool) option" where
  "label_scan rtl [] final european arabic = Some (final, european, arabic)"
| "label_scan rtl (code # label) final european arabic =
    (let flags = bidi_flags code in
     if flags AND (if rtl then flag_bit AllowRtl else flag_bit AllowLtr) = 0 then None
     else label_scan rtl label (if flags AND flag_bit Nonspacing = 0 then flags else final)
       (european \<or> flags AND flag_bit European \<noteq> 0) (arabic \<or> flags AND flag_bit Arabic \<noteq> 0))"

fun labels_valid :: "nat list list \<Rightarrow> bool" where
  "labels_valid [] = True"
| "labels_valid (label # labels) =
    (if label = [] then labels_valid labels
     else let rtl = (bidi_flags (hd label) AND flag_bit Rtl \<noteq> 0) in
       if \<not> rtl \<and> bidi_flags (hd label) AND flag_bit Ltr = 0 then False
       else case label_scan rtl label 0 False False of
         None \<Rightarrow> False
       | Some (final, european, arabic) \<Rightarrow>
           if final AND (if rtl then flag_bit Rtl OR flag_bit European OR flag_bit Arabic
                         else flag_bit Ltr OR flag_bit European) = 0
             \<or> (rtl \<and> european \<and> arabic) then False
           else labels_valid labels)"

definition valid_bidi_host :: "bool \<Rightarrow> (string \<Rightarrow> nat list option option) \<Rightarrow> string \<Rightarrow> bool option" where
  "valid_bidi_host schar punycode host =
    (if \<not> sublist ''xn--'' host then Some True
     else do {
       r \<leftarrow> host_labels schar punycode host 0 [] False;
       case r of
         None \<Rightarrow> Some False
       | Some (labels, directional) \<Rightarrow> if \<not> directional then Some True else Some (labels_valid labels)
     })"

text \<open>The getters of a parsed URL.\<close>

record url_aggregator =
  get_protocol :: string
  get_origin :: string
  get_hostname :: string
  get_username :: string
  get_password :: string
  get_pathname :: string
  get_search :: string
  get_hash :: string

definition zrotext_contact_origin_v1 :: "bool \<Rightarrow> (string \<Rightarrow> nat list option option)
    \<Rightarrow> (string \<Rightarrow> url_aggregator option option) \<Rightarrow> string option \<Rightarrow> nat \<Rightarrow> int" where
  "zrotext_contact_origin_v1 schar punycode parse bytes len =
    (case bytes of
       None \<Rightarrow> 0
     | Some b \<Rightarrow>
         if len < 9 \<or> 512 < len then 0
         else if list_ex (\<lambda>i. (of_char (b ! i) :: nat) < 0x21 \<or> 0x7e < (of_char (b ! i) :: nat)) [0..<len] then 0
         else let input = take len b in
           case do {
             parsed \<leftarrow> parse input;
             case parsed of
               None \<Rightarrow> Some False
             | Some u \<Rightarrow>
                 if get_protocol u = ''https:'' \<and> get_origin u = input then do {
                   valid \<leftarrow> valid_bidi_host schar punycode (get_hostname u);
                   Some (valid \<and> get_username u = [] \<and> get_password u = [] \<and> get_pathname u = ''/''
                     \<and> get_search u = [] \<and> get_hash u = [])
                 } else Some False
           } of
             None \<Rightarrow> 0
           | Some answer \<Rightarrow> of_bool answer)"

section \<open>The lookup\<close>

declare bidi_search.simps [simp del] host_labels.simps [simp del]

text \<open>The search stops at the first row that does not end before the code point.\<close>

lemma bidi_search_bounds:
  assumes "sorted (map (\<lambda>r. fst (snd r)) ranges)" "high \<le> length ranges" "low \<le> high"
    "\<And>i. i < low \<Longrightarrow> fst (snd (ranges ! i)) < code"
    "\<And>i. high \<le> i \<Longrightarrow> i < length ranges \<Longrightarrow> code \<le> fst (snd (ranges ! i))"
  shows "bidi_search ranges code low high = length (takeWhile (\<lambda>r. fst (snd r) < code) ranges)"
  using assms
proof (induction ranges code low high rule: bidi_search.induct)
  case (1 ranges code low high)
  have mono: "fst (snd (ranges ! i)) \<le> fst (snd (ranges ! j))" if "i \<le> j" "j < length ranges" for i j
    using sorted_nth_mono [OF 1(3), of i j] that by simp
  define middle where "middle = low + (high - low) div 2"
  show ?case
  proof (cases "low < high")
    case True
    then have mid: "low \<le> middle" "middle < high"
      by (auto simp: middle_def)
    show ?thesis
    proof (cases "fst (snd (ranges ! middle)) < code")
      case below: True
      have "fst (snd (ranges ! i)) < code" if "i < middle + 1" for i
        using mono [of i middle] that mid below 1(4) by simp
      then show ?thesis
        using 1(1) [OF True middle_def below] 1(3-7) True below mid
        by (subst bidi_search.simps) (simp add: middle_def [symmetric] Let_def)
    next
      case False
      have "code \<le> fst (snd (ranges ! i))" if "middle \<le> i" "i < length ranges" for i
        using mono [of middle i] that False by simp
      then show ?thesis
        using 1(2) [OF True middle_def False] 1(3-7) True False mid
        by (subst bidi_search.simps) (simp add: middle_def [symmetric] Let_def)
    qed
  next
    case False
    then have "low = high"
      using 1(5) by simp
    then have "takeWhile (\<lambda>r. fst (snd r) < code) ranges = take low ranges"
      using 1(4,6,7) by (intro takeWhile_eq_take_P_nth) (auto simp: not_less)
    then show ?thesis
      using 1(4) False \<open>low = high\<close> by (subst bidi_search.simps) simp
  qed
qed

lemma sorted_chained: "chained n rs m \<Longrightarrow> sorted (map (\<lambda>r. fst (snd r)) rs)"
proof (induction n rs m rule: chained.induct)
  case (2 n a b f rs m)
  then show ?case
    using chained_bounds (2) [of "Suc b" rs m] by fastforce
qed simp

lemma chained_lookup:
  assumes "chained n rs m" "(a, b, f) \<in> set rs" "a \<le> c" "c \<le> b"
  defines "k \<equiv> length (takeWhile (\<lambda>r. fst (snd r) < c) rs)"
  shows "k < length rs \<and> rs ! k = (a, b, f)"
  using assms(1-4) unfolding k_def
proof (induction n rs m rule: chained.induct)
  case (2 n a' b' f' rs m)
  then show ?case
    using chained_bounds (2) [of "Suc b'" rs m a b f] by (cases "b' < c") auto
qed simp

lemma takeWhile_above: "chained n rs m \<Longrightarrow> m \<le> c \<Longrightarrow> takeWhile (\<lambda>r. fst (snd r) < c) rs = rs"
  using chained_bounds (2) [of n rs m] by (intro takeWhile_eq_all_conv [THEN iffD2]) fastforce

lemma bidi_search_table:
  "bidi_search contact_bidi16_ranges c 0 (length contact_bidi16_ranges)
    = length (takeWhile (\<lambda>r. fst (snd r) < c) contact_bidi16_ranges)"
  using sorted_chained [OF chained_table] by (intro bidi_search_bounds) auto

lemma bidi_flags_row: "(a, b, f) \<in> set contact_bidi16_ranges \<Longrightarrow> a \<le> c \<Longrightarrow> c \<le> b \<Longrightarrow> bidi_flags c = f"
  using chained_lookup [OF chained_table] by (simp add: bidi_flags_def bidi_search_table)

lemma bidi_flags_above: "0x110000 \<le> c \<Longrightarrow> bidi_flags c = 0"
  unfolding bidi_flags_def bidi_search_table using takeWhile_above [OF chained_table, of c] by (simp only: Let_def) simp

lemma find_SomeD: "List.find P xs = Some x \<Longrightarrow> x \<in> set xs \<and> P x"
  by (auto simp: find_Some_iff)

lemma table_partition:
  "c \<le> 0x10ffff \<longleftrightarrow> (\<exists>!r. r \<in> set contact_bidi16_ranges \<and> fst r \<le> c \<and> c \<le> fst (snd r))"
proof (cases "c < 0x110000")
  case True
  then show ?thesis
    using chained_covers [OF chained_table _ True] by simp
next
  case False
  have "\<not> (r \<in> set contact_bidi16_ranges \<and> fst r \<le> c \<and> c \<le> fst (snd r))" for r
    using chained_bounds (2) [OF chained_table, of "fst r" "fst (snd r)" "snd (snd r)"] False by auto
  then have "\<nexists>!r. r \<in> set contact_bidi16_ranges \<and> fst r \<le> c \<and> c \<le> fst (snd r)"
    by blast
  then show ?thesis
    using False by simp
qed

lemma bidi_flags_find:
  "bidi_flags c = (case List.find (\<lambda>(a, b, f). a \<le> c \<and> c \<le> b) contact_bidi16_ranges of
     None \<Rightarrow> 0 | Some (a, b, f) \<Rightarrow> f)"
proof (cases "List.find (\<lambda>(a, b, f). a \<le> c \<and> c \<le> b) contact_bidi16_ranges")
  case None
  then have "\<nexists>r. r \<in> set contact_bidi16_ranges \<and> fst r \<le> c \<and> c \<le> fst (snd r)"
    by (simp only: find_None_iff) (metis (mono_tags, lifting) case_prodI2 fst_conv snd_conv)
  then have "\<not> c \<le> 0x10ffff"
    unfolding table_partition by blast
  then show ?thesis
    using None bidi_flags_above [of c] by simp
next
  case (Some r)
  then show ?thesis
    using find_SomeD [OF Some] bidi_flags_row by (cases r) auto
qed

text \<open>C30: The binary search of \<open>bidi_flags\<close> is the lookup of the one row that holds the code point: every code
  point of Unicode lies in exactly one row of the table, \<open>bidi_flags\<close> returns the flags of that row, and 0
  for every value beyond the last code point.\<close>

theorem bidi_flags_correct:
  "(c \<le> 0x10ffff \<longleftrightarrow> (\<exists>!r. r \<in> set contact_bidi16_ranges \<and> fst r \<le> c \<and> c \<le> fst (snd r)))
   \<and> bidi_flags c = (case List.find (\<lambda>(a, b, f). a \<le> c \<and> c \<le> b) contact_bidi16_ranges of
       None \<Rightarrow> 0 | Some (a, b, f) \<Rightarrow> f)"
  by (rule conjI [OF table_partition bidi_flags_find])

section \<open>The rule of RFC 5893\<close>

text \<open>
  The directional classes of the standard, as far as its rule tells them apart: R and AL are one class,
  ES, CS, ET, ON and BN another, and the classes that no label may hold a third.  The class of a code
  point is read from the table of the program; the table itself is not compared with the Unicode data.
\<close>

datatype bidi_class = Class_L | Class_R | Class_EN | Class_AN | Class_Neutral | Class_NSM | Class_Other

primrec class_flags :: "bidi_class \<Rightarrow> nat" where
  "class_flags Class_L = 33"
| "class_flags Class_R = 18"
| "class_flags Class_EN = 52"
| "class_flags Class_AN = 24"
| "class_flags Class_Neutral = 48"
| "class_flags Class_NSM = 112"
| "class_flags Class_Other = 0"

definition flags_class :: "nat \<Rightarrow> bidi_class" where
  "flags_class f = (if f = 33 then Class_L else if f = 18 then Class_R else if f = 52 then Class_EN
    else if f = 24 then Class_AN else if f = 48 then Class_Neutral else if f = 112 then Class_NSM else Class_Other)"

definition class_of :: "nat \<Rightarrow> bidi_class" where
  "class_of c = (case List.find (\<lambda>(a, b, f). a \<le> c \<and> c \<le> b) contact_bidi16_ranges of
     None \<Rightarrow> Class_Other | Some (a, b, f) \<Rightarrow> flags_class f)"

definition ends_in :: "bidi_class set \<Rightarrow> bidi_class list \<Rightarrow> bool" where
  "ends_in S cs \<longleftrightarrow> (\<exists>xs c k. cs = xs @ c # replicate k Class_NSM \<and> c \<in> S)"

definition bidi_rule :: "bidi_class list \<Rightarrow> bool" where
  "bidi_rule cs \<longleftrightarrow>
     (hd cs = Class_R
       \<and> set cs \<subseteq> {Class_R, Class_AN, Class_EN, Class_Neutral, Class_NSM}
       \<and> ends_in {Class_R, Class_EN, Class_AN} cs
       \<and> \<not> (Class_EN \<in> set cs \<and> Class_AN \<in> set cs))
   \<or> (hd cs = Class_L
       \<and> set cs \<subseteq> {Class_L, Class_EN, Class_Neutral, Class_NSM}
       \<and> ends_in {Class_L, Class_EN} cs)"

text \<open>The labels of a host name, and their characters.\<close>

fun dot_labels :: "string \<Rightarrow> string list" where
  "dot_labels [] = [[]]"
| "dot_labels (c # cs) = (if c = CHR ''.'' then [] # dot_labels cs
     else (c # hd (dot_labels cs)) # tl (dot_labels cs))"

fun decode_all :: "(string \<Rightarrow> nat list option option) \<Rightarrow> string list \<Rightarrow> nat list list option option" where
  "decode_all decode [] = Some (Some [])"
| "decode_all decode (l # ls) =
    (case decode l of
       None \<Rightarrow> None
     | Some None \<Rightarrow> Some None
     | Some (Some d) \<Rightarrow> map_option (map_option (Cons d)) (decode_all decode ls))"

definition decode_label :: "(char \<Rightarrow> nat) \<Rightarrow> (string \<Rightarrow> nat list option option) \<Rightarrow> string \<Rightarrow> nat list option option" where
  "decode_label code punycode l = (if prefix ''xn--'' l then punycode (drop 4 l) else Some (Some (map code l)))"

definition rtl_name :: "nat list list \<Rightarrow> bool" where
  "rtl_name ds \<longleftrightarrow> (\<exists>c \<in> set (concat ds). class_of c = Class_R \<or> class_of c = Class_AN)"

text \<open>A host name passes when all of its labels decode and, should it hold a right-to-left character at all,
  each of its nonempty labels follows the rule.\<close>

definition host_rule :: "(string \<Rightarrow> nat list option option) \<Rightarrow> string \<Rightarrow> bool option" where
  "host_rule punycode host = map_option
     (\<lambda>r. case r of None \<Rightarrow> False
       | Some ds \<Rightarrow> rtl_name ds \<longrightarrow> (\<forall>d \<in> set ds. d \<noteq> [] \<longrightarrow> bidi_rule (map class_of d)))
     (decode_all (decode_label of_char punycode) (dot_labels host))"

subsection \<open>Flags and classes\<close>

lemma bidi_flags_class: "bidi_flags c = class_flags (class_of c)"
proof (cases "List.find (\<lambda>(a, b, f). a \<le> c \<and> c \<le> b) contact_bidi16_ranges")
  case None
  then show ?thesis
    by (simp add: bidi_flags_find class_of_def)
next
  case (Some r)
  then obtain a b f where r: "r = (a, b, f)" "(a, b, f) \<in> set contact_bidi16_ranges"
    using find_SomeD [OF Some] by (cases r) auto
  then have "f \<in> set [0, 18, 24, 33, 48, 52, 112]"
    using chained_bounds (2) [OF chained_table, of a b f] by blast
  then have "class_flags (flags_class f) = f"
    by (auto simp: flags_class_def)
  then show ?thesis
    using Some r by (simp add: bidi_flags_find class_of_def)
qed

text \<open>What each mask of the code asks of the class.\<close>

abbreviation rtl_allowed :: "bidi_class set" where
  "rtl_allowed \<equiv> {Class_R, Class_AN, Class_EN, Class_Neutral, Class_NSM}"

abbreviation ltr_allowed :: "bidi_class set" where
  "ltr_allowed \<equiv> {Class_L, Class_EN, Class_Neutral, Class_NSM}"

lemma class_masks:
  "class_flags k AND flag_bit Rtl = 0 \<longleftrightarrow> k \<noteq> Class_R"
  "class_flags k AND flag_bit Ltr = 0 \<longleftrightarrow> k \<noteq> Class_L"
  "class_flags k AND flag_bit European = 0 \<longleftrightarrow> k \<noteq> Class_EN"
  "class_flags k AND flag_bit Arabic = 0 \<longleftrightarrow> k \<noteq> Class_AN"
  "class_flags k AND flag_bit Nonspacing = 0 \<longleftrightarrow> k \<noteq> Class_NSM"
  "class_flags k AND (flag_bit Rtl OR flag_bit Arabic) = 0 \<longleftrightarrow> k \<noteq> Class_R \<and> k \<noteq> Class_AN"
  "class_flags k AND (if rtl then flag_bit Rtl OR flag_bit European OR flag_bit Arabic
     else flag_bit Ltr OR flag_bit European) = 0
   \<longleftrightarrow> k \<notin> (if rtl then {Class_R, Class_EN, Class_AN} else {Class_L, Class_EN})"
  "class_flags k AND (if rtl then flag_bit AllowRtl else flag_bit AllowLtr) = 0
   \<longleftrightarrow> k \<notin> (if rtl then rtl_allowed else ltr_allowed)"
  by (cases k; simp)+

text \<open>Below 128 there is no right-to-left character.\<close>

lemma ascii_rows: "list_all (\<lambda>(a, b, f). a < 128 \<longrightarrow> f \<noteq> 18 \<and> f \<noteq> 24) bidi_rows_0"
  by (simp add: bidi_rows_0_def)

lemma later_rows: "chained n rs m \<Longrightarrow> 128 \<le> n \<Longrightarrow> list_all (\<lambda>(a, b, f). a < 128 \<longrightarrow> f \<noteq> 18 \<and> f \<noteq> 24) rs"
  using chained_bounds (2) by (fastforce simp: list_all_iff)

lemma ascii_table: "list_all (\<lambda>(a, b, f). a < 128 \<longrightarrow> f \<noteq> 18 \<and> f \<noteq> 24) contact_bidi16_ranges"
  using ascii_rows chained_1 [THEN later_rows] chained_2 [THEN later_rows] chained_3 [THEN later_rows]
    chained_4 [THEN later_rows]
  by (simp add: contact_bidi16_ranges_def)

lemma ascii_class: "c < 128 \<Longrightarrow> class_of c \<noteq> Class_R \<and> class_of c \<noteq> Class_AN"
proof (cases "List.find (\<lambda>(a, b, f). a \<le> c \<and> c \<le> b) contact_bidi16_ranges")
  case (Some r)
  assume "c < 128"
  then show ?thesis
    using find_SomeD [OF Some] ascii_table [unfolded list_all_iff, THEN bspec, of r] Some
    by (cases r) (simp add: class_of_def flags_class_def)
qed (simp add: class_of_def)

subsection \<open>The scan of a label\<close>

definition last_base :: "bidi_class \<Rightarrow> bidi_class list \<Rightarrow> bidi_class" where
  "last_base k cs = last (k # filter (\<lambda>c. c \<noteq> Class_NSM) cs)"

lemma last_base_simps [simp]:
  "last_base k [] = k"
  "last_base k (c # cs) = last_base (if c = Class_NSM then k else c) cs"
  by (simp_all add: last_base_def)

lemma ends_in_Nil [simp]: "\<not> ends_in S []"
  by (simp add: ends_in_def)

lemma ends_in_snoc [simp]:
  "Class_NSM \<notin> S \<Longrightarrow> ends_in S (cs @ [c]) \<longleftrightarrow> (if c = Class_NSM then ends_in S cs else c \<in> S)"
proof -
  assume S: "Class_NSM \<notin> S"
  have "ends_in S (cs @ [Class_NSM]) \<longleftrightarrow> ends_in S cs"
  proof
    assume "ends_in S (cs @ [Class_NSM])"
    then obtain xs c k where e: "cs @ [Class_NSM] = xs @ c # replicate k Class_NSM" "c \<in> S"
      by (auto simp: ends_in_def)
    with S have "k \<noteq> 0"
      by (cases k) auto
    then obtain j where "k = Suc j"
      by (cases k) auto
    then show "ends_in S cs"
      using e by (auto simp: ends_in_def replicate_append_same [symmetric] simp del: replicate_Suc simp add: replicate_Suc)
  next
    assume "ends_in S cs"
    then show "ends_in S (cs @ [Class_NSM])"
      unfolding ends_in_def by (metis append.assoc append_Cons replicate_Suc replicate_append_same)
  qed
  moreover have "ends_in S (cs @ [c]) \<longleftrightarrow> c \<in> S" if "c \<noteq> Class_NSM"
  proof
    assume "ends_in S (cs @ [c])"
    then obtain xs c' k where "cs @ [c] = xs @ c' # replicate k Class_NSM" "c' \<in> S"
      by (auto simp: ends_in_def)
    with that show "c \<in> S"
      by (cases k) (auto simp: replicate_append_same [symmetric])
  next
    assume "c \<in> S"
    then show "ends_in S (cs @ [c])"
      unfolding ends_in_def by (metis replicate_0)
  qed
  ultimately show ?thesis
    by simp
qed

lemma last_base_ends_in: "Class_NSM \<notin> S \<Longrightarrow> k \<notin> S \<Longrightarrow> last_base k cs \<in> S \<longleftrightarrow> ends_in S cs"
  by (induction cs rule: rev_induct) (auto simp: last_base_def split: if_splits)

lemma label_scan_step:
  "label_scan rtl (c # d) (class_flags k) e a =
    (if class_of c \<in> (if rtl then rtl_allowed else ltr_allowed)
     then label_scan rtl d (class_flags (if class_of c = Class_NSM then k else class_of c))
       (e \<or> class_of c = Class_EN) (a \<or> class_of c = Class_AN)
     else None)"
  unfolding label_scan.simps Let_def bidi_flags_class class_masks by simp

lemma label_scan_classes:
  "label_scan rtl d (class_flags k) e a =
    (if set (map class_of d) \<subseteq> (if rtl then rtl_allowed else ltr_allowed)
     then Some (class_flags (last_base k (map class_of d)),
       e \<or> Class_EN \<in> set (map class_of d), a \<or> Class_AN \<in> set (map class_of d))
     else None)"
  by (induction d arbitrary: k e a) (auto simp: label_scan_step simp del: label_scan.simps(2) class_flags.simps)

lemma label_rule:
  assumes "d \<noteq> []"
  shows "labels_valid (d # ds) \<longleftrightarrow> bidi_rule (map class_of d) \<and> labels_valid ds"
proof -
  define cs where "cs = map class_of d"
  have scan: "label_scan rtl d 0 False False =
    (if set cs \<subseteq> (if rtl then rtl_allowed else ltr_allowed)
     then Some (class_flags (last_base Class_Other cs), Class_EN \<in> set cs, Class_AN \<in> set cs) else None)" for rtl
    using label_scan_classes [of rtl d Class_Other False False] by (simp add: cs_def)
  have first: "bidi_flags (hd d) = class_flags (hd cs)"
    using assms by (simp add: bidi_flags_class hd_map cs_def)
  have last: "last_base Class_Other cs \<in> {Class_R, Class_EN, Class_AN} \<longleftrightarrow> ends_in {Class_R, Class_EN, Class_AN} cs"
    "last_base Class_Other cs \<in> {Class_L, Class_EN} \<longleftrightarrow> ends_in {Class_L, Class_EN} cs"
    by (rule last_base_ends_in; simp)+
  have final: "class_flags (last_base Class_Other cs) AND (if rtl then flag_bit Rtl OR flag_bit European OR flag_bit Arabic
      else flag_bit Ltr OR flag_bit European) = 0
    \<longleftrightarrow> \<not> ends_in (if rtl then {Class_R, Class_EN, Class_AN} else {Class_L, Class_EN}) cs" for rtl
    unfolding class_masks using last by (cases rtl) simp_all
  have "labels_valid (d # ds) \<longleftrightarrow> (hd cs = Class_R \<or> hd cs = Class_L)
    \<and> set cs \<subseteq> (if hd cs = Class_R then rtl_allowed else ltr_allowed)
    \<and> ends_in (if hd cs = Class_R then {Class_R, Class_EN, Class_AN} else {Class_L, Class_EN}) cs
    \<and> \<not> (hd cs = Class_R \<and> Class_EN \<in> set cs \<and> Class_AN \<in> set cs) \<and> labels_valid ds"
    unfolding labels_valid.simps Let_def first scan class_masks
    using assms
    by (cases "set cs \<subseteq> (if hd cs = Class_R then rtl_allowed else ltr_allowed)")
      (simp_all only: not_not if_True if_False option.case prod.case final simp_thms if_bool_eq_conj, simp, blast)
  then show ?thesis
    unfolding bidi_rule_def cs_def [symmetric] by auto
qed

lemma labels_valid_rule: "labels_valid ds \<longleftrightarrow> (\<forall>d \<in> set ds. d \<noteq> [] \<longrightarrow> bidi_rule (map class_of d))"
proof (induction ds)
  case (Cons d ds)
  then show ?case
    using label_rule [of d ds] by (cases "d = []") auto
qed simp

subsection \<open>The labels of a host\<close>

lemma dot_labels_ne [simp]: "dot_labels s \<noteq> []"
  by (cases s) auto

lemma dot_labels_unfold:
  "dot_labels s = (let n = length (takeWhile (\<lambda>c. c \<noteq> CHR ''.'') s) in
     take n s # (if n = length s then [] else dot_labels (drop (n + 1) s)))"
  by (induction s) (auto simp: Let_def)

lemma dot_labels_sublist: "l \<in> set (dot_labels s) \<Longrightarrow> sublist l s"
proof (induction s arbitrary: l)
  case (Cons c s)
  have "hd (dot_labels s) = takeWhile (\<lambda>c. c \<noteq> CHR ''.'') s"
    by (subst dot_labels_unfold) (simp add: Let_def takeWhile_eq_take [symmetric])
  then have "prefix (c # hd (dot_labels s)) (c # s)"
    by (simp add: takeWhile_is_prefix)
  moreover have "sublist l (c # s)" if "l \<in> set (dot_labels s)" for l
    using Cons.IH [OF that] by (simp add: sublist_Cons_right)
  ultimately show ?case
    using Cons.prems list.set_sel (2) [OF dot_labels_ne [of s]] by (auto split: if_splits)
qed simp

lemma decode_all_cong: "(\<And>l. l \<in> set ls \<Longrightarrow> f l = g l) \<Longrightarrow> decode_all f ls = decode_all g ls"
  by (induction ls) (auto split: option.splits)

abbreviation char32 :: "bool \<Rightarrow> char \<Rightarrow> nat" where
  "char32 schar \<equiv> \<lambda>c. of_char c + (if schar \<and> 128 \<le> (of_char c :: nat) then 2 ^ 32 - 256 else 0)"

lemma rtl_name_simps [simp]:
  "\<not> rtl_name []"
  "rtl_name (d # ds) \<longleftrightarrow> (\<exists>c \<in> set d. class_of c = Class_R \<or> class_of c = Class_AN) \<or> rtl_name ds"
  by (auto simp: rtl_name_def)

lemma host_labels_step:
  assumes "start \<le> length host"
  defines "n \<equiv> length (takeWhile (\<lambda>c. c \<noteq> CHR ''.'') (drop start host))"
  shows "host_labels schar punycode host start labels directional =
    (case decode_label (char32 schar) punycode (take n (drop start host)) of
       None \<Rightarrow> None
     | Some None \<Rightarrow> Some None
     | Some (Some d) \<Rightarrow>
         if start + n = length host then Some (Some (labels @ [d], directional \<or> rtl_name [d]))
         else host_labels schar punycode host (start + n + 1) (labels @ [d]) (directional \<or> rtl_name [d]))"
proof -
  have rtl: "list_ex (\<lambda>code. bidi_flags code AND (flag_bit Rtl OR flag_bit Arabic) \<noteq> 0) d \<longleftrightarrow> rtl_name [d]" for d
    unfolding bidi_flags_class class_masks by (auto simp: list_ex_iff)
  show ?thesis
    using assms(1) unfolding n_def
    by (subst host_labels.simps) (simp only: Let_def decode_label_def rtl if_True)
qed

lemma host_labels_decode:
  assumes "start \<le> length host"
  shows "host_labels schar punycode host start labels directional =
    map_option (map_option (\<lambda>ds. (labels @ ds, directional \<or> rtl_name ds)))
      (decode_all (decode_label (char32 schar) punycode) (dot_labels (drop start host)))"
  using assms
proof (induction "length host - start" arbitrary: start labels directional rule: less_induct)
  case less
  define n where "n = length (takeWhile (\<lambda>c. c \<noteq> CHR ''.'') (drop start host))"
  have n: "n \<le> length host - start"
    using length_takeWhile_le [of _ "drop start host"] by (simp add: n_def)
  have split: "dot_labels (drop start host) = take n (drop start host) #
      (if start + n = length host then [] else dot_labels (drop (start + n + 1) host))"
    using less.prems n by (subst dot_labels_unfold) (auto simp: Let_def n_def [symmetric] add.commute)
  have IH: "start + n \<noteq> length host \<Longrightarrow> host_labels schar punycode host (start + n + 1) ls dir =
    map_option (map_option (\<lambda>ds. (ls @ ds, dir \<or> rtl_name ds)))
      (decode_all (decode_label (char32 schar) punycode) (dot_labels (drop (start + n + 1) host)))" for ls dir
    using n less.prems by (intro less.hyps) linarith+
  show ?case
  proof (cases "start + n = length host")
    case True
    then show ?thesis
      unfolding host_labels_step [OF less.prems, folded n_def] split by (auto split: option.split)
  next
    case False
    then show ?thesis
      unfolding host_labels_step [OF less.prems, folded n_def] split
      by (auto simp: IH [OF False, simplified] option.map_comp comp_def disj_assoc split: option.split)
  qed
qed

lemma decode_all_total: "decode_all (\<lambda>l. Some (Some (f l))) ls = Some (Some (map f ls))"
  by (induction ls) simp_all

lemma ascii_char32: "\<forall>c \<in> set l. (of_char c :: nat) < 128 \<Longrightarrow> map (char32 schar) l = map of_char l"
  by (auto simp: not_le)

lemma host_rule_eq:
  assumes ascii: "list_all (\<lambda>c. (of_char c :: nat) < 128) host"
  shows "valid_bidi_host schar punycode host = host_rule punycode host"
proof -
  let ?ls = "dot_labels host"
  have chars: "\<forall>c \<in> set l. (of_char c :: nat) < 128" if "l \<in> set ?ls" for l
    using ascii set_mono_sublist [OF dot_labels_sublist [OF that]] by (auto simp: list_all_iff)
  have same: "decode_all (decode_label (char32 schar) punycode) ?ls = decode_all (decode_label of_char punycode) ?ls"
    using chars by (intro decode_all_cong) (simp add: decode_label_def ascii_char32)
  show ?thesis
  proof (cases "sublist ''xn--'' host")
    case True
    then show ?thesis
      using host_labels_decode [of 0 host schar punycode "[]" False] same
      by (cases "decode_all (decode_label of_char punycode) ?ls")
        (auto simp: valid_bidi_host_def host_rule_def labels_valid_rule split: option.split)
  next
    case False
    have "\<not> prefix ''xn--'' l" if "l \<in> set ?ls" for l
      using False dot_labels_sublist [OF that] sublist_order.order.trans prefix_imp_sublist by blast
    then have "decode_all (decode_label of_char punycode) ?ls = decode_all (\<lambda>l. Some (Some (map of_char l))) ?ls"
      by (intro decode_all_cong) (simp add: decode_label_def)
    also have "\<dots> = Some (Some (map (map of_char) ?ls))"
      by (rule decode_all_total)
    finally show ?thesis
      using False chars ascii_class
      by (auto simp: valid_bidi_host_def host_rule_def rtl_name_def)
  qed
qed

section \<open>Properties of the check\<close>

text \<open>A name that the witnesses use: the letter alef, which is written \<open>4db\<close> in Punycode.\<close>

definition demo_punycode :: "string \<Rightarrow> nat list option option" where
  "demo_punycode s = Some (if s = ''4db'' then Some [0x5d0] else None)"

lemma class_of_row:
  assumes "(a, b, f) \<in> set contact_bidi16_ranges" "a \<le> c" "c \<le> b"
  shows "class_of c = flags_class f"
proof -
  have "flags_class (class_flags k) = k" for k
    by (cases k) (simp_all add: flags_class_def)
  then show ?thesis
    using bidi_flags_row [OF assms] by (simp add: bidi_flags_class) metis
qed

lemma demo_rows:
  "(97, 122, 33) \<in> set contact_bidi16_ranges" "(48, 57, 52) \<in> set contact_bidi16_ranges"
  "(0x5d0, 0x5ea, 18) \<in> set contact_bidi16_ranges"
  by (simp_all add: contact_bidi16_ranges_def bidi_rows_0_def)

lemma demo_class:
  "97 \<le> c \<Longrightarrow> c \<le> 122 \<Longrightarrow> class_of c = Class_L"
  "class_of 49 = Class_EN"
  "class_of 0x5d0 = Class_R"
  using demo_rows [THEN class_of_row] by (simp_all add: flags_class_def)

lemma demo_labels:
  "dot_labels ''xn--4db.com'' = [''xn--4db'', ''com'']"
  "dot_labels ''xn--4db.1om'' = [''xn--4db'', ''1om'']"
  by simp_all

lemma demo_ends: "ends_in {Class_R, Class_EN, Class_AN} [Class_R]" "ends_in {Class_L, Class_EN} [Class_L, Class_L, Class_L]"
  using ends_in_snoc [of "{Class_R, Class_EN, Class_AN}" "[]" Class_R]
    ends_in_snoc [of "{Class_L, Class_EN}" "[Class_L, Class_L]" Class_L] by simp_all

lemma demo_host:
  "host_rule demo_punycode ''xn--4db.com'' = Some True"
  "host_rule demo_punycode ''xn--4db.1om'' = Some False"
  unfolding host_rule_def demo_labels
  using demo_ends by (simp_all add: decode_label_def demo_punycode_def demo_class bidi_rule_def)

text \<open>C9: \<open>valid_bidi_host\<close> decides the rule of RFC 5893 for every ASCII host name and every Punycode decoder: the
  labels between the dots are decoded in order, a label that does not decode makes the answer false, and
  a name with a right-to-left character passes exactly when each nonempty label follows the rule. The
  shortcut for names without \<open>xn--\<close> and the signedness of \<open>char\<close> do not change the answer.\<close>

theorem valid_bidi_host_rule:
  assumes "list_all (\<lambda>c. (of_char c :: nat) < 128) host"
  shows "valid_bidi_host schar punycode host = host_rule punycode host"
  by (rule host_rule_eq [OF assms])

theorem valid_bidi_host_rule_witness:
  "valid_bidi_host True demo_punycode ''xn--4db.com'' = Some True
   \<and> valid_bidi_host False demo_punycode ''xn--4db.1om'' = Some False"
  using valid_bidi_host_rule [of "''xn--4db.com''" True demo_punycode]
    valid_bidi_host_rule [of "''xn--4db.1om''" False demo_punycode] demo_host by simp

text \<open>What the origin check relies on in the URL parser: the origin of a URL with the scheme \<open>https\<close> is
  written as the scheme, the host name and, when there is one, a colon and the port.\<close>

definition ada_origin :: "(string \<Rightarrow> url_aggregator option option) \<Rightarrow> bool" where
  "ada_origin parse \<longleftrightarrow> (\<forall>s u. parse s = Some (Some u) \<and> get_protocol u = ''https:'' \<longrightarrow>
     (\<exists>port. get_origin u = ''https://'' @ get_hostname u @ port \<and> (port = [] \<or> hd port = CHR '':'')))"

definition bare_origin :: "(string \<Rightarrow> nat list option option) \<Rightarrow> (string \<Rightarrow> url_aggregator option option) \<Rightarrow> string \<Rightarrow> bool" where
  "bare_origin punycode parse s \<longleftrightarrow> (\<exists>u port.
     parse s = Some (Some u) \<and> get_protocol u = ''https:'' \<and> get_origin u = s
     \<and> s = ''https://'' @ get_hostname u @ port \<and> (port = [] \<or> hd port = CHR '':'')
     \<and> host_rule punycode (get_hostname u) = Some True
     \<and> get_username u = [] \<and> get_password u = [] \<and> get_pathname u = ''/'' \<and> get_search u = [] \<and> get_hash u = [])"

lemma printable_take:
  "len \<le> length b \<Longrightarrow> list_ex (\<lambda>i. (of_char (b ! i) :: nat) < 0x21 \<or> 0x7e < (of_char (b ! i) :: nat)) [0..<len]
    \<longleftrightarrow> \<not> list_all (\<lambda>c. 0x21 \<le> (of_char c :: nat) \<and> (of_char c :: nat) \<le> 0x7e) (take len b)"
  by (simp add: list_ex_iff list_all_length Bex_def not_le)

lemma origin_parsed:
  assumes "9 \<le> len" "len \<le> 512" "len \<le> length b"
    "list_all (\<lambda>c. 0x21 \<le> (of_char c :: nat) \<and> (of_char c :: nat) \<le> 0x7e) (take len b)"
  shows "zrotext_contact_origin_v1 schar punycode parse (Some b) len =
    (case parse (take len b) of
       Some (Some u) \<Rightarrow>
         if get_protocol u = ''https:'' \<and> get_origin u = take len b then
           (case valid_bidi_host schar punycode (get_hostname u) of
              None \<Rightarrow> 0
            | Some valid \<Rightarrow> of_bool (valid \<and> get_username u = [] \<and> get_password u = [] \<and> get_pathname u = ''/''
                \<and> get_search u = [] \<and> get_hash u = []))
         else 0
     | _ \<Rightarrow> 0)"
proof -
  have printable: "\<not> list_ex (\<lambda>i. (of_char (b ! i) :: nat) < 0x21 \<or> 0x7e < (of_char (b ! i) :: nat)) [0..<len]"
    using printable_take [OF assms(3)] assms(4) by blast
  have guard: "\<not> (len < 9 \<or> 512 < len)"
    using assms by simp
  show ?thesis
    unfolding zrotext_contact_origin_v1_def option.case if_not_P [OF printable] if_not_P [OF guard] Let_def
    by (simp split: option.split)
qed

lemma bare_origin_parsed:
  assumes "ada_origin parse" "parse s = Some (Some u)" "get_protocol u = ''https:''" "get_origin u = s"
  shows "bare_origin punycode parse s \<longleftrightarrow> host_rule punycode (get_hostname u) = Some True
      \<and> get_username u = [] \<and> get_password u = [] \<and> get_pathname u = ''/'' \<and> get_search u = [] \<and> get_hash u = []"
    and "set (get_hostname u) \<subseteq> set s"
proof -
  obtain port where port: "s = ''https://'' @ get_hostname u @ port" "port = [] \<or> hd port = CHR '':''"
    using assms unfolding ada_origin_def by metis
  then show "bare_origin punycode parse s \<longleftrightarrow> host_rule punycode (get_hostname u) = Some True
      \<and> get_username u = [] \<and> get_password u = [] \<and> get_pathname u = ''/'' \<and> get_search u = [] \<and> get_hash u = []"
    using assms(2-4) unfolding bare_origin_def by auto
  show "set (get_hostname u) \<subseteq> set s"
    unfolding port(1) by auto
qed

lemma origin_answer:
  assumes "ada_origin parse" "9 \<le> len" "len \<le> 512" "len \<le> length b"
    and printable: "list_all (\<lambda>c. 0x21 \<le> (of_char c :: nat) \<and> (of_char c :: nat) \<le> 0x7e) (take len b)"
  shows "zrotext_contact_origin_v1 schar punycode parse (Some b) len = of_bool (bare_origin punycode parse (take len b))"
proof (cases "\<exists>u. parse (take len b) = Some (Some u) \<and> get_protocol u = ''https:'' \<and> get_origin u = take len b")
  case True
  then obtain u where u: "parse (take len b) = Some (Some u)" "get_protocol u = ''https:''" "get_origin u = take len b"
    by blast
  have "list_all (\<lambda>c. (of_char c :: nat) < 128) (get_hostname u)"
    using bare_origin_parsed(2) [OF assms(1) u] printable by (fastforce simp: list_all_iff)
  note host = host_rule_eq [OF this, of schar punycode]
  show ?thesis
    unfolding origin_parsed [OF assms(2-4) printable] bare_origin_parsed(1) [OF assms(1) u] host
    by (cases "host_rule punycode (get_hostname u)") (simp_all add: u host)
next
  case False
  then have "\<not> bare_origin punycode parse (take len b)"
    unfolding bare_origin_def by blast
  then show ?thesis
    unfolding origin_parsed [OF assms(2-4) printable] using False by (auto split: option.split)
qed

text \<open>C10: \<open>zrotext_contact_origin_v1\<close> answers 1 for a buffer exactly when its bytes are 9 to 512 printable ASCII
  characters that the parser reads as an \<open>https\<close> URL whose serialised origin is those very bytes, with a host name
  that follows RFC 5893 and without user, password, path, query or fragment; it answers 0 otherwise, also
  for a null pointer and for an exception of the parser or the decoder.\<close>

theorem contact_origin_decides:
  assumes "ada_origin parse" "len \<le> length b"
  shows "zrotext_contact_origin_v1 schar punycode parse (Some b) len =
    of_bool (9 \<le> len \<and> len \<le> 512
      \<and> list_all (\<lambda>c. 0x21 \<le> (of_char c :: nat) \<and> (of_char c :: nat) \<le> 0x7e) (take len b)
      \<and> bare_origin punycode parse (take len b))
    \<and> zrotext_contact_origin_v1 schar punycode parse None len = 0"
proof -
  let ?s = "take len b"
  let ?printable = "list_all (\<lambda>c. 0x21 \<le> (of_char c :: nat) \<and> (of_char c :: nat) \<le> 0x7e) ?s"
  have null: "zrotext_contact_origin_v1 schar punycode parse None len = 0"
    by (simp add: zrotext_contact_origin_v1_def)
  have refused: "zrotext_contact_origin_v1 schar punycode parse (Some b) len = 0"
    if "\<not> (9 \<le> len \<and> len \<le> 512 \<and> ?printable)"
  proof (cases "len < 9 \<or> 512 < len")
    case False
    then have "\<not> ?printable"
      using that by linarith
    then show ?thesis
      unfolding zrotext_contact_origin_v1_def option.case printable_take [OF assms(2)]
      by (simp only: not_False_eq_True if_True if_cancel)
  qed (simp only: zrotext_contact_origin_v1_def option.case if_True)
  show ?thesis
    using origin_answer [OF assms(1) _ _ assms(2)] refused null by (cases "9 \<le> len \<and> len \<le> 512 \<and> ?printable") auto
qed

definition demo_parse :: "string \<Rightarrow> url_aggregator option option" where
  "demo_parse s = Some (if s = ''https://xn--4db.com'' then Some \<lparr>get_protocol = ''https:'', get_origin = s,
     get_hostname = ''xn--4db.com'', get_username = [], get_password = [], get_pathname = ''/'',
     get_search = [], get_hash = []\<rparr> else None)"

lemma demo_ada: "ada_origin demo_parse"
  by (auto simp: ada_origin_def demo_parse_def split: if_splits)

lemma demo_bare: "bare_origin demo_punycode demo_parse ''https://xn--4db.com''"
  using demo_host(1) by (simp add: bare_origin_def demo_parse_def)

theorem contact_origin_decides_witness:
  "ada_origin demo_parse
   \<and> zrotext_contact_origin_v1 True demo_punycode demo_parse (Some ''https://xn--4db.com'') 19 = 1
   \<and> zrotext_contact_origin_v1 True demo_punycode demo_parse (Some ''https://xn--4db.com'') 8 = 0"
  using contact_origin_decides [OF demo_ada, of 19 "''https://xn--4db.com''" True demo_punycode]
    contact_origin_decides [OF demo_ada, of 8 "''https://xn--4db.com''" True demo_punycode] demo_ada demo_bare
  by simp

end
