(* ===== verification/Spec2Isabelle.thy ===== *)
theory Spec2Isabelle
  imports Misc Sha256 Hmac Aes Gcm SpInt SenderJni ContactOrigin
begin

text \<open>
  The native code of ZROtext: the HPKE bridge of the Android gateway and the check of contact origins.

  \<^bold>\<open>The program.\<close> The gateway keeps its private keys in the Android key store, which computes a
  Diffie-Hellman value but does not give the key away. The bridge lets wolfCrypt do the rest of RFC 9180
  (base mode, P-256, HKDF-SHA256, AES-128-GCM) and hands every Diffie-Hellman computation back to the host. Its own code is under
  \<open>src/android/app/src/main/cpp/\<close>: the core \<open>zrotext_hpke_core.c\<close>, the adapters to the Java virtual machine
  \<open>zrotext_hpke_jni.c\<close> (opening) and \<open>zrotext_hpke_sender_jni.c\<close> (sealing), and the configuration
  \<open>user_settings.h\<close> of the vendored wolfCrypt under \<open>wolfssl/\<close>. A call runs from \<open>nativeOpen\<close> or \<open>nativeSeal\<close> to the core,
  from there to \<open>hpke.c\<close>, which asks \<open>ecc.c\<close> for a shared secret; \<open>cryptocb.c\<close> finds the registered device, whose
  callback is the core's again, and that calls the Kotlin method. The contact origin check,
  \<open>src/sdk/native/crypto-envelope/contact-origin/\<close>, is a library of its own.

  \<^bold>\<open>Theories\<close>, in the order in which they build on one another:
  \<^item> \<open>Prelude\<close>, \<open>World\<close>: machine types, return codes, buffers (\<open>cbuf\<close> may be null), the heap with an allocator that
    may refuse any request, the log of released blocks, and the rules for commands of the state monad.
  \<^item> \<open>Misc\<close> (\<open>misc.c\<close>): word-wise XOR and wiping, constant-time comparison and selection.
  \<^item> \<open>Sha256\<close>, \<open>Hmac\<close> (\<open>sha256.c\<close>, \<open>hmac.c\<close>): the code computes FIPS 180-4, FIPS 198-1 and RFC 5869 for input in
    any pieces.
  \<^item> \<open>Aes\<close>, \<open>Gcm\<close> (\<open>aes.c\<close>): the table-driven cipher is FIPS 197; GHASH multiplies in the field; encryption is
    SP 800-38D, decryption releases only authentic plaintext. The locale \<open>block_cipher\<close> is the interface of GCM to its cipher.
  \<^item> \<open>SpInt\<close> (\<open>sp_int.c\<close>): conversion to and from bytes, comparison, sums and differences of numbers of 32-bit digits.
  \<^item> \<open>Drbg\<close>, \<open>DrbgCorrect\<close> (\<open>random.c\<close>): the Hash DRBG is that of SP 800-90A; what the seed test accepts; generators are
    built and released without a leak.
  \<^item> \<open>CryptoCb\<close> (\<open>cryptocb.c\<close>): the table of eight devices refines a map (locale \<open>device_registry\<close>).
  \<^item> \<open>Ecc\<close> (\<open>ecc.c\<close>, \<open>wolfmath.c\<close>): keys, X9.63 points, the range of private keys; without a device there is no arithmetic.
  \<^item> \<open>Hpke\<close>, \<open>HpkeCorrect\<close>, \<open>Kem\<close> (\<open>hpke.c\<close>): contexts seal and open as an AEAD promises (locale \<open>aead\<close>), each
    message of a history of calls under a nonce of its own; encapsulation and the one-shot calls over any device that computes a Diffie-Hellman value (locale \<open>kem_device\<close>).
  \<^item> \<open>Port\<close> (\<open>wc_port.c\<close>): \<open>wolfCrypt_Init\<close> and \<open>wolfCrypt_Cleanup\<close> refine a counter.
  \<^item> \<open>Bridge\<close> (\<open>zrotext_hpke_core.c\<close>): the callback provides \<open>kem_device\<close>; \<open>open_spec\<close> and \<open>seal_spec\<close> are the contract of
    the two entry points on every branch, and every history of calls keeps the invariant \<open>zt_inv\<close>.
  \<^item> \<open>Jvm\<close>, \<open>Jni\<close>, \<open>SenderJni\<close>: the JNI table as a parameter with the laws of its specification (locale \<open>jni\<close>, interpreted on
    a virtual machine), the adapters, and loading and unloading.
  \<^item> \<open>BidiTable\<close>, \<open>ContactOrigin\<close> (\<open>contact_bidi16.h\<close>, \<open>contact_origin.cpp\<close>): the table partitions Unicode, the binary search is
    the lookup in it, and the host check decides the rule of RFC 5893 for the classes in that table.

  This theory adds the property that spans sender and recipient.

  \<^bold>\<open>Correspondence.\<close> A C structure is a record, a function is a definition of the same name, a return code is an
  \<open>int\<close>, an output buffer is returned with the code. Functions that allocate or reach the host are commands over
  \<open>env\<close>, whose field \<open>world\<close> holds the device table, the random devices, the flags of the core and the host's state.
  Arithmetic that may wrap is on words. Fresh memory is zero in the model.

  \<^bold>\<open>Loops.\<close> All loops are terminating functions, apart from the two compare-and-exchange loops of \<open>Port\<close>, which are
  partial: it is proved when they return. There is no fuel, and no bound on sizes other than those of the code.

  \<^bold>\<open>Parameters.\<close> The allocator, the operating system's random devices, the host's agree function, the JNI table and the
  Kotlin methods behind it, and the URL parser and Punycode decoder of Ada are arguments of the model.

  \<^bold>\<open>Not modelled.\<close>
  \<^item> Code that \<open>user_settings.h\<close> compiles out or that the bridge does not reach: AES decryption and the modes other than
    GCM, long multiplication and modular arithmetic in \<open>sp_int.c\<close>, curve arithmetic and signatures in \<open>ecc.c\<close>,
    \<open>asn.c\<close>, \<open>coding.c\<close>, \<open>hash.c\<close>, \<open>kdf.c\<close>, \<open>logging.c\<close>, \<open>error.c\<close>. Only the configuration of this build is modelled, so
    the other branches of the preprocessor have no counterpart.
  \<^item> Timing: constant-time routines are modelled by their results.
  \<^item> Threads: the build is single-threaded (\<open>SINGLE_THREADED\<close>); interleavings of calls are sequences.
  \<^item> The parts in other languages: the Rust crates, the Kotlin application, the SDKs, the web client, scripts and deployment.
    The development is about the native code, and meets them only at the interfaces above.
\<close>

section \<open>From sender to recipient\<close>

lemma open_args_sealed:
  assumes "zt_seal_args (Some bS) (Buf eph) (Buf pk) (Buf cek) (Buf info) (Buf aad) (Some ct) = 0"
    "bridge_agree bR \<noteq> None" "length c = 48" "32 \<le> length pt"
  shows "zt_open_args (Some bR) (Buf pk) (Buf eph) (Buf c) (Buf info) (Buf aad) (Some pt) = 0"
  using assms by (auto simp: zt_open_args_def zt_seal_args_def rc_defs split: if_splits)

lemma open_sealed:
  assumes "open_spec b pk enc (SealBase 1 16 (zt_dh b enc s) enc pk info aad cek) info aad pt ok s r out s'"
    "point enc" "point pk" "zt_rc b enc s = 0" "length info \<le> 486" "length cek = 32" "length aad < 2 ^ 32" "32 \<le> length pt"
  shows "r = 0 \<and> out = cek @ drop 32 pt \<or> out = pt \<and> (r = RNG_FAILURE_E \<or> \<not> ok \<and> (r = MEMORY_E \<or> r = ECC_BAD_ARG_E))"
  using assms OpenBase_SealBase [of cek aad "zt_dh b enc s" enc pk info]
  by (auto elim!: open_specE simp: blit_def)

text \<open>C4: A content key that the sender has sealed opens at the recipient. When the two hosts agree on the same
  Diffie-Hellman value and \<open>zt_hpke_seal_cek\<close> answers 0, \<open>zt_hpke_open\<close> on the 48 bytes it has written
  returns the content key, unless the recipient has no random generator or no memory, in which case its
  output is untouched. When sealing fails, the 48 bytes are zero.\<close>

theorem sealed_key_opens:
  assumes "zt_inv (world hS)" "zt_inv (world hR)"
    "zt_seal_args (Some bS) (Buf eph) (Buf pk) (Buf cek) (Buf info) (Buf aad) (Some ct) = 0"
    "bridge_agree bR \<noteq> None" "32 \<le> length pt"
    "zt_rc bR eph (host (world hR)) = 0" "zt_dh bR eph (host (world hR)) = zt_dh bS pk (host (world hS))"
    "run_state (zt_hpke_seal_cek (Some bS) (Buf eph) (Buf pk) (Buf cek) (Buf info) (Buf aad) (Some ct)) hS = ((rs, Some x), hS')"
    "run_state (zt_hpke_open (Some bR) (Buf pk) (Buf eph) (Buf (take 48 x)) (Buf info) (Buf aad) (Some pt)) hR = ((r, out), hR')"
  shows "if rs = 0
    then r = 0 \<and> out = Some (cek @ drop 32 pt)
      \<or> out = Some pt \<and> (r = RNG_FAILURE_E \<or> \<not> alloc_ok hR \<and> (r = MEMORY_E \<or> r = ECC_BAD_ARG_E))
    else take 48 x = zeros 48"
proof -
  note d = seal_argsD [OF assms(3)]
  have l: "length (SealBase 1 16 (zt_dh bS pk (host (world hS))) eph pk info aad cek) = 48"
    using length_SealBase [of cek aad] d by simp
  have seal: "seal_spec bS eph pk cek info aad ct (alloc_ok hS) (host (world hS)) rs x (host (world hS'))"
    using leaves_run(1) [OF leaves_seal [OF assms(1,3)] assms(8)] by simp
  show ?thesis
  proof (cases "rs = 0")
    case True
    with seal have s: "point eph" "point pk" "length info \<le> 486"
      "take 48 x = SealBase 1 16 (zt_dh bR eph (host (world hR))) eph pk info aad cek"
      using l assms(7) by (auto elim!: seal_specE simp: rc_defs host_code_def key_format_code_def split: if_splits)
    have "zt_open_args (Some bR) (Buf pk) (Buf eph) (Buf (take 48 x)) (Buf info) (Buf aad) (Some pt) = 0"
      using l s(4) assms(7) by (intro open_args_sealed [OF assms(3,4) _ assms(5)]) simp
    then obtain y where "out = Some y" "open_spec bR pk eph (take 48 x) info aad pt (alloc_ok hR) (host (world hR)) r y (host (world hR'))"
      using leaves_run(1) [OF leaves_open [OF assms(2)] assms(9)] by auto
    then show ?thesis
      using open_sealed [OF _ s(1,2) assms(6) s(3) _ _ assms(5)] s(4) d True by auto
  next
    case False
    then show ?thesis
      using seal by (auto elim!: seal_specE)
  qed
qed

theorem sealed_key_opens_witness:
  "\<exists>rs x r out hS' hR'.
     run_state (zt_hpke_seal_cek (Some demo_bridge) (Buf demo_point) (Buf demo_point) (Buf (zeros 32)) (Buf [1]) (Buf [2]) (Some (zeros 48))) demo_zt
       = ((rs, Some x), hS') \<and>
     run_state (zt_hpke_open (Some demo_bridge) (Buf demo_point) (Buf demo_point) (Buf (take 48 x)) (Buf [1]) (Buf [2]) (Some (replicate 32 5))) demo_zt
       = ((r, out), hR') \<and>
     (if rs = 0 then r = 0 \<and> out = Some (zeros 32) \<or> r = RNG_FAILURE_E \<and> out = Some (replicate 32 5) else take 48 x = zeros 48)"
proof -
  let ?m = "zt_hpke_seal_cek (Some demo_bridge) (Buf demo_point) (Buf demo_point) (Buf (zeros 32)) (Buf [1]) (Buf [2]) (Some (zeros 48))"
  obtain rs o1 hS' where m: "run_state ?m demo_zt = ((rs, o1), hS')" by (metis surj_pair)
  then obtain x where x: "o1 = Some x"
    using leaves_run(1) [OF leaves_seal [OF demo_zt_inv(1) demo_args(2)] m] by auto
  obtain r out hR' where o: "run_state (zt_hpke_open (Some demo_bridge) (Buf demo_point) (Buf demo_point) (Buf (take 48 x)) (Buf [1]) (Buf [2])
    (Some (replicate 32 5))) demo_zt = ((r, out), hR')" by (metis surj_pair)
  have "bridge_agree demo_bridge \<noteq> None" by (simp add: demo_bridge_def)
  from sealed_key_opens [OF demo_zt_inv(1) demo_zt_inv(1) demo_args(2) this _ _ _ m [unfolded x] o] show ?thesis
    using m x o by (auto simp: demo_answer demo_zt_inv split: if_splits)
qed

end
